theory Spec2Isabelle
  imports Complex_Main "HOL-Library.Sublist" "HOL-Library.List_Lexorder" "HOL-Library.Char_ord"
    "HOL-Library.Multiset"
begin

section \<open>Strings of the host language\<close>

text \<open>
  A string of the program is a sequence of code units; it is modelled by \<^typ>\<open>string\<close>, so
  the code units are those below 256 and \<^const>\<open>length\<close> is the program's \<^verbatim>\<open>.length\<close>.
  \<^verbatim>\<open>String.prototype.trim\<close> removes white space and line terminators at both ends; below
  256 these are TAB, LF, VT, FF, CR, SPACE and NBSP.
\<close>

definition nl :: char where
  "nl = CHR 0x0A"

definition isWhiteSpace :: "char \<Rightarrow> bool" where
  "isWhiteSpace c \<longleftrightarrow>
     c = CHR 0x09 \<or> c = CHR 0x0A \<or> c = CHR 0x0B \<or> c = CHR 0x0C \<or> c = CHR 0x0D \<or>
     c = CHR 0x20 \<or> c = CHR 0xA0"

definition trim :: "string \<Rightarrow> string" where
  "trim s = rev (dropWhile isWhiteSpace (rev (dropWhile isWhiteSpace s)))"

text \<open>\<^verbatim>\<open>text.split('\n')\<close>: the pieces between the line feeds; one more piece than line feeds.\<close>

fun split_newline :: "string \<Rightarrow> string list" where
  "split_newline [] = [[]]"
| "split_newline (c # cs) =
     (if c = nl then [] # split_newline cs
      else (c # hd (split_newline cs)) # tl (split_newline cs))"

section \<open>The chunker\<close>

text \<open>
  \<^verbatim>\<open>createChunks(text, chunkSize)\<close>. The loop over the lines carries the chunks pushed so far
  and \<^verbatim>\<open>currentChunk\<close>; \<open>push_nonblank\<close> is the guarded \<^verbatim>\<open>chunks.push(currentChunk)\<close>, which the
  source has once in the loop and once after it.
\<close>

definition push_nonblank :: "string list \<Rightarrow> string \<Rightarrow> string list" where
  "push_nonblank chunks currentChunk =
     (if length (trim currentChunk) > 0 then chunks @ [currentChunk] else chunks)"

fun chunk_loop :: "int \<Rightarrow> string list \<Rightarrow> string list \<Rightarrow> string \<Rightarrow> string list \<times> string" where
  "chunk_loop chunkSize [] chunks currentChunk = (chunks, currentChunk)"
| "chunk_loop chunkSize (line # rest) chunks currentChunk =
     (if int (length currentChunk) + int (length line) + 1 > chunkSize
      then chunk_loop chunkSize rest (push_nonblank chunks currentChunk) (line @ [nl])
      else chunk_loop chunkSize rest chunks (currentChunk @ line @ [nl]))"

definition createChunks :: "string \<Rightarrow> int \<Rightarrow> string list" where
  "createChunks text chunkSize =
     (if int (length text) \<le> chunkSize then [text]
      else case chunk_loop chunkSize (split_newline text) [] [] of
             (chunks, currentChunk) \<Rightarrow> push_nonblank chunks currentChunk)"

text \<open>Vocabulary for the properties of the chunker: a line of white space only, and lines
  joined with a line feed after each.\<close>

definition blank :: "string \<Rightarrow> bool" where
  "blank s \<longleftrightarrow> trim s = []"

definition terminated :: "string list \<Rightarrow> string" where
  "terminated ls = concat (map (\<lambda>l. l @ [nl]) ls)"

section \<open>String and number methods of the host language\<close>

text \<open>
  The methods of \<^verbatim>\<open>String.prototype\<close> and \<^verbatim>\<open>Number.prototype\<close> that the program calls,
  with the arguments it calls them with. A number is modelled by its exact value
  (\<^typ>\<open>rat\<close> holds every finite double); \<^verbatim>\<open>NaN\<close> and the infinities are not values of
  the model. The arithmetic of numbers, which rounds, follows this section.
\<close>

definition digit :: "nat \<Rightarrow> char" where
  "digit n = ''0123456789'' ! n"

text \<open>\<^verbatim>\<open>n.toString()\<close> for a non-negative integer, and for any integer.\<close>

fun dec :: "nat \<Rightarrow> string" where
  "dec n = (if n < 10 then [digit n] else dec (n div 10) @ [digit (n mod 10)])"

declare dec.simps [simp del]

definition dec_int :: "int \<Rightarrow> string" where
  "dec_int i = (if i < 0 then CHR ''-'' # dec (nat (- i)) else dec (nat i))"

definition padStart :: "nat \<Rightarrow> char \<Rightarrow> string \<Rightarrow> string" where
  "padStart n c s = replicate (n - length s) c @ s"

text \<open>\<^verbatim>\<open>s.slice(b, e)\<close> for indices that are not negative.\<close>

definition slice :: "nat \<Rightarrow> nat \<Rightarrow> string \<Rightarrow> string" where
  "slice b e s = take (e - b) (drop b s)"

text \<open>\<^verbatim>\<open>s.indexOf(c)\<close> and \<^verbatim>\<open>s.lastIndexOf(c)\<close> for a single character: \<open>-1\<close> when absent.\<close>

fun indexOf :: "string \<Rightarrow> char \<Rightarrow> int" where
  "indexOf [] c = - 1"
| "indexOf (x # xs) c =
     (if x = c then 0 else if indexOf xs c = - 1 then - 1 else indexOf xs c + 1)"

definition lastIndexOf :: "string \<Rightarrow> char \<Rightarrow> int" where
  "lastIndexOf s c =
     (if indexOf (rev s) c = - 1 then - 1 else int (length s) - 1 - indexOf (rev s) c)"

text \<open>\<^verbatim>\<open>s.substring(b, e)\<close>: both indices are clamped to the string and swapped when out of
  order.\<close>

definition substring :: "string \<Rightarrow> int \<Rightarrow> int \<Rightarrow> string" where
  "substring s b e =
     (let b' = nat (max 0 (min b (int (length s))));
          e' = nat (max 0 (min e (int (length s))))
      in take (max b' e' - min b' e') (drop (min b' e') s))"

text \<open>\<^verbatim>\<open>s.startsWith(p)\<close> is \<^term>\<open>prefix p s\<close>. \<open>str_includes s p\<close>: the literal \<open>p\<close> occurs
  somewhere in \<open>s\<close>, which is what the test of an unanchored literal pattern decides.\<close>

fun str_includes :: "string \<Rightarrow> string \<Rightarrow> bool" where
  "str_includes [] p = (p = [])"
| "str_includes (c # cs) p = (prefix p (c # cs) \<or> str_includes cs p)"

text \<open>
  The character class \<^verbatim>\<open>[a-zA-Z0-9]\<close>, and the case folding of a regular expression with the
  flag \<^verbatim>\<open>i\<close> and without the flag \<^verbatim>\<open>u\<close>: a character is compared by its upper case, and a
  character outside ASCII is never folded onto an ASCII one.
\<close>

definition isAlnum :: "char \<Rightarrow> bool" where
  "isAlnum c \<longleftrightarrow>
     (CHR ''a'' \<le> c \<and> c \<le> CHR ''z'') \<or> (CHR ''A'' \<le> c \<and> c \<le> CHR ''Z'') \<or>
     (CHR ''0'' \<le> c \<and> c \<le> CHR ''9'')"

definition canonicalize :: "char \<Rightarrow> char" where
  "canonicalize c =
     (if CHR ''a'' \<le> c \<and> c \<le> CHR ''z'' then char_of (of_char c - (32 :: nat)) else c)"

text \<open>
  \<^verbatim>\<open>x.toFixed(f)\<close>. Below \<open>10\<^sup>2\<^sup>1\<close> in magnitude the digits are those of the integer \<open>n\<close>
  nearest to \<open>x * 10\<^sup>f\<close> (the larger one of two), padded to \<open>f + 1\<close> digits, with the point
  before the last \<open>f\<close>; from \<open>10\<^sup>2\<^sup>1\<close> on the method returns \<^verbatim>\<open>Number.prototype.toString\<close> of
  the magnitude, the shortest decimal that reads back as the same double, which is a
  parameter here.
\<close>

definition toFixed :: "(rat \<Rightarrow> string) \<Rightarrow> nat \<Rightarrow> rat \<Rightarrow> string" where
  "toFixed numberToString f x =
     (let s = (if x < 0 then ''-'' else '''');
          a = \<bar>x\<bar>
      in if a \<ge> 10 ^ 21 then s @ numberToString a
         else
           let n = nat \<lfloor>a * 10 ^ f + 1 / 2\<rfloor>;
               m = padStart (f + 1) CHR ''0'' (dec n);
               k = length m
           in if f = 0 then s @ m else s @ take (k - f) m @ ''.'' @ drop (k - f) m)"

section \<open>Arithmetic of numbers\<close>

text \<open>
  A number of the language is a double (IEEE 754 binary64), and the sum, the product and
  the quotient of two numbers are the exact results rounded to the nearest double, the one
  with the even significand of two that are equally near. \<open>round_half_even\<close> rounds a
  rational to an integer in this way.
\<close>

definition round_half_even :: "rat \<Rightarrow> int" where
  "round_half_even q =
     (let f = \<lfloor>q\<rfloor>
      in if q - of_int f < 1 / 2 then f
         else if 1 / 2 < q - of_int f then f + 1
         else if even f then f else f + 1)"

text \<open>
  The binary exponent of a magnitude: the \<open>e\<close> with \<open>2\<^sup>e \<le> x < 2\<^sup>e\<^sup>+\<^sup>1\<close>, and \<open>-1022\<close>, the
  exponent of the subnormal doubles, below \<open>2\<^sup>-\<^sup>1\<^sup>0\<^sup>2\<^sup>2\<close>. It is found by halving a magnitude
  from 1 on and by doubling one below 1.
\<close>

function exponent_hi :: "int \<Rightarrow> rat \<Rightarrow> int" where
  "exponent_hi e x = (if x < 2 then e else exponent_hi (e + 1) (x / 2))"
  by pat_completeness auto
termination
proof (relation "measure (\<lambda>(e, x). nat \<lfloor>x\<rfloor>)")
  fix e :: int and x :: rat
  assume "\<not> x < 2"
  then have "x / 2 \<le> x - 1" by simp
  then have "\<lfloor>x / 2\<rfloor> \<le> \<lfloor>x - 1\<rfloor>" by (rule floor_mono)
  moreover have "1 \<le> \<lfloor>x\<rfloor>" using \<open>\<not> x < 2\<close> by linarith
  ultimately show "((e + 1, x / 2), (e, x)) \<in> measure (\<lambda>(e, x). nat \<lfloor>x\<rfloor>)"
    by simp
qed simp

function exponent_lo :: "int \<Rightarrow> rat \<Rightarrow> int" where
  "exponent_lo e x = (if e \<le> - 1022 \<or> 1 \<le> x then e else exponent_lo (e - 1) (2 * x))"
  by pat_completeness auto
termination
  by (relation "measure (\<lambda>(e, x). nat (e + 1022))") auto

declare exponent_hi.simps [simp del] exponent_lo.simps [simp del]

definition exponent :: "rat \<Rightarrow> int" where
  "exponent x = (if x < 1 then exponent_lo 0 x else exponent_hi 0 x)"

text \<open>
  The double nearest to a rational: the magnitude is rounded to a multiple of the unit in
  the last of the 53 binary places of its exponent. A magnitude of \<open>2\<^sup>1\<^sup>0\<^sup>2\<^sup>4\<close> or more, which
  rounds to an infinity, is outside the model. A rational is a double when rounding leaves
  it as it is.
\<close>

definition to_double :: "rat \<Rightarrow> rat" where
  "to_double x =
     (let a = \<bar>x\<bar>;
          u = 2 powi (exponent a - 52);
          m = of_int (round_half_even (a / u)) * u
      in if x < 0 then - m else m)"

definition is_double :: "rat \<Rightarrow> bool" where
  "is_double x \<longleftrightarrow> to_double x = x"

text \<open>\<^verbatim>\<open>x + y\<close>, \<^verbatim>\<open>x * y\<close> and \<^verbatim>\<open>x / y\<close> on numbers.\<close>

definition Number_add :: "rat \<Rightarrow> rat \<Rightarrow> rat" where
  "Number_add x y = to_double (x + y)"

definition Number_multiply :: "rat \<Rightarrow> rat \<Rightarrow> rat" where
  "Number_multiply x y = to_double (x * y)"

definition Number_divide :: "rat \<Rightarrow> rat \<Rightarrow> rat" where
  "Number_divide x y = to_double (x / y)"

section \<open>Dates of the host language\<close>

text \<open>
  A time value is a number of milliseconds since 1970-01-01T00:00:00Z; \<^verbatim>\<open>NaN\<close>, the time
  value of an invalid date, is \<^const>\<open>None\<close>. The functions are those of the language standard
  (section \<^emph>\<open>Date Objects\<close>), under its names.
\<close>

definition msPerDay :: int where
  "msPerDay = 86400000"

definition Day :: "int \<Rightarrow> int" where
  "Day t = t div msPerDay"

definition DayFromYear :: "int \<Rightarrow> int" where
  "DayFromYear y = 365 * (y - 1970) + (y - 1969) div 4 - (y - 1901) div 100 + (y - 1601) div 400"

definition DaysInYear :: "int \<Rightarrow> int" where
  "DaysInYear y = (if y mod 4 \<noteq> 0 then 365 else if y mod 100 \<noteq> 0 then 366 else if y mod 400 \<noteq> 0 then 365 else 366)"

text \<open>
  \<open>YearFromTime t\<close> is the largest year \<open>y\<close> with \<open>TimeFromYear y \<le> t\<close>. It is computed by
  a search upwards from an estimate that is not above it; the lemmas before the termination
  proof give the length of a year, on which the measure of the search rests.
\<close>

lemma div_step:
  assumes "0 < (n::int)"
  shows "y div n - (y - 1) div n = (if y mod n = 0 then 1 else 0)"
proof -
  define q r where "q = y div n" and "r = y mod n"
  have y: "y = n * q + r" and r: "0 \<le> r" "r < n"
    using assms by (simp_all add: q_def r_def)
  show ?thesis
  proof (cases "r = 0")
    case True
    then have "y - 1 = n * (q - 1) + (n - 1)"
      using y by (simp add: algebra_simps)
    then have "(y - 1) div n = q - 1"
      by (rule int_div_pos_eq) (use assms in simp_all)
    then show ?thesis using True by (simp add: q_def r_def)
  next
    case False
    have "y - 1 = n * q + (r - 1)"
      using y by simp
    then have "(y - 1) div n = q"
      by (rule int_div_pos_eq) (use r False in simp_all)
    then show ?thesis using False by (simp add: q_def r_def)
  qed
qed

lemma DayFromYear_alt: "DayFromYear y = 365 * (y - 1970) + (y - 1) div 4 - (y - 1) div 100 + (y - 1) div 400 - 477"
proof -
  have "(y - 1969) div 4 = (y - 1 + (- 492) * 4) div 4" by simp
  also have "\<dots> = (y - 1) div 4 - 492" by (subst div_mult_self1) simp_all
  finally have a: "(y - 1969) div 4 = (y - 1) div 4 - 492" .
  have "(y - 1901) div 100 = (y - 1 + (- 19) * 100) div 100" by simp
  also have "\<dots> = (y - 1) div 100 - 19" by (subst div_mult_self1) simp_all
  finally have b: "(y - 1901) div 100 = (y - 1) div 100 - 19" .
  have "(y - 1601) div 400 = (y - 1 + (- 4) * 400) div 400" by simp
  also have "\<dots> = (y - 1) div 400 - 4" by (subst div_mult_self1) simp_all
  finally have c: "(y - 1601) div 400 = (y - 1) div 400 - 4" .
  show ?thesis unfolding DayFromYear_def a b c by simp
qed

lemma mod_0_trans: "(m::int) dvd n \<Longrightarrow> y mod n = 0 \<Longrightarrow> y mod m = 0"
  using dvd_trans by (simp add: mod_eq_0_iff_dvd) blast

lemma DayFromYear_Suc: "DayFromYear (y + 1) = DayFromYear y + DaysInYear y"
proof -
  have a: "y div 4 = (y - 1) div 4 + (if y mod 4 = 0 then 1 else 0)"
    using div_step [of 4 y] by simp
  have b: "y div 100 = (y - 1) div 100 + (if y mod 100 = 0 then 1 else 0)"
    using div_step [of 100 y] by simp
  have c: "y div 400 = (y - 1) div 400 + (if y mod 400 = 0 then 1 else 0)"
    using div_step [of 400 y] by simp
  have d: "y mod 100 = 0 \<Longrightarrow> y mod 4 = 0" "y mod 400 = 0 \<Longrightarrow> y mod 100 = 0"
    by (rule mod_0_trans [rotated], assumption, simp)+
  show ?thesis
    using d unfolding DayFromYear_alt [of "y + 1"] DayFromYear_alt [of y] DaysInYear_def
    by (simp add: a b c)
qed

lemma DaysInYear_bounds: "365 \<le> DaysInYear y" "DaysInYear y \<le> 366"
  by (simp_all add: DaysInYear_def)

lemma DayFromYear_1970: "DayFromYear 1970 = 0"
  by (simp add: DayFromYear_def)

lemma DayFromYear_upper: "0 \<le> k \<Longrightarrow> DayFromYear (1970 + k) \<le> 366 * k"
proof (induction k rule: int_ge_induct)
  case base
  then show ?case by (simp add: DayFromYear_1970)
next
  case (step i)
  have "DayFromYear (1970 + (i + 1)) = DayFromYear (1970 + i) + DaysInYear (1970 + i)"
    using DayFromYear_Suc [of "1970 + i"] by (simp add: add.assoc)
  with step DaysInYear_bounds(2) [of "1970 + i"] show ?case by simp
qed

lemma DayFromYear_lower: "k \<le> 0 \<Longrightarrow> DayFromYear (1970 + k) \<le> 365 * k"
proof (induction k rule: int_le_induct)
  case base
  then show ?case by (simp add: DayFromYear_1970)
next
  case (step i)
  have "DayFromYear (1970 + i) = DayFromYear (1970 + (i - 1)) + DaysInYear (1970 + (i - 1))"
    using DayFromYear_Suc [of "1970 + (i - 1)"] by (simp add: add.assoc)
  with step DaysInYear_bounds(1) [of "1970 + (i - 1)"] show ?case by simp
qed

function year_search :: "int \<Rightarrow> int \<Rightarrow> int" where
  "year_search y d = (if DayFromYear (y + 1) \<le> d then year_search (y + 1) d else y)"
  by pat_completeness auto
termination
proof (relation "measure (\<lambda>(y, d). nat (d - DayFromYear y))")
  show "wf (measure (\<lambda>(y, d). nat (d - DayFromYear y)))" by simp
next
  fix y d :: int
  assume "DayFromYear (y + 1) \<le> d"
  moreover have "DayFromYear y < DayFromYear (y + 1)"
    using DaysInYear_bounds(1) [of y] by (simp add: DayFromYear_Suc)
  ultimately show "((y + 1, d), (y, d)) \<in> measure (\<lambda>(y, d). nat (d - DayFromYear y))"
    by simp
qed

declare year_search.simps [simp del]

definition YearFromDay :: "int \<Rightarrow> int" where
  "YearFromDay d = year_search (1970 + (if 0 \<le> d then d div 366 else d div 365)) d"

definition YearFromTime :: "int \<Rightarrow> int" where
  "YearFromTime t = YearFromDay (Day t)"

definition InLeapYear :: "int \<Rightarrow> int" where
  "InLeapYear t = (if DaysInYear (YearFromTime t) = 366 then 1 else 0)"

definition DayWithinYear :: "int \<Rightarrow> int" where
  "DayWithinYear t = Day t - DayFromYear (YearFromTime t)"

text \<open>The month (0 to 11) and the day of the month of a day within a year; \<open>l\<close> is 1 in a
  leap year and 0 otherwise. These are the two tables of the standard.\<close>

definition month_of_day :: "int \<Rightarrow> int \<Rightarrow> int" where
  "month_of_day d l =
     (if d < 31 then 0 else if d < 59 + l then 1 else if d < 90 + l then 2
      else if d < 120 + l then 3 else if d < 151 + l then 4 else if d < 181 + l then 5
      else if d < 212 + l then 6 else if d < 243 + l then 7 else if d < 273 + l then 8
      else if d < 304 + l then 9 else if d < 334 + l then 10 else 11)"

definition date_of_day :: "int \<Rightarrow> int \<Rightarrow> int" where
  "date_of_day d l =
     (let m = month_of_day d l in
      if m = 0 then d + 1 else if m = 1 then d - 30 else if m = 2 then d - 58 - l
      else if m = 3 then d - 89 - l else if m = 4 then d - 119 - l else if m = 5 then d - 150 - l
      else if m = 6 then d - 180 - l else if m = 7 then d - 211 - l else if m = 8 then d - 242 - l
      else if m = 9 then d - 272 - l else if m = 10 then d - 303 - l else d - 333 - l)"

definition MonthFromTime :: "int \<Rightarrow> int" where
  "MonthFromTime t = month_of_day (DayWithinYear t) (InLeapYear t)"

definition DateFromTime :: "int \<Rightarrow> int" where
  "DateFromTime t = date_of_day (DayWithinYear t) (InLeapYear t)"

definition HourFromTime :: "int \<Rightarrow> int" where
  "HourFromTime t = (t div 3600000) mod 24"

definition MinFromTime :: "int \<Rightarrow> int" where
  "MinFromTime t = (t div 60000) mod 60"

definition SecFromTime :: "int \<Rightarrow> int" where
  "SecFromTime t = (t div 1000) mod 60"

definition msFromTime :: "int \<Rightarrow> int" where
  "msFromTime t = t mod 1000"

text \<open>
  \<open>MakeDay year month date\<close> for a month from 0 to 11: the day number of the first of the
  month, plus \<open>date - 1\<close>. \<open>days_before_month\<close> is the number of days of the year before the
  month and \<open>DaysInMonth\<close> the length of the month.
\<close>

definition days_before_month :: "int \<Rightarrow> int \<Rightarrow> int" where
  "days_before_month m l =
     (if m = 0 then 0 else if m = 1 then 31 else if m = 2 then 59 + l else if m = 3 then 90 + l
      else if m = 4 then 120 + l else if m = 5 then 151 + l else if m = 6 then 181 + l
      else if m = 7 then 212 + l else if m = 8 then 243 + l else if m = 9 then 273 + l
      else if m = 10 then 304 + l else 334 + l)"

definition leap :: "int \<Rightarrow> int" where
  "leap y = (if DaysInYear y = 366 then 1 else 0)"

definition DaysInMonth :: "int \<Rightarrow> int \<Rightarrow> int" where
  "DaysInMonth y m =
     (if m = 1 then 28 + leap y else if m = 3 \<or> m = 5 \<or> m = 8 \<or> m = 10 then 30 else 31)"

definition MakeDay :: "int \<Rightarrow> int \<Rightarrow> int \<Rightarrow> int" where
  "MakeDay year month date = DayFromYear year + days_before_month month (leap year) + date - 1"

definition MakeDate :: "int \<Rightarrow> int \<Rightarrow> int" where
  "MakeDate day time = day * msPerDay + time"

definition TimeClip :: "int \<Rightarrow> int option" where
  "TimeClip t = (if \<bar>t\<bar> > 8640000000000000 then None else Some t)"

text \<open>
  \<^verbatim>\<open>Date.parse\<close>. The standard fixes the result for its own date-time format and leaves every
  other string to the implementation. The model computes the date-only forms \<^verbatim>\<open>YYYY-MM-DD\<close> and
  \<^verbatim>\<open>+YYYYYY-MM-DD\<close>, \<^verbatim>\<open>-YYYYYY-MM-DD\<close> of a day that exists and is in the range of time
  values (they denote midnight UTC), and asks the parameter \<open>impl\<close> for every other string.
\<close>

definition isDigit :: "char \<Rightarrow> bool" where
  "isDigit c \<longleftrightarrow> CHR ''0'' \<le> c \<and> c \<le> CHR ''9''"

definition digit_value :: "char \<Rightarrow> nat" where
  "digit_value c = of_char c - 48"

definition number_of :: "string \<Rightarrow> int" where
  "number_of s = int (foldl (\<lambda>n c. 10 * n + digit_value c) 0 s)"

definition date_only :: "int \<Rightarrow> string \<Rightarrow> int option" where
  "date_only year s =
     (if length s = 6 \<and> s ! 0 = CHR ''-'' \<and> s ! 3 = CHR ''-'' \<and>
         list_all isDigit (slice 1 3 s) \<and> list_all isDigit (slice 4 6 s)
      then let month = number_of (slice 1 3 s); date = number_of (slice 4 6 s)
           in if 1 \<le> month \<and> month \<le> 12 \<and> 1 \<le> date \<and> date \<le> DaysInMonth year (month - 1)
              then TimeClip (MakeDate (MakeDay year (month - 1) date) 0)
              else None
      else None)"

definition parse_iso_date :: "string \<Rightarrow> int option" where
  "parse_iso_date s =
     (if length s = 10 \<and> list_all isDigit (take 4 s)
      then date_only (number_of (take 4 s)) (drop 4 s)
      else if length s = 13 \<and> list_all isDigit (slice 1 7 s) \<and> s ! 0 = CHR ''+''
      then date_only (number_of (slice 1 7 s)) (drop 7 s)
      else if length s = 13 \<and> list_all isDigit (slice 1 7 s) \<and> s ! 0 = CHR ''-'' \<and>
              number_of (slice 1 7 s) \<noteq> 0
      then date_only (- number_of (slice 1 7 s)) (drop 7 s)
      else None)"

definition Date_parse :: "(string \<Rightarrow> int option) \<Rightarrow> string \<Rightarrow> int option" where
  "Date_parse impl s = (case parse_iso_date s of Some t \<Rightarrow> Some t | None \<Rightarrow> impl s)"

text \<open>
  \<^verbatim>\<open>Date.prototype.toISOString\<close> of a valid date: \<^verbatim>\<open>YYYY-MM-DDTHH:mm:ss.sssZ\<close> in UTC, the year
  with four digits from 0 to 9999 and with a sign and six digits otherwise.
\<close>

definition pad :: "nat \<Rightarrow> int \<Rightarrow> string" where
  "pad n i = padStart n CHR ''0'' (dec (nat i))"

definition year_string :: "int \<Rightarrow> string" where
  "year_string y =
     (if 0 \<le> y \<and> y \<le> 9999 then pad 4 y
      else (if y < 0 then ''-'' else ''+'') @ pad 6 \<bar>y\<bar>)"

definition toISOString :: "int \<Rightarrow> string" where
  "toISOString t =
     year_string (YearFromTime t) @ ''-'' @ pad 2 (MonthFromTime t + 1) @ ''-'' @
     pad 2 (DateFromTime t) @ ''T'' @ pad 2 (HourFromTime t) @ '':'' @ pad 2 (MinFromTime t) @
     '':'' @ pad 2 (SecFromTime t) @ ''.'' @ pad 3 (msFromTime t) @ ''Z''"

text \<open>\<^verbatim>\<open>s.replace(/-/g, "")\<close>.\<close>

definition remove_dashes :: "string \<Rightarrow> string" where
  "remove_dashes s = filter (\<lambda>c. c \<noteq> CHR ''-'') s"

section \<open>The platform and the values parsed from JSON\<close>

text \<open>
  The value that \<^verbatim>\<open>JSON.parse\<close> returns. An object is the list of its properties; a property
  that is absent reads as \<^verbatim>\<open>undefined\<close>, which is \<^const>\<open>None\<close>.
\<close>

datatype json =
    JNull
  | JBool bool
  | JNum rat
  | JStr string
  | JArr "json list"
  | JObj "(string \<times> json) list"

text \<open>\<^verbatim>\<open>!v\<close> is false for these values.\<close>

fun truthy :: "json option \<Rightarrow> bool" where
  "truthy None = False"
| "truthy (Some JNull) = False"
| "truthy (Some (JBool b)) = b"
| "truthy (Some (JNum x)) = (x \<noteq> 0)"
| "truthy (Some (JStr s)) = (s \<noteq> [])"
| "truthy (Some (JArr xs)) = True"
| "truthy (Some (JObj fs)) = True"

text \<open>
  What the program takes from outside itself. The extraction capability is an oracle: the
  outcome of its \<open>k\<close>-th call (counted from 0 over the whole run) on a prompt is either an
  error with a message or a response, whose \<^verbatim>\<open>text\<close> may be \<^verbatim>\<open>undefined\<close>. \<open>Math_random k\<close> is
  the \<open>k\<close>-th value drawn from \<^verbatim>\<open>Math.random()\<close>. \<open>JSON_parse\<close> returns the message of its
  \<^verbatim>\<open>SyntaxError\<close> or the value. \<open>Date_parse_impl\<close> is the implementation-defined part of
  \<^verbatim>\<open>Date.parse\<close>, \<open>Number_toString\<close> is the shortest-digits printing of a number,
  \<open>TypeError_message\<close> the text of the engine's \<^verbatim>\<open>TypeError\<close> for an expression,
  \<open>localeCompare\<close> the collation of the host's locale and \<open>LocalTZA\<close> the offset of local
  time from UTC at a time value.
\<close>

record platform =
  generateContent :: "nat \<Rightarrow> string \<Rightarrow> string + string option"
  Math_random :: "nat \<Rightarrow> rat"
  JSON_parse :: "string \<Rightarrow> string + json"
  Date_parse_impl :: "string \<Rightarrow> int option"
  Number_toString :: "rat \<Rightarrow> string"
  TypeError_message :: "string \<Rightarrow> string"
  localeCompare :: "string \<Rightarrow> string \<Rightarrow> int"
  LocalTZA :: "int \<Rightarrow> int"

text \<open>
  The conversion of a value to a string, which \<^verbatim>\<open>new Date\<close> applies to an array and to an
  object. \<^verbatim>\<open>Array.prototype.toString\<close> joins the elements with commas, \<^verbatim>\<open>null\<close> printing as
  nothing, and converts every other element to a string in turn. An object converts through
  its methods \<^verbatim>\<open>valueOf\<close> and \<^verbatim>\<open>toString\<close>: the inherited \<^verbatim>\<open>valueOf\<close> returns the object
  itself, which is no primitive value, and the inherited \<^verbatim>\<open>toString\<close> returns
  \<^verbatim>\<open>[object Object]\<close>; an object with a property of its own named \<^verbatim>\<open>toString\<close>, which
  in a value parsed from JSON is never a function, has no conversion, and a \<^verbatim>\<open>TypeError\<close> is
  thrown. The result is the message of the error or the string.
\<close>

fun ToString :: "(rat \<Rightarrow> string) \<Rightarrow> string \<Rightarrow> json \<Rightarrow> string + string"
  and join_elements :: "(rat \<Rightarrow> string) \<Rightarrow> string \<Rightarrow> json list \<Rightarrow> string + string" where
  "ToString ns e JNull = Inr ''null''"
| "ToString ns e (JBool b) = Inr (if b then ''true'' else ''false'')"
| "ToString ns e (JNum x) = Inr (ns x)"
| "ToString ns e (JStr s) = Inr s"
| "ToString ns e (JArr xs) = join_elements ns e xs"
| "ToString ns e (JObj fs) =
     (if map_of fs ''toString'' = None then Inr ''[object Object]'' else Inl e)"
| "join_elements ns e [] = Inr []"
| "join_elements ns e (x # xs) =
     (case (if x = JNull then Inr [] else ToString ns e x) of
        Inl m \<Rightarrow> Inl m
      | Inr s \<Rightarrow>
          if xs = [] then Inr s
          else case join_elements ns e xs of Inl m \<Rightarrow> Inl m | Inr r \<Rightarrow> Inr (s @ '','' @ r))"

definition ToIntegerOrInfinity :: "rat \<Rightarrow> int" where
  "ToIntegerOrInfinity x = (if x < 0 then - \<lfloor>- x\<rfloor> else \<lfloor>x\<rfloor>)"

text \<open>
  \<^verbatim>\<open>new Date(v).getTime()\<close>, where \<^const>\<open>None\<close> is \<^verbatim>\<open>NaN\<close>: a string is parsed; a number
  outside the range of time values gives \<^verbatim>\<open>NaN\<close> and one inside is truncated
  (\<^verbatim>\<open>TimeClip\<close>); \<^verbatim>\<open>true\<close> is 1; an array or an object is converted to a string, which is
  parsed, or the conversion throws.
\<close>

definition new_Date :: "platform \<Rightarrow> json \<Rightarrow> string + int option" where
  "new_Date P v =
     (case v of
        JStr s \<Rightarrow> Inr (Date_parse (Date_parse_impl P) s)
      | JNum x \<Rightarrow> Inr (if \<bar>x\<bar> > 8640000000000000 then None else Some (ToIntegerOrInfinity x))
      | JBool b \<Rightarrow> Inr (Some (if b then 1 else 0))
      | JNull \<Rightarrow> Inr (Some 0)
      | _ \<Rightarrow>
          (case ToString (Number_toString P) (TypeError_message P ''new Date(tx.date)'') v of
             Inl m \<Rightarrow> Inl m
           | Inr s \<Rightarrow> Inr (Date_parse (Date_parse_impl P) s)))"
section \<open>The record validator and the extraction client\<close>

text \<open>
  The callback of \<^verbatim>\<open>parsedJson.transactions.map\<close>. It returns \<^verbatim>\<open>null\<close> (\<^const>\<open>None\<close>) for a
  record it rejects and the record with its date rewritten otherwise. Reading \<^verbatim>\<open>tx.date\<close> of
  \<^verbatim>\<open>null\<close> throws; of a number, a string, a boolean or an array it is \<^verbatim>\<open>undefined\<close>. An
  error thrown by \<^verbatim>\<open>new Date(tx.date)\<close> leaves the callback. The object spread
  \<^verbatim>\<open>{...tx, date: d}\<close> keeps every property of \<open>tx\<close> and sets \<open>date\<close>.
\<close>

fun set_property :: "string \<Rightarrow> json \<Rightarrow> (string \<times> json) list \<Rightarrow> (string \<times> json) list" where
  "set_property k v [] = [(k, v)]"
| "set_property k v (p # ps) = (if fst p = k then (k, v) # ps else p # set_property k v ps)"

fun normalizeRecord :: "platform \<Rightarrow> json \<Rightarrow> string + json option" where
  "normalizeRecord P JNull = Inl (TypeError_message P ''tx.date'')"
| "normalizeRecord P (JObj tx) =
     (if \<not> truthy (map_of tx ''date'') \<or> \<not> truthy (map_of tx ''description'') \<or>
         map_of tx ''amount'' = None
      then Inr None
      else case new_Date P (the (map_of tx ''date'')) of
             Inl m \<Rightarrow> Inl m
           | Inr None \<Rightarrow> Inr None
           | Inr (Some t) \<Rightarrow>
               Inr (Some (JObj (set_property ''date''
                 (JStr (remove_dashes (slice 0 10 (toISOString t)))) tx))))"
| "normalizeRecord P tx = Inr None"

text \<open>\<^verbatim>\<open>xs.map(f)\<close> for a callback that can throw: the first exception ends the loop.\<close>

fun map_throw :: "('a \<Rightarrow> string + 'b) \<Rightarrow> 'a list \<Rightarrow> string + 'b list" where
  "map_throw f [] = Inr []"
| "map_throw f (x # xs) =
     (case f x of
        Inl m \<Rightarrow> Inl m
      | Inr y \<Rightarrow> (case map_throw f xs of Inl m \<Rightarrow> Inl m | Inr ys \<Rightarrow> Inr (y # ys)))"

definition validatedTransactions :: "platform \<Rightarrow> json list \<Rightarrow> string + json list" where
  "validatedTransactions P txs =
     (case map_throw (normalizeRecord P) txs of
        Inl m \<Rightarrow> Inl m
      | Inr rs \<Rightarrow> Inr (map the (filter (\<lambda>tx. tx \<noteq> None) rs)))"

text \<open>
  The body of the \<^verbatim>\<open>try\<close> block after the call of the capability: from the text of the
  response to the validated records, or to the message of the exception thrown.
\<close>

definition empty_response_message :: string where
  "empty_response_message =
     ''The AI model returned an empty response. This may be due to the file content or safety filters.''"

definition unexpected_format_message :: string where
  "unexpected_format_message = ''The AI returned data in an unexpected format.''"

definition read_response :: "platform \<Rightarrow> string option \<Rightarrow> string + json list" where
  "read_response P text =
     (if text = None \<or> text = Some [] then Inl empty_response_message
      else
        let jsonStartIndex = indexOf (the text) CHR ''{'';
            jsonEndIndex = lastIndexOf (the text) CHR ''}''
        in if jsonStartIndex = - 1 \<or> jsonEndIndex = - 1 \<or> jsonEndIndex < jsonStartIndex
           then Inl unexpected_format_message
           else
             case JSON_parse P (substring (the text) jsonStartIndex (jsonEndIndex + 1)) of
               Inl m \<Rightarrow> Inl m
             | Inr parsedJson \<Rightarrow>
                 (case parsedJson of
                    JNull \<Rightarrow> Inl (TypeError_message P ''parsedJson.transactions'')
                  | JObj fs \<Rightarrow>
                      (case map_of fs ''transactions'' of
                         Some (JArr txs) \<Rightarrow> validatedTransactions P txs
                       | _ \<Rightarrow> Inr [])
                  | _ \<Rightarrow> Inr []))"

text \<open>The template literal \<^verbatim>\<open>prompt\<close> of a chunk.\<close>

definition build_prompt :: "string \<Rightarrow> string \<Rightarrow> nat \<Rightarrow> nat \<Rightarrow> string" where
  "build_prompt statementChunk fileName chunkNumber totalChunks = concat
     [[nl], ''    Analyze the following portion of a financial statement from the file named '',
        [CHR 0x22], fileName, [CHR 0x22], ''.'', [nl],
      ''    This is part '', dec chunkNumber, '' of '', dec totalChunks, ''.'', [nl],
      ''    The content could be from a PDF, CSV, or TXT file.'', [nl],
      ''    Your task is to meticulously extract all individual financial transactions found ONLY within this specific portion of the text.'', [nl],
      ''    For each transaction, identify the date, a clean description, and the amount.'', [nl],
      ''    Ensure that debits, withdrawals, and payments are represented as negative numbers, and credits or deposits are positive numbers.'', [nl],
      ''    Do not include any opening or closing balance rows, summary information, or page headers/footers in the list of transactions.'', [nl],
      ''    If no transactions are present in this chunk, return an empty array.'', [nl],
      ''    Provide the output in the specified JSON format.'', [nl],
      [nl],
      ''    Statement Portion:'', [nl],
      ''    ---'', [nl],
      ''    '', statementChunk, [nl],
      ''    ---'', [nl],
      ''  '']"

text \<open>
  What a run does to the world, in order: it calls the capability, reports a message to
  \<^verbatim>\<open>onProgress\<close>, and waits on a timer (\<open>Wait d\<close> is \<^verbatim>\<open>setTimeout\<close> with the delay \<open>d\<close>, in
  milliseconds). The two counters are the numbers of calls of the capability and of draws
  from \<^verbatim>\<open>Math.random()\<close> so far. Writes to the console are not modelled.
\<close>

datatype event = Called string | Progress string | Wait rat

record run =
  calls :: nat
  draws :: nat
  trace :: "event list"

text \<open>The run before anything has happened.\<close>

definition initial_run :: run where
  "initial_run = \<lparr>calls = 0, draws = 0, trace = []\<rparr>"

text \<open>The delays of the timers of a trace, in order.\<close>

fun waits_of :: "event list \<Rightarrow> rat list" where
  "waits_of [] = []"
| "waits_of (Wait d # es) = d # waits_of es"
| "waits_of (e # es) = waits_of es"

definition emit :: "event \<Rightarrow> run \<Rightarrow> run" where
  "emit e st = st\<lparr>trace := trace st @ [e]\<rparr>"

definition MAX_RETRIES :: nat where
  "MAX_RETRIES = 3"

definition INITIAL_BACKOFF_MS :: rat where
  "INITIAL_BACKOFF_MS = 2000"

text \<open>\<^verbatim>\<open>/rate limit|429/i.test(errorMessage)\<close>.\<close>

definition isRateLimitError :: "string \<Rightarrow> bool" where
  "isRateLimitError errorMessage \<longleftrightarrow>
     str_includes (map canonicalize errorMessage) (map canonicalize ''rate limit'') \<or>
     str_includes (map canonicalize errorMessage) (map canonicalize ''429'')"

text \<open>The message reported before a wait of \<open>delay\<close> milliseconds; \<^verbatim>\<open>delay / 1000\<close> is a
  division of numbers.\<close>

definition retry_message :: "platform \<Rightarrow> rat \<Rightarrow> nat \<Rightarrow> string" where
  "retry_message P delay attempt =
     ''API is busy. Retrying in '' @
     toFixed (Number_toString P) 1 (Number_divide delay 1000) @
     ''s... (Attempt '' @ dec (attempt + 2) @ ''/'' @ dec MAX_RETRIES @ '')''"

text \<open>
  One pass through the \<^verbatim>\<open>try\<close> block, for the \<open>k\<close>-th call of the capability: the
  validated records it returns, or the message of the error that reaches the \<^verbatim>\<open>catch\<close> block.
\<close>

definition attempt_outcome :: "platform \<Rightarrow> nat \<Rightarrow> string \<Rightarrow> string + json list" where
  "attempt_outcome P k prompt =
     (case generateContent P k prompt of
        Inl m \<Rightarrow> Inl m
      | Inr text \<Rightarrow> read_response P text)"

text \<open>
  \<^verbatim>\<open>extractTransactionsFromChunk\<close>: the loop \<^verbatim>\<open>for (attempt = 0; attempt < MAX_RETRIES; attempt++)\<close>
  from a value of \<open>attempt\<close>. The result is the value returned or the message of the error
  thrown, with the run after it. The delay is computed on numbers: a product, a second
  product and their sum, each rounded; \<^verbatim>\<open>Math.pow(2, attempt)\<close> is the exact power for the
  exponents 0, 1 and 2 that the loop reaches.
\<close>

function attempts :: "platform \<Rightarrow> string \<Rightarrow> nat \<Rightarrow> run \<Rightarrow> (string + json list) \<times> run" where
  "attempts P prompt attempt st =
     (if attempt < MAX_RETRIES then
        let st1 = emit (Called prompt) (st\<lparr>calls := calls st + 1\<rparr>) in
        case attempt_outcome P (calls st) prompt of
          Inr validated \<Rightarrow> (Inr validated, st1)
        | Inl errorMessage \<Rightarrow>
            if isRateLimitError errorMessage \<and> attempt < MAX_RETRIES - 1 then
              let delay = Number_add (Number_multiply INITIAL_BACKOFF_MS (2 ^ attempt))
                            (Number_multiply (Math_random P (draws st1)) 1000);
                  st2 = emit (Progress (retry_message P delay attempt))
                          (st1\<lparr>draws := draws st1 + 1\<rparr>);
                  st3 = emit (Wait delay) st2
              in attempts P prompt (attempt + 1) st3
            else (Inl errorMessage, st1)
      else (Inl ''Failed to process a document chunk after multiple retries.'', st))"
  by pat_completeness auto
termination
  by (relation "measure (\<lambda>(P, prompt, attempt, st). MAX_RETRIES - attempt)") auto

declare attempts.simps [simp del]

definition extractTransactionsFromChunk ::
  "platform \<Rightarrow> string \<Rightarrow> string \<Rightarrow> nat \<Rightarrow> nat \<Rightarrow> run \<Rightarrow> (string + json list) \<times> run" where
  "extractTransactionsFromChunk P statementChunk fileName chunkNumber totalChunks st =
     attempts P (build_prompt statementChunk fileName chunkNumber totalChunks) 0 st"

section \<open>The pipeline orchestrator\<close>

definition MAX_CHUNK_SIZE :: int where
  "MAX_CHUNK_SIZE = 150000"

text \<open>
  \<^verbatim>\<open>extractTransactionsFromStatement\<close>. \<open>process_chunks\<close> is its loop over the chunks from
  index \<open>i\<close>, with the transactions gathered so far; an error of a chunk is thrown again with
  the number of the part before its message.
\<close>

fun process_chunks ::
  "platform \<Rightarrow> string \<Rightarrow> nat \<Rightarrow> nat \<Rightarrow> string list \<Rightarrow> json list \<Rightarrow> run
     \<Rightarrow> (string + json list) \<times> run" where
  "process_chunks P fileName totalChunks i [] allTransactions st = (Inr allTransactions, st)"
| "process_chunks P fileName totalChunks i (chunk # rest) allTransactions st =
     (let isMultiChunk = totalChunks > 1;
          st1 = (if isMultiChunk
                 then emit (Progress (''Processing part '' @ dec (i + 1) @ '' of '' @ dec totalChunks @ ''...'')) st
                 else st)
      in case extractTransactionsFromChunk P chunk fileName (i + 1) totalChunks st1 of
           (Inr transactions, st2) \<Rightarrow>
             process_chunks P fileName totalChunks (i + 1) rest (allTransactions @ transactions)
               (if isMultiChunk
                then emit (Wait 500)
                       (emit (Progress (''Processing part '' @ dec (i + 1) @ '' of '' @ dec totalChunks @
                          ''... done.'')) st2)
                else st2)
         | (Inl message, st2) \<Rightarrow>
             (Inl (''Failed to process part '' @ dec (i + 1) @
                   '' of the document. Original error: '' @ message), st2))"

definition extractTransactionsFromStatement ::
  "platform \<Rightarrow> string \<Rightarrow> string \<Rightarrow> run \<Rightarrow> (string + json list) \<times> run" where
  "extractTransactionsFromStatement P statementContent fileName st =
     (let st1 = emit (Progress ''Analyzing statement...'') st;
          chunks = createChunks statementContent MAX_CHUNK_SIZE;
          st2 = (if length chunks > 1
                 then emit (Wait 1500)
                        (emit (Progress (''Large file detected. Splitting into '' @
                           dec (length chunks) @ '' parts.'')) st1)
                 else st1)
      in case process_chunks P fileName (length chunks) 0 chunks [] st2 of
           (Inr allTransactions, st3) \<Rightarrow>
             (Inr allTransactions, emit (Progress ''Finalizing conversion...'') st3)
         | (Inl message, st3) \<Rightarrow> (Inl message, st3))"

section \<open>The document serializer\<close>

record Transaction =
  date :: string
  description :: string
  amount :: rat

definition generateUniqueId :: "(rat \<Rightarrow> string) \<Rightarrow> Transaction \<Rightarrow> nat \<Rightarrow> string" where
  "generateUniqueId ns transaction index =
     (let cleanDesc = slice 0 50 (filter isAlnum (description transaction))
      in slice 0 255 (date transaction @ ''-'' @ toFixed ns 2 (amount transaction) @ ''-'' @
           cleanDesc @ ''-'' @ dec index))"

text \<open>
  \<^verbatim>\<open>[...xs].sort(cmp)\<close>. The standard requires the sort to be stable and fixes its result for
  a comparator that is consistent; the model is the stable insertion sort, which places an
  element before the first later element that does not compare below it.
\<close>

fun insert_by :: "('a \<Rightarrow> 'a \<Rightarrow> int) \<Rightarrow> 'a \<Rightarrow> 'a list \<Rightarrow> 'a list" where
  "insert_by cmp x [] = [x]"
| "insert_by cmp x (y # ys) = (if cmp x y \<le> 0 then x # y # ys else y # insert_by cmp x ys)"

definition Array_sort :: "('a \<Rightarrow> 'a \<Rightarrow> int) \<Rightarrow> 'a list \<Rightarrow> 'a list" where
  "Array_sort cmp xs = foldr (insert_by cmp) xs []"

text \<open>\<^verbatim>\<open>s.replace(/c/g, r)\<close> for a single character \<open>c\<close>, and the three replacements of the
  \<^verbatim>\<open>MEMO\<close> field in their order.\<close>

definition replace_all :: "char \<Rightarrow> string \<Rightarrow> string \<Rightarrow> string" where
  "replace_all c r s = concat (map (\<lambda>x. if x = c then r else [x]) s)"

definition escape_memo :: "string \<Rightarrow> string" where
  "escape_memo s =
     replace_all CHR ''>'' ''&gt;'' (replace_all CHR ''<'' ''&lt;'' (replace_all CHR ''&'' ''&amp;'' s))"

text \<open>The current date in local time, as \<^verbatim>\<open>getFullYear\<close>, \<^verbatim>\<open>getMonth\<close> and \<^verbatim>\<open>getDate\<close> read it
  from the time value \<open>now\<close> of \<^verbatim>\<open>new Date()\<close>.\<close>

definition LocalTime :: "platform \<Rightarrow> int \<Rightarrow> int" where
  "LocalTime P t = t + LocalTZA P t"

definition dateCreated :: "platform \<Rightarrow> int \<Rightarrow> string" where
  "dateCreated P now =
     dec_int (YearFromTime (LocalTime P now)) @
     padStart 2 CHR ''0'' (dec_int (MonthFromTime (LocalTime P now) + 1)) @
     padStart 2 CHR ''0'' (dec_int (DateFromTime (LocalTime P now)))"

definition sortedTransactions :: "platform \<Rightarrow> Transaction list \<Rightarrow> Transaction list" where
  "sortedTransactions P transactions =
     Array_sort (\<lambda>a b. localeCompare P (date a) (date b)) transactions"

definition startDate :: "platform \<Rightarrow> int \<Rightarrow> Transaction list \<Rightarrow> string" where
  "startDate P now transactions =
     (if length (sortedTransactions P transactions) > 0
      then date (sortedTransactions P transactions ! 0)
      else dateCreated P now)"

definition endDate :: "platform \<Rightarrow> int \<Rightarrow> Transaction list \<Rightarrow> string" where
  "endDate P now transactions =
     (if length (sortedTransactions P transactions) > 0
      then date (sortedTransactions P transactions ! (length (sortedTransactions P transactions) - 1))
      else dateCreated P now)"

definition render_transaction :: "platform \<Rightarrow> nat \<times> Transaction \<Rightarrow> string" where
  "render_transaction P it =
     (case it of (index, t) \<Rightarrow> concat
        [[nl], ''<STMTTRN>'', [nl],
         ''<TRNTYPE>'', (if amount t > 0 then ''CREDIT'' else ''DEBIT''), ''</TRNTYPE>'', [nl],
         ''<DTPOSTED>'', date t, ''</DTPOSTED>'', [nl],
         ''<TRNAMT>'', toFixed (Number_toString P) 2 (amount t), ''</TRNAMT>'', [nl],
         ''<FITID>'', generateUniqueId (Number_toString P) t index, ''</FITID>'', [nl],
         ''<MEMO>'', escape_memo (description t), ''</MEMO>'', [nl],
         ''</STMTTRN>''])"

definition transactionListString :: "platform \<Rightarrow> Transaction list \<Rightarrow> string" where
  "transactionListString P transactions =
     concat (map (render_transaction P) (enumerate 0 (sortedTransactions P transactions)))"

definition bankId :: string where "bankId = ''001''"
definition acctId :: string where "acctId = ''999999-9''"
definition acctType :: string where "acctType = ''CHECKING''"
definition currency :: string where "currency = ''BRL''"

definition document_head :: "string \<Rightarrow> string" where
  "document_head created = concat
     [''OFXHEADER:100'', [nl], ''DATA:OFXSGML'', [nl], ''VERSION:102'', [nl],
      ''SECURITY:NONE'', [nl], ''ENCODING:USASCII'', [nl], ''CHARSET:1252'', [nl],
      ''COMPRESSION:NONE'', [nl], ''OLDFILEUID:NONE'', [nl], ''NEWFILEUID:NONE'', [nl],
      ''<OFX>'', [nl], ''<SIGNONMSGSRSV1>'', [nl], ''<SONRS>'', [nl], ''<STATUS>'', [nl],
      ''<CODE>0</CODE>'', [nl], ''<SEVERITY>INFO</SEVERITY>'', [nl], ''</STATUS>'', [nl],
      ''<DTSERVER>'', created, ''</DTSERVER>'', [nl], ''<LANGUAGE>POR</LANGUAGE>'', [nl],
      ''</SONRS>'', [nl], ''</SIGNONMSGSRSV1>'', [nl], ''<BANKMSGSRSV1>'', [nl],
      ''<STMTTRNRS>'', [nl], ''<TRNUID>1</TRNUID>'', [nl], ''<STATUS>'', [nl],
      ''<CODE>0</CODE>'', [nl], ''<SEVERITY>INFO</SEVERITY>'', [nl], ''</STATUS>'', [nl],
      ''<STMTRS>'', [nl], ''<CURDEF>'', currency, ''</CURDEF>'', [nl],
      ''<BANKACCTFROM>'', [nl], ''<BANKID>'', bankId, ''</BANKID>'', [nl],
      ''<ACCTID>'', acctId, ''</ACCTID>'', [nl], ''<ACCTTYPE>'', acctType, ''</ACCTTYPE>'', [nl],
      ''</BANKACCTFROM>'', [nl], ''<BANKTRANLIST>'', [nl]]"

definition document_tail :: "string \<Rightarrow> string" where
  "document_tail created = concat
     [[nl], ''</BANKTRANLIST>'', [nl], ''<LEDGERBAL>'', [nl], ''<BALAMT>0.00</BALAMT>'', [nl],
      ''<DTASOF>'', created, ''</DTASOF>'', [nl], ''</LEDGERBAL>'', [nl], ''</STMTRS>'', [nl],
      ''</STMTTRNRS>'', [nl], ''</BANKMSGSRSV1>'', [nl], ''</OFX>'', [nl]]"

text \<open>\<^verbatim>\<open>createOfxContent(transactions)\<close>, called when the clock reads \<open>now\<close>: the template
  literal, trimmed.\<close>

definition createOfxContent :: "platform \<Rightarrow> int \<Rightarrow> Transaction list \<Rightarrow> string" where
  "createOfxContent P now transactions =
     trim (document_head (dateCreated P now) @
           ''<DTSTART>'' @ startDate P now transactions @ ''</DTSTART>'' @ [nl] @
           ''<DTEND>'' @ endDate P now transactions @ ''</DTEND>'' @
           transactionListString P transactions @
           document_tail (dateCreated P now))"

text \<open>Vocabulary for the properties of the serializer: a date in the canonical form, eight
  digits; and the identifier of a record before its truncation.\<close>

definition ymd8 :: "string \<Rightarrow> bool" where
  "ymd8 s \<longleftrightarrow> length s = 8 \<and> list_all isDigit s"

definition untruncated_id :: "(rat \<Rightarrow> string) \<Rightarrow> Transaction \<Rightarrow> nat \<Rightarrow> string" where
  "untruncated_id ns t i =
     date t @ ''-'' @ toFixed ns 2 (amount t) @ ''-'' @ take 50 (filter isAlnum (description t)) @
     ''-'' @ dec i"

section \<open>The conversion run\<close>

datatype ConversionStatus = Idle | Processing | Success | Error

text \<open>A selected file is its name and what \<^verbatim>\<open>readFileContent\<close> makes of it: the message of
  the error it throws or the text it returns.\<close>

record selected_file =
  file_name :: string
  readFileContent :: "string + string"

record app =
  currentFile :: "selected_file option"
  status :: ConversionStatus
  statusMessage :: string
  errorMessage :: "string option"
  ofxContent :: "string option"

text \<open>\<^verbatim>\<open>onProgress\<close> is \<^verbatim>\<open>setStatusMessage\<close>: the status message after a run is the last one
  reported.\<close>

fun status_after :: "string \<Rightarrow> event list \<Rightarrow> string" where
  "status_after m [] = m"
| "status_after m (Progress p # es) = status_after p es"
| "status_after m (e # es) = status_after m es"

text \<open>
  The serializer is typed over \<^typ>\<open>Transaction\<close>, and the types are erased at run time: the
  records that reach it are the objects that the validator returned. A record is read as
  a \<^typ>\<open>Transaction\<close> when its date and description are strings and its amount is a number;
  on any other record a method call of the serializer (\<^verbatim>\<open>toFixed\<close>, \<^verbatim>\<open>replace\<close>,
  \<^verbatim>\<open>localeCompare\<close>) throws a \<^verbatim>\<open>TypeError\<close>.
\<close>

fun asTransaction :: "json \<Rightarrow> Transaction option" where
  "asTransaction (JObj tx) =
     (case (map_of tx ''date'', map_of tx ''description'', map_of tx ''amount'') of
        (Some (JStr d), Some (JStr s), Some (JNum a)) \<Rightarrow>
          Some \<lparr>date = d, description = s, amount = a\<rparr>
      | _ \<Rightarrow> None)"
| "asTransaction tx = None"

definition no_transactions_message :: string where
  "no_transactions_message =
     ''No transactions could be found in the document. Please check the file content and try again.''"

text \<open>The \<^verbatim>\<open>catch\<close> block of \<^verbatim>\<open>handleFileSelect\<close>.\<close>

definition failed :: "app \<Rightarrow> string \<Rightarrow> run \<Rightarrow> app \<times> run" where
  "failed a message st =
     (a\<lparr>status := Error,
        statusMessage := status_after (statusMessage a) (trace st),
        errorMessage := Some (if message = [] then ''An unknown error occurred.'' else message)\<rparr>,
      st)"

text \<open>\<^verbatim>\<open>handleFileSelect(selectedFile)\<close>: the state of the application after the run, and
  what the run did. \<open>now\<close> is the reading of the clock when the serializer is called.\<close>

definition handleFileSelect :: "platform \<Rightarrow> int \<Rightarrow> selected_file \<Rightarrow> app \<times> run" where
  "handleFileSelect P now selectedFile =
     (let st0 = initial_run;
          a0 = \<lparr>currentFile = Some selectedFile, status = Processing,
                statusMessage = ''Reading file...'', errorMessage = None, ofxContent = None\<rparr>
      in case readFileContent selectedFile of
           Inl message \<Rightarrow> failed a0 message st0
         | Inr fileContent \<Rightarrow>
             if prefix ''OFXHEADER:'' (trim fileContent)
             then (a0\<lparr>ofxContent := Some fileContent, status := Success,
                      statusMessage := ''Success! This file is already in OFX format.''\<rparr>, st0)
             else
               case extractTransactionsFromStatement P fileContent (file_name selectedFile) st0 of
                 (Inl message, st) \<Rightarrow> failed a0 message st
               | (Inr transactions, st) \<Rightarrow>
                   if length transactions = 0 then failed a0 no_transactions_message st
                   else if list_all (\<lambda>tx. asTransaction tx \<noteq> None) transactions
                   then (a0\<lparr>ofxContent :=
                               Some (createOfxContent P now (map (the \<circ> asTransaction) transactions)),
                            status := Success,
                            statusMessage := ''Success! '' @ dec (length transactions) @
                              '' transactions converted.''\<rparr>, st)
                   else failed a0 (TypeError_message P ''createOfxContent'') st)"

section \<open>A platform for the examples\<close>

text \<open>
  A platform on which the definitions can be run: the capability answers every call with
  the text \<open>reply\<close>, the parser knows the few texts of the examples, every draw of
  \<^verbatim>\<open>Math.random()\<close> is \<open>1/4\<close>, strings are collated by their code units, and local time is
  UTC.
\<close>

definition dq :: string where
  "dq = [CHR 0x22]"

definition json_no_array :: string where
  "json_no_array = ''{}''"

definition json_empty_array :: string where
  "json_empty_array = ''{'' @ dq @ ''transactions'' @ dq @ '':[]}''"

definition json_coffee :: string where
  "json_coffee =
     ''{'' @ dq @ ''transactions'' @ dq @ '':[{'' @ dq @ ''date'' @ dq @ '':'' @ dq @
     ''2024-03-05'' @ dq @ '','' @ dq @ ''description'' @ dq @ '':'' @ dq @ ''Coffee'' @ dq @
     '','' @ dq @ ''amount'' @ dq @ '':-4.5}]}''"

definition example_parse :: "string \<Rightarrow> string + json" where
  "example_parse s =
     (if s = json_no_array then Inr (JObj [])
      else if s = json_empty_array then Inr (JObj [(''transactions'', JArr [])])
      else if s = json_coffee then Inr (JObj [(''transactions'', JArr
        [JObj [(''date'', JStr ''2024-03-05''), (''description'', JStr ''Coffee''),
               (''amount'', JNum (- 4.5))]])])
      else Inl ''Unexpected token'')"

definition example_platform :: "(nat \<Rightarrow> string + string option) \<Rightarrow> platform" where
  "example_platform reply =
     \<lparr>generateContent = (\<lambda>k prompt. reply k),
      Math_random = (\<lambda>k. 1 / 4),
      JSON_parse = example_parse,
      Date_parse_impl = (\<lambda>s. None),
      Number_toString = (\<lambda>x. ''1e+21''),
      TypeError_message = (\<lambda>e. ''TypeError: '' @ e),
      localeCompare = (\<lambda>a b. if a < b then - 1 else if a = b then 0 else 1),
      LocalTZA = (\<lambda>t. 0)\<rparr>"

text \<open>Replies of the capability: busy twice and then an answer; and the same answer to every
  call.\<close>

definition busy_twice :: "nat \<Rightarrow> string + string option" where
  "busy_twice k = (if k < 2 then Inl ''429 Too Many Requests'' else Inr (Some json_coffee))"

definition always :: "string \<Rightarrow> nat \<Rightarrow> string + string option" where
  "always reply k = Inr (Some reply)"

text \<open>Transactions for the examples of the serializer.\<close>

definition march_and_january :: "Transaction list" where
  "march_and_january =
     [\<lparr>date = ''20240310'', description = ''Rent'', amount = - 1200\<rparr>,
      \<lparr>date = ''20240105'', description = ''Salary'', amount = 3000\<rparr>]"

text \<open>A transaction of \<open>10\<^sup>2\<^sup>1\<close>, the least amount that \<^verbatim>\<open>toFixed\<close> prints as
  \<^verbatim>\<open>Number.prototype.toString\<close> does; the platform of the examples prints it as the engines
  do, \<^verbatim>\<open>1e+21\<close>.\<close>

definition sextillion :: "Transaction list" where
  "sextillion = [\<lparr>date = ''20240305'', description = ''Rent'', amount = 10 ^ 21\<rparr>]"

section \<open>Properties of the chunker\<close>

lemma terminated_simps:
  "terminated [] = []"
  "terminated (l # ls) = l @ nl # terminated ls"
  "terminated (ks @ ls) = terminated ks @ terminated ls"
  by (simp_all add: terminated_def)

lemma dropWhile_all_iff: "(\<forall>x \<in> set (dropWhile P s). P x) \<longleftrightarrow> (\<forall>x \<in> set s. P x)"
proof
  assume a: "\<forall>x \<in> set (dropWhile P s). P x"
  have "dropWhile P s = []"
  proof (rule ccontr)
    assume n: "dropWhile P s \<noteq> []"
    then have "\<not> P (hd (dropWhile P s))" by (rule hd_dropWhile)
    moreover have "hd (dropWhile P s) \<in> set (dropWhile P s)" using n by simp
    ultimately show False using a by blast
  qed
  then show "\<forall>x \<in> set s. P x" by simp
next
  assume "\<forall>x \<in> set s. P x"
  then show "\<forall>x \<in> set (dropWhile P s). P x" by (meson set_dropWhileD)
qed

lemma trim_empty_iff: "trim s = [] \<longleftrightarrow> list_all isWhiteSpace s"
  by (simp add: trim_def dropWhile_all_iff list_all_iff)

lemma blank_append: "blank (a @ b) \<longleftrightarrow> blank a \<and> blank b"
  by (simp add: blank_def trim_empty_iff)

lemma blank_nl: "blank [nl]"
  by (simp add: blank_def trim_empty_iff isWhiteSpace_def nl_def)

lemma blank_terminated: "blank (terminated ls) \<longleftrightarrow> list_all blank ls"
  by (induction ls) (simp_all add: terminated_simps blank_append blank_nl [simplified] blank_def
      trim_empty_iff isWhiteSpace_def nl_def)

lemma split_newline_nonempty: "split_newline s \<noteq> []"
  by (induction s) auto

lemma split_newline_no_nl: "l \<in> set (split_newline s) \<Longrightarrow> nl \<notin> set l"
proof (induction s arbitrary: l)
  case Nil
  then show ?case by simp
next
  case (Cons c cs)
  show ?case
  proof (cases "c = nl")
    case True
    with Cons show ?thesis by auto
  next
    case False
    obtain h t where ht: "split_newline cs = h # t"
      using split_newline_nonempty [of cs] by (cases "split_newline cs") auto
    with Cons False show ?thesis by auto
  qed
qed

lemma split_newline_line: "nl \<notin> set l \<Longrightarrow> split_newline (l @ nl # s) = l # split_newline s"
  by (induction l) auto

lemma split_newline_terminated:
  "\<forall>l \<in> set ls. nl \<notin> set l \<Longrightarrow> split_newline (terminated ls) = ls @ [[]]"
  by (induction ls) (simp_all add: terminated_simps split_newline_line)

lemma push_nonblank_lines:
  assumes "concat chunks = terminated K0"
  shows "\<exists>K. concat (push_nonblank chunks (terminated c0)) = terminated K \<and>
             subseq K (K0 @ c0) \<and> filter (\<lambda>l. \<not> blank l) K = filter (\<lambda>l. \<not> blank l) (K0 @ c0)"
proof (cases "blank (terminated c0)")
  case True
  then have "filter (\<lambda>l. \<not> blank l) c0 = []"
    by (simp add: blank_terminated list_all_iff)
  moreover have "push_nonblank chunks (terminated c0) = chunks"
    using True by (simp add: push_nonblank_def blank_def)
  ultimately show ?thesis
    using assms by (intro exI [of _ K0]) (simp add: subseq_rev_drop_many)
next
  case False
  then have "push_nonblank chunks (terminated c0) = chunks @ [terminated c0]"
    by (simp add: push_nonblank_def blank_def)
  then show ?thesis
    using assms by (intro exI [of _ "K0 @ c0"]) (simp add: terminated_simps)
qed

lemma chunk_loop_lines:
  assumes "concat chunks = terminated K0"
  shows "\<exists>K. concat (case chunk_loop n ls chunks (terminated c0) of (cs, cur) \<Rightarrow> push_nonblank cs cur)
               = terminated K \<and>
             subseq K (K0 @ c0 @ ls) \<and>
             filter (\<lambda>l. \<not> blank l) K = filter (\<lambda>l. \<not> blank l) (K0 @ c0 @ ls)"
  using assms
proof (induction ls arbitrary: chunks K0 c0)
  case Nil
  then show ?case
    using push_nonblank_lines [of chunks K0 c0] by simp
next
  case (Cons line rest)
  show ?case
  proof (cases "int (length (terminated c0)) + int (length line) + 1 > n")
    case True
    obtain K1 where K1: "concat (push_nonblank chunks (terminated c0)) = terminated K1"
      "subseq K1 (K0 @ c0)"
      "filter (\<lambda>l. \<not> blank l) K1 = filter (\<lambda>l. \<not> blank l) (K0 @ c0)"
      using push_nonblank_lines [OF Cons.prems, of c0] by blast
    have cur: "line @ [nl] = terminated [line]"
      by (simp add: terminated_simps)
    obtain K where K:
      "concat (case chunk_loop n rest (push_nonblank chunks (terminated c0)) (terminated [line]) of
                 (cs, cur) \<Rightarrow> push_nonblank cs cur) = terminated K"
      "subseq K (K1 @ [line] @ rest)"
      "filter (\<lambda>l. \<not> blank l) K = filter (\<lambda>l. \<not> blank l) (K1 @ [line] @ rest)"
      using Cons.IH [OF K1(1), of "[line]"] by blast
    have "subseq (K1 @ [line] @ rest) ((K0 @ c0) @ [line] @ rest)"
      using K1(2) by (rule list_emb_append_mono) simp
    with K(2) have "subseq K (K0 @ c0 @ line # rest)"
      using subseq_order.order_trans by fastforce
    moreover have "filter (\<lambda>l. \<not> blank l) K = filter (\<lambda>l. \<not> blank l) (K0 @ c0 @ line # rest)"
      using K(3) K1(3) by simp
    ultimately show ?thesis
      using True K(1) cur by (intro exI [of _ K]) simp
  next
    case False
    have cur: "terminated c0 @ line @ [nl] = terminated (c0 @ [line])"
      by (simp add: terminated_simps)
    obtain K where K:
      "concat (case chunk_loop n rest chunks (terminated (c0 @ [line])) of
                 (cs, cur) \<Rightarrow> push_nonblank cs cur) = terminated K"
      "subseq K (K0 @ (c0 @ [line]) @ rest)"
      "filter (\<lambda>l. \<not> blank l) K = filter (\<lambda>l. \<not> blank l) (K0 @ (c0 @ [line]) @ rest)"
      using Cons.IH [OF Cons.prems, of "c0 @ [line]"] by blast
    show ?thesis
      using False K cur by (intro exI [of _ K]) simp
  qed
qed

lemma createChunks_lines:
  "\<exists>K. subseq K (split_newline text) \<and>
        filter (\<lambda>l. \<not> blank l) K = filter (\<lambda>l. \<not> blank l) (split_newline text) \<and>
        (concat (createChunks text n) = text \<or> concat (createChunks text n) = terminated K)"
proof (cases "int (length text) \<le> n")
  case True
  then show ?thesis
    by (intro exI [of _ "split_newline text"]) (simp add: createChunks_def)
next
  case False
  have "concat ([] :: string list) = terminated []"
    by (simp add: terminated_simps)
  from chunk_loop_lines [OF this, of n "split_newline text" "[]"]
  obtain K where
    "concat (case chunk_loop n (split_newline text) [] [] of (cs, cur) \<Rightarrow> push_nonblank cs cur)
       = terminated K"
    "subseq K (split_newline text)"
    "filter (\<lambda>l. \<not> blank l) K = filter (\<lambda>l. \<not> blank l) (split_newline text)"
    by (auto simp: terminated_simps)
  then show ?thesis
    using False by (intro exI [of _ K]) (simp add: createChunks_def)
qed

text \<open>
  Claim C2, as amended. Re-joining the chunks of \<^const>\<open>createChunks\<close> recovers the lines of the
  text that hold more than white space: the lines of the concatenated chunks that are not
  white space only are exactly the lines of the text that are not white space only, each
  once and in the original order. Every line of the concatenated chunks is a line of the
  text, in the original order, but for one empty line at the end: the chunker puts a line
  feed after every line, the last one too. For every text and every size.
\<close>

theorem createChunks_recovers_lines:
  "filter (\<lambda>l. \<not> blank l) (split_newline (concat (createChunks text chunkSize)))
     = filter (\<lambda>l. \<not> blank l) (split_newline text) \<and>
   subseq (split_newline (concat (createChunks text chunkSize))) (split_newline text @ [[]])"
proof -
  obtain K where K: "subseq K (split_newline text)"
    "filter (\<lambda>l. \<not> blank l) K = filter (\<lambda>l. \<not> blank l) (split_newline text)"
    "concat (createChunks text chunkSize) = text \<or>
     concat (createChunks text chunkSize) = terminated K"
    using createChunks_lines [of "text" chunkSize] by blast
  from K(3) show ?thesis
  proof
    assume "concat (createChunks text chunkSize) = text"
    then show ?thesis by (simp add: subseq_rev_drop_many)
  next
    assume t: "concat (createChunks text chunkSize) = terminated K"
    have "set K \<subseteq> set (split_newline text)"
      using K(1) by (auto dest: list_emb_set)
    then have "\<forall>l \<in> set K. nl \<notin> set l"
      using split_newline_no_nl by blast
    then have s: "split_newline (terminated K) = K @ [[]]"
      by (rule split_newline_terminated)
    have "blank []" by (simp add: blank_def trim_def)
    then have "filter (\<lambda>l. \<not> blank l) (K @ [[]]) = filter (\<lambda>l. \<not> blank l) K" by simp
    moreover have "subseq (K @ [[]]) (split_newline text @ [[]])"
      using K(1) by (rule list_emb_append_mono) simp
    ultimately show ?thesis using t s K(2) by simp
  qed
qed

text \<open>
  The claim as the specification has it, every line once and none made up, fails when the
  text is longer than the size: a text of one line comes back with an empty line after it,
  and a text that ends with a line feed comes back with its last, empty line twice.
\<close>

theorem createChunks_counterexample:
  "createChunks ''abcd'' 3 = [''abcd'' @ [nl]] \<and>
   split_newline ''abcd'' = [''abcd''] \<and>
   split_newline (concat (createChunks ''abcd'' 3)) = [''abcd'', []] \<and>
   createChunks (''a'' @ [nl] @ ''b'' @ [nl]) 3 = [''a'' @ [nl], ''b'' @ [nl] @ [nl]] \<and>
   split_newline (''a'' @ [nl] @ ''b'' @ [nl]) = [''a'', ''b'', []] \<and>
   split_newline (concat (createChunks (''a'' @ [nl] @ ''b'' @ [nl]) 3)) = [''a'', ''b'', [], []]"
  by (simp add: createChunks_def push_nonblank_def trim_def isWhiteSpace_def nl_def)

section \<open>Properties of the arithmetic of numbers\<close>

lemma round_half_even_bounds: "\<lfloor>q\<rfloor> \<le> round_half_even q" "round_half_even q \<le> \<lfloor>q\<rfloor> + 1"
  by (simp_all add: round_half_even_def Let_def)

lemma round_half_even_of_int [simp]: "round_half_even (of_int n) = n"
  by (simp add: round_half_even_def)

lemma round_half_even_mono:
  assumes "p \<le> q"
  shows "round_half_even p \<le> round_half_even q"
proof (cases "\<lfloor>p\<rfloor> = \<lfloor>q\<rfloor>")
  case True
  then show ?thesis
    using assms by (auto simp add: round_half_even_def Let_def)
next
  case False
  then have "\<lfloor>p\<rfloor> + 1 \<le> \<lfloor>q\<rfloor>"
    using floor_mono [OF assms] by linarith
  then show ?thesis
    using round_half_even_bounds(2) [of p] round_half_even_bounds(1) [of q] by linarith
qed

lemma round_half_even_ge: "of_int n \<le> q \<Longrightarrow> n \<le> round_half_even q"
  using round_half_even_mono [of "of_int n" q] by simp

lemma round_half_even_le: "q \<le> of_int n \<Longrightarrow> round_half_even q \<le> n"
  using round_half_even_mono [of q "of_int n"] by simp

lemma powi_Suc: "(2 :: rat) powi (e + 1) = 2 * 2 powi e"
  by (simp add: power_int_add)

lemma exponent_hi_spec:
  "1 \<le> x \<Longrightarrow> e \<le> exponent_hi e x \<and> 2 powi (exponent_hi e x - e) \<le> x \<and>
     x < 2 powi (exponent_hi e x - e + 1)"
proof (induction e x rule: exponent_hi.induct)
  case (1 e x)
  show ?case
  proof (cases "x < 2")
    case True
    then show ?thesis
      using "1.prems" by (subst (1 2 3) exponent_hi.simps) simp
  next
    case False
    let ?r = "exponent_hi (e + 1) (x / 2)"
    have r: "exponent_hi e x = ?r"
      using False by (subst exponent_hi.simps) simp
    have ih: "e + 1 \<le> ?r" "2 powi (?r - (e + 1)) \<le> x / 2" "x / 2 < 2 powi (?r - (e + 1) + 1)"
      using "1.IH" [OF False] False by simp_all
    have "2 powi (?r - e) = 2 * (2 :: rat) powi (?r - (e + 1))"
      using powi_Suc [of "?r - (e + 1)"] by (simp add: algebra_simps)
    moreover have "2 powi (?r - e + 1) = 2 * (2 :: rat) powi (?r - (e + 1) + 1)"
      using powi_Suc [of "?r - (e + 1) + 1"] by (simp add: algebra_simps)
    ultimately show ?thesis
      unfolding r using ih by simp
  qed
qed

lemma exponent_lo_spec:
  "x < 2 \<Longrightarrow> - 1022 \<le> e \<Longrightarrow>
   - 1022 \<le> exponent_lo e x \<and> exponent_lo e x \<le> e \<and>
   x * 2 powi (e - exponent_lo e x) < 2 \<and>
   (- 1022 < exponent_lo e x \<longrightarrow> 1 \<le> x * 2 powi (e - exponent_lo e x))"
proof (induction e x rule: exponent_lo.induct)
  case (1 e x)
  show ?case
  proof (cases "e \<le> - 1022 \<or> 1 \<le> x")
    case True
    then have "exponent_lo e x = e"
      by (subst exponent_lo.simps) simp
    then show ?thesis
      using True "1.prems" by auto
  next
    case False
    let ?r = "exponent_lo (e - 1) (2 * x)"
    have r: "exponent_lo e x = ?r"
      using False by (subst exponent_lo.simps) simp
    have ih: "- 1022 \<le> ?r" "?r \<le> e - 1" "2 * x * 2 powi (e - 1 - ?r) < 2"
        "- 1022 < ?r \<longrightarrow> 1 \<le> 2 * x * 2 powi (e - 1 - ?r)"
      using "1.IH" [OF False] False by simp_all
    have "2 powi (e - ?r) = 2 * (2 :: rat) powi (e - 1 - ?r)"
      using powi_Suc [of "e - 1 - ?r"] by (simp add: algebra_simps)
    then show ?thesis
      unfolding r using ih by (simp add: algebra_simps)
  qed
qed

lemma exponent_spec:
  assumes "0 \<le> x"
  shows "- 1022 \<le> exponent x" "x < 2 powi (exponent x + 1)"
    "- 1022 < exponent x \<Longrightarrow> 2 powi (exponent x) \<le> x"
proof -
  have *: "- 1022 \<le> exponent x \<and> x < 2 powi (exponent x + 1) \<and>
      (- 1022 < exponent x \<longrightarrow> 2 powi (exponent x) \<le> x)"
  proof (cases "x < 1")
    case True
    let ?r = "exponent_lo 0 x"
    have s: "- 1022 \<le> ?r" "?r \<le> 0" "x * 2 powi (0 - ?r) < 2"
        "- 1022 < ?r \<longrightarrow> 1 \<le> x * 2 powi (0 - ?r)"
      using exponent_lo_spec [of x 0] True by simp_all
    have p: "(2 :: rat) powi (0 - ?r) * 2 powi ?r = 1"
      by (simp add: power_int_add [symmetric])
    have pos: "0 < (2 :: rat) powi ?r"
      by simp
    have q: "x * 2 powi (0 - ?r) * 2 powi ?r = x"
      unfolding mult.assoc p by simp
    have "x * 2 powi (0 - ?r) * 2 powi ?r < 2 * 2 powi ?r"
      using s(3) pos by (rule mult_strict_right_mono)
    then have a: "x < 2 powi (?r + 1)"
      unfolding q powi_Suc .
    have b: "2 powi ?r \<le> x" if "- 1022 < ?r"
    proof -
      have "1 \<le> x * 2 powi (0 - ?r)"
        using s(4) that by simp
      then have "1 * 2 powi ?r \<le> x * 2 powi (0 - ?r) * 2 powi ?r"
        using pos by (intro mult_right_mono) simp_all
      then show ?thesis unfolding q by simp
    qed
    show ?thesis
      using True s(1) a b by (simp add: exponent_def)
  next
    case False
    then have "1 \<le> x" by simp
    from exponent_hi_spec [OF this, of 0] show ?thesis
      using False by (simp add: exponent_def)
  qed
  show "- 1022 \<le> exponent x" "x < 2 powi (exponent x + 1)"
    "- 1022 < exponent x \<Longrightarrow> 2 powi (exponent x) \<le> x"
    using * by simp_all
qed

lemma powi_mono: "a \<le> b \<Longrightarrow> (2 :: rat) powi a \<le> 2 powi b"
  by (rule power_int_increasing) simp_all

lemma powi_less_cancel: "(2 :: rat) powi a < 2 powi b \<Longrightarrow> a < b"
  using powi_mono [of b a] by linarith

lemma exponent_eqI:
  assumes "2 powi e \<le> x" "x < 2 powi (e + 1)" "- 1022 \<le> e"
  shows "exponent x = e"
proof -
  have x: "0 \<le> x"
    using assms(1) zero_less_power_int [of "2 :: rat" e] by linarith
  note s = exponent_spec [OF x]
  have "2 powi e < (2 :: rat) powi (exponent x + 1)"
    using assms(1) s(2) by linarith
  then have 1: "e \<le> exponent x" using powi_less_cancel by fastforce
  have "exponent x \<le> e"
  proof (rule ccontr)
    assume "\<not> exponent x \<le> e"
    then have "- 1022 < exponent x" "e + 1 \<le> exponent x" using assms(3) by linarith+
    then have "2 powi (exponent x) \<le> x" "(2 :: rat) powi (e + 1) \<le> 2 powi (exponent x)"
      using s(3) powi_mono by simp_all
    then show False using assms(2) by linarith
  qed
  with 1 show ?thesis by simp
qed

lemma exponent_subnormal:
  assumes "0 \<le> x" "x < 2 powi (- 1022)"
  shows "exponent x = - 1022"
proof (rule ccontr)
  assume "exponent x \<noteq> - 1022"
  then have "- 1022 < exponent x" using exponent_spec(1) [OF assms(1)] by linarith
  then have "2 powi (exponent x) \<le> x" "(2 :: rat) powi (- 1022) \<le> 2 powi (exponent x)"
    using exponent_spec(3) [OF assms(1)] powi_mono [of "- 1022" "exponent x"] by simp_all
  then show False using assms(2) by linarith
qed

lemma exponent_mono:
  assumes "0 \<le> x" "x \<le> y"
  shows "exponent x \<le> exponent y"
proof (rule ccontr)
  assume a: "\<not> exponent x \<le> exponent y"
  have y: "0 \<le> y" using assms by simp
  have "- 1022 < exponent x" using a exponent_spec(1) [OF y] by linarith
  then have "2 powi (exponent x) \<le> x" using exponent_spec(3) [OF assms(1)] by simp
  moreover have "(2 :: rat) powi (exponent y + 1) \<le> 2 powi (exponent x)"
    using a by (intro powi_mono) simp
  ultimately show False using exponent_spec(2) [OF y] assms(2) by linarith
qed

lemma to_double_nonneg:
  "0 \<le> x \<Longrightarrow> to_double x =
     of_int (round_half_even (x / 2 powi (exponent x - 52))) * 2 powi (exponent x - 52)"
  by (simp add: to_double_def Let_def)

lemma to_double_upper:
  assumes "0 \<le> x"
  shows "to_double x \<le> 2 powi (exponent x + 1)"
proof -
  let ?u = "(2 :: rat) powi (exponent x - 52)"
  have u: "0 < ?u" by simp
  have e: "(2 :: rat) powi (exponent x + 1) = 2 ^ 53 * ?u"
    using power_int_add [of "2 :: rat" 53 "exponent x - 52"] by (simp add: algebra_simps)
  have "x / ?u \<le> 2 ^ 53"
    using exponent_spec(2) [OF assms] u unfolding e by (simp add: field_simps)
  then have "x / ?u \<le> of_int (2 ^ 53)" by simp
  then have "round_half_even (x / ?u) \<le> 2 ^ 53" by (rule round_half_even_le)
  then have "(of_int (round_half_even (x / ?u)) :: rat) \<le> of_int (2 ^ 53)"
    by (simp only: of_int_le_iff)
  then have "of_int (round_half_even (x / ?u)) * ?u \<le> 2 ^ 53 * ?u"
    using u by (intro mult_right_mono) simp_all
  then show ?thesis
    unfolding e to_double_nonneg [OF assms] .
qed

lemma to_double_lower:
  assumes "0 \<le> x" "- 1022 < exponent x"
  shows "2 powi (exponent x) \<le> to_double x"
proof -
  let ?u = "(2 :: rat) powi (exponent x - 52)"
  have u: "0 < ?u" by simp
  have e: "(2 :: rat) powi (exponent x) = 2 ^ 52 * ?u"
    using power_int_add [of "2 :: rat" 52 "exponent x - 52"] by (simp add: algebra_simps)
  have "2 ^ 52 \<le> x / ?u"
    using exponent_spec(3) [OF assms] u unfolding e by (simp add: field_simps)
  then have "of_int (2 ^ 52) \<le> x / ?u" by simp
  then have "2 ^ 52 \<le> round_half_even (x / ?u)" by (rule round_half_even_ge)
  then have "(of_int (2 ^ 52) :: rat) \<le> of_int (round_half_even (x / ?u))"
    by (simp only: of_int_le_iff)
  then have "2 ^ 52 * ?u \<le> of_int (round_half_even (x / ?u)) * ?u"
    using u by (intro mult_right_mono) simp_all
  then show ?thesis
    unfolding e to_double_nonneg [OF assms(1)] .
qed

lemma to_double_mono:
  assumes "0 \<le> x" "x \<le> y"
  shows "to_double x \<le> to_double y"
proof -
  have y: "0 \<le> y" using assms by simp
  consider "exponent x = exponent y" | "exponent x < exponent y"
    using exponent_mono [OF assms] by linarith
  then show ?thesis
  proof cases
    case 1
    let ?u = "(2 :: rat) powi (exponent y - 52)"
    have u: "0 < ?u" by simp
    have "x / ?u \<le> y / ?u" using assms(2) u by (simp add: divide_right_mono)
    then have "round_half_even (x / ?u) \<le> round_half_even (y / ?u)"
      by (rule round_half_even_mono)
    then have "(of_int (round_half_even (x / ?u)) :: rat) \<le> of_int (round_half_even (y / ?u))"
      by (simp only: of_int_le_iff)
    then have "of_int (round_half_even (x / ?u)) * ?u \<le> of_int (round_half_even (y / ?u)) * ?u"
      using u by (intro mult_right_mono) simp_all
    then show ?thesis
      unfolding to_double_nonneg [OF assms(1)] to_double_nonneg [OF y] 1 .
  next
    case 2
    then have "- 1022 < exponent y" using exponent_spec(1) [OF assms(1)] by linarith
    then have "2 powi (exponent y) \<le> to_double y" by (rule to_double_lower [OF y])
    moreover have "to_double x \<le> 2 powi (exponent x + 1)" by (rule to_double_upper [OF assms(1)])
    moreover have "(2 :: rat) powi (exponent x + 1) \<le> 2 powi (exponent y)"
      using 2 by (intro powi_mono) simp
    ultimately show ?thesis by linarith
  qed
qed

lemma to_double_eval:
  assumes "2 powi e \<le> x" "x < 2 powi (e + 1)" "- 1022 \<le> e"
  shows "to_double x = of_int (round_half_even (x / 2 powi (e - 52))) * 2 powi (e - 52)"
proof -
  have x: "0 \<le> x"
    using assms(1) zero_less_power_int [of "2 :: rat" e] by linarith
  show ?thesis
    unfolding to_double_nonneg [OF x] exponent_eqI [OF assms] ..
qed

lemma round_half_even_numeral [simp]: "round_half_even (numeral n) = numeral n"
  using round_half_even_of_int [of "numeral n"] by simp

lemma round_half_even_fraction:
  assumes "0 < b"
  shows "round_half_even (of_int a / of_int b) =
    (if 2 * (a mod b) < b then a div b
     else if b < 2 * (a mod b) then a div b + 1
     else if even (a div b) then a div b else a div b + 1)"
proof -
  have f: "\<lfloor>(of_int a :: rat) / of_int b\<rfloor> = a div b"
    by (simp add: floor_divide_of_int_eq)
  have "(of_int a :: rat) = of_int (a div b) * of_int b + of_int (a mod b)"
    by (simp flip: of_int_mult of_int_add)
  then have d: "(of_int a :: rat) / of_int b - of_int (a div b) = of_int (a mod b) / of_int b"
    using assms by (simp add: field_simps)
  have 1: "(of_int (a mod b) :: rat) / of_int b < 1 / 2 \<longleftrightarrow> 2 * (a mod b) < b"
  proof -
    have "(of_int (a mod b) :: rat) / of_int b < 1 / 2 \<longleftrightarrow>
        (of_int (2 * (a mod b)) :: rat) < of_int b"
      using assms by (simp add: field_simps)
    then show ?thesis by (simp only: of_int_less_iff)
  qed
  have 2: "1 / 2 < (of_int (a mod b) :: rat) / of_int b \<longleftrightarrow> b < 2 * (a mod b)"
  proof -
    have "1 / 2 < (of_int (a mod b) :: rat) / of_int b \<longleftrightarrow>
        (of_int b :: rat) < of_int (2 * (a mod b))"
      using assms by (simp add: field_simps)
    then show ?thesis by (simp only: of_int_less_iff)
  qed
  show ?thesis
    unfolding round_half_even_def Let_def f d 1 2 ..
qed

lemma round_half_even_quotient:
  "round_half_even (numeral a / numeral b) =
    (if 2 * (numeral a mod numeral b) < (numeral b :: int) then numeral a div numeral b
     else if (numeral b :: int) < 2 * (numeral a mod numeral b) then numeral a div numeral b + 1
     else if even (numeral a div numeral b :: int) then numeral a div numeral b
     else numeral a div numeral b + 1)"
  using round_half_even_fraction [of "numeral b" "numeral a"] by simp

lemma to_double_0 [simp]: "to_double 0 = 0"
  using round_half_even_of_int [of 0] by (simp add: to_double_def)

lemma to_double_numeral:
  assumes "2 powi e \<le> (numeral n :: rat)" "(numeral n :: rat) < 2 powi (e + 1)" "0 \<le> e" "e \<le> 52"
  shows "to_double (numeral n) = numeral n"
proof -
  have "(numeral n :: rat) / 2 powi (e - 52) = numeral n * 2 powi (52 - e)"
    by (simp add: power_int_diff)
  also have "\<dots> = of_int (numeral n * 2 ^ nat (52 - e))"
    using assms(4) by (simp add: power_int_def)
  finally have q: "(numeral n :: rat) / 2 powi (e - 52) = of_int (numeral n * 2 ^ nat (52 - e))" .
  have "to_double (numeral n) = of_int (numeral n * 2 ^ nat (52 - e)) * 2 powi (e - 52)"
    using assms(3) by (subst to_double_eval [OF assms(1,2)]) (simp_all only: q round_half_even_of_int)
  also have "\<dots> = numeral n"
    using q by (simp add: field_simps)
  finally show ?thesis .
qed

lemma largest_below_one:
  assumes "is_double r" "0 \<le> r" "r < 1"
  shows "r \<le> 1 - 1 / 2 ^ 53"
proof (rule ccontr)
  assume "\<not> r \<le> 1 - 1 / 2 ^ 53"
  then have lo: "1 - 1 / 2 ^ 53 < r" by simp
  have "2 powi (- 1) \<le> r" "r < 2 powi (- 1 + 1)"
    using lo assms(3) by simp_all
  from to_double_eval [OF this]
  have "to_double r = of_int (round_half_even (r / 2 powi (- 53))) * 2 powi (- 53)"
    by simp
  then have "r = of_int (round_half_even (r / 2 powi (- 53))) / 2 ^ 53"
    using assms(1) by (simp add: is_double_def power_int_minus field_simps)
  then obtain n :: int where n: "r = of_int n / 2 ^ 53" by blast
  have "of_int (2 ^ 53 - 1) < (of_int n :: rat)" "(of_int n :: rat) < of_int (2 ^ 53)"
    using lo assms(3) unfolding n by (simp_all add: field_simps)
  then have "2 ^ 53 - 1 < n" "n < 2 ^ 53"
    by (simp_all only: of_int_less_iff)
  then show False by linarith
qed

lemma to_double_largest_jitter: "to_double (1000 * (1 - 1 / 2 ^ 53)) = 1000 - 1 / 2 ^ 43"
  by (subst to_double_eval [of 9]) (simp_all add: round_half_even_quotient)

lemma jitter_bounds:
  assumes "is_double r" "0 \<le> r" "r < 1"
  shows "0 \<le> Number_multiply r 1000" "Number_multiply r 1000 < 1000"
proof -
  have "to_double 0 \<le> to_double (r * 1000)"
    using assms(2) by (intro to_double_mono) simp_all
  then show "0 \<le> Number_multiply r 1000"
    by (simp add: Number_multiply_def)
  have "r * 1000 \<le> 1000 * (1 - 1 / 2 ^ 53)"
    using largest_below_one [OF assms] by simp
  then have "to_double (r * 1000) \<le> to_double (1000 * (1 - 1 / 2 ^ 53))"
    using assms(2) by (intro to_double_mono) simp_all
  then show "Number_multiply r 1000 < 1000"
    unfolding to_double_largest_jitter Number_multiply_def by simp
qed

lemma to_double_thousands:
  "to_double 2000 = 2000" "to_double 3000 = 3000" "to_double 4000 = 4000"
  "to_double 5000 = 5000"
proof -
  show "to_double 2000 = 2000" by (rule to_double_numeral [of 10]) simp_all
  show "to_double 3000 = 3000" by (rule to_double_numeral [of 11]) simp_all
  show "to_double 4000 = 4000" by (rule to_double_numeral [of 11]) simp_all
  show "to_double 5000 = 5000" by (rule to_double_numeral [of 12]) simp_all
qed

lemma backoff_bounds:
  assumes "0 \<le> j" "j \<le> 1000"
  shows "2000 \<le> Number_add 2000 j" "Number_add 2000 j \<le> 3000"
    "4000 \<le> Number_add 4000 j" "Number_add 4000 j \<le> 5000"
proof -
  have "to_double 2000 \<le> to_double (2000 + j)" "to_double (2000 + j) \<le> to_double 3000"
    "to_double 4000 \<le> to_double (4000 + j)" "to_double (4000 + j) \<le> to_double 5000"
    using assms by (intro to_double_mono; simp)+
  then show "2000 \<le> Number_add 2000 j" "Number_add 2000 j \<le> 3000"
    "4000 \<le> Number_add 4000 j" "Number_add 4000 j \<le> 5000"
    unfolding to_double_thousands Number_add_def .
qed

lemma backoff_base: "k < 2 \<Longrightarrow> Number_multiply 2000 (2 ^ k) = 2000 * 2 ^ k"
proof -
  assume "k < 2"
  then consider "k = 0" | "k = 1" by linarith
  then show ?thesis
    by cases (simp_all add: Number_multiply_def to_double_thousands)
qed

lemma Number_add_quarter:
  "Number_multiply (1 / 4) 1000 = 250" "Number_add 2000 250 = 2250" "Number_add 4000 250 = 4250"
  "Number_divide 2250 1000 = 9 / 4" "Number_divide 4250 1000 = 17 / 4"
proof -
  show "Number_multiply (1 / 4) 1000 = 250"
    unfolding Number_multiply_def by (simp add: to_double_numeral [of 7])
  show "Number_add 2000 250 = 2250"
    unfolding Number_add_def by (simp add: to_double_numeral [of 11])
  show "Number_add 4000 250 = 4250"
    unfolding Number_add_def by (simp add: to_double_numeral [of 12])
  show "Number_divide 2250 1000 = 9 / 4"
    unfolding Number_divide_def
    by (subst to_double_eval [of 1]) (simp_all add: round_half_even_quotient)
  show "Number_divide 4250 1000 = 17 / 4"
    unfolding Number_divide_def
    by (subst to_double_eval [of 2]) (simp_all add: round_half_even_quotient)
qed

lemma Number_add_largest:
  "Number_multiply (1 - 1 / 2 ^ 53) 1000 = 1000 - 1 / 2 ^ 43"
  "Number_add 2000 (1000 - 1 / 2 ^ 43) = 3000"
  "Number_add 4000 (1000 - 1 / 2 ^ 43) = 5000"
  "Number_divide 3000 1000 = 3" "Number_divide 5000 1000 = 5"
  "is_double (1 - 1 / 2 ^ 53)"
proof -
  show "Number_multiply (1 - 1 / 2 ^ 53) 1000 = 1000 - 1 / 2 ^ 43"
    unfolding Number_multiply_def
    by (subst to_double_eval [of 9]) (simp_all add: round_half_even_quotient)
  show "Number_add 2000 (1000 - 1 / 2 ^ 43) = 3000"
    unfolding Number_add_def
    by (subst to_double_eval [of 11]) (simp_all add: round_half_even_quotient)
  show "Number_add 4000 (1000 - 1 / 2 ^ 43) = 5000"
    unfolding Number_add_def
    by (subst to_double_eval [of 12]) (simp_all add: round_half_even_quotient)
  show "Number_divide 3000 1000 = 3"
    unfolding Number_divide_def by (simp add: to_double_numeral [of 1])
  show "Number_divide 5000 1000 = 5"
    unfolding Number_divide_def by (simp add: to_double_numeral [of 2])
  show "is_double (1 - 1 / 2 ^ 53)"
    unfolding is_double_def
    by (subst to_double_eval [of "- 1"]) (simp_all add: round_half_even_quotient)
qed

lemma is_double_quarter: "is_double (1 / 4)"
  unfolding is_double_def
  by (subst to_double_eval [of "- 2"]) (simp_all add: round_half_even_quotient)

section \<open>Properties of the date functions\<close>

lemma year_search_spec:
  "DayFromYear y \<le> d \<Longrightarrow> DayFromYear (year_search y d) \<le> d \<and> d < DayFromYear (year_search y d + 1)"
proof (induction y d rule: year_search.induct)
  case (1 y d)
  then show ?case
    by (subst (1 2) year_search.simps) auto
qed

lemma YearFromDay_spec: "DayFromYear (YearFromDay d) \<le> d \<and> d < DayFromYear (YearFromDay d + 1)"
proof -
  have "DayFromYear (1970 + (if 0 \<le> d then d div 366 else d div 365)) \<le> d"
  proof (cases "0 \<le> d")
    case True
    then have "DayFromYear (1970 + d div 366) \<le> 366 * (d div 366)"
      by (intro DayFromYear_upper) (simp add: pos_imp_zdiv_nonneg_iff)
    also have "\<dots> \<le> d" using mult_div_mod_eq [of 366 d] pos_mod_sign [of 366 d] by linarith
    finally show ?thesis using True by simp
  next
    case False
    then have "DayFromYear (1970 + d div 365) \<le> 365 * (d div 365)"
      by (intro DayFromYear_lower) (simp add: div_neg_pos_less0 less_imp_le)
    also have "\<dots> \<le> d" using mult_div_mod_eq [of 365 d] pos_mod_sign [of 365 d] by linarith
    finally show ?thesis using False by simp
  qed
  then show ?thesis unfolding YearFromDay_def by (rule year_search_spec)
qed

lemma digit_cases: "n < 10 \<Longrightarrow> n \<in> {0, 1, 2, 3, 4, 5, 6, 7, 8, 9 :: nat}"
  unfolding insert_iff empty_iff by arith

lemma isDigit_digit: "n < 10 \<Longrightarrow> isDigit (digit n)"
  using digit_cases [of n] by (auto simp: isDigit_def digit_def less_eq_char_def)

lemma digit_value_digit: "n < 10 \<Longrightarrow> digit_value (digit n) = n"
  using digit_cases [of n] by (auto simp: digit_value_def digit_def)

lemma isDigit_not_dash: "isDigit c \<Longrightarrow> c \<noteq> CHR ''-''"
  by (auto simp: isDigit_def less_eq_char_def)

lemma dec_small: "n < 10 \<Longrightarrow> dec n = [digit n]"
  by (subst dec.simps) simp

lemma dec_large: "10 \<le> n \<Longrightarrow> dec n = dec (n div 10) @ [digit (n mod 10)]"
  by (subst dec.simps) simp

lemma dec_digits: "list_all isDigit (dec n)"
proof (induction n rule: dec.induct)
  case (1 n)
  show ?case
  proof (cases "n < 10")
    case True
    then show ?thesis by (subst dec.simps) (simp add: isDigit_digit)
  next
    case False
    then show ?thesis using 1 by (subst dec.simps) (simp add: isDigit_digit)
  qed
qed

lemma dec_length: "0 < k \<Longrightarrow> n < 10 ^ k \<Longrightarrow> length (dec n) \<le> k"
proof (induction n arbitrary: k rule: dec.induct)
  case (1 n)
  show ?case
  proof (cases "n < 10")
    case True
    then show ?thesis using "1.prems" by (subst dec.simps) simp
  next
    case False
    then obtain j where j: "k = Suc j" "0 < j"
      using "1.prems" by (cases k; cases "k - 1") auto
    have "n div 10 < 10 ^ j"
      using "1.prems"(2) j by (simp add: less_mult_imp_div_less mult.commute)
    then have "length (dec (n div 10)) \<le> j"
      using "1.IH" [OF False j(2)] by simp
    then show ?thesis using False j by (subst dec.simps) simp
  qed
qed

lemma dec_nonempty: "dec n \<noteq> []"
  by (subst dec.simps) simp

lemma number_of_dec: "number_of (dec n) = int n"
proof (induction n rule: dec.induct)
  case (1 n)
  show ?case
  proof (cases "n < 10")
    case True
    then show ?thesis by (subst dec.simps) (simp add: number_of_def digit_value_digit)
  next
    case False
    then have "foldl (\<lambda>n c. 10 * n + digit_value c) 0 (dec (n div 10)) = n div 10"
      using 1 by (simp add: number_of_def)
    then show ?thesis using False
      by (subst dec.simps) (simp add: number_of_def digit_value_digit)
  qed
qed


lemma Day_MakeDate [simp]: "Day (MakeDate d 0) = d"
  by (simp add: Day_def MakeDate_def msPerDay_def)

lemma leap_cases: "leap y = 0 \<or> leap y = 1"
  by (simp add: leap_def)

lemma DaysInYear_leap: "DaysInYear y = 365 + leap y"
  by (simp add: leap_def DaysInYear_def)

lemma InLeapYear_leap: "InLeapYear t = leap (YearFromTime t)"
  by (simp add: InLeapYear_def leap_def)

lemma DayWithinYear_range:
  "0 \<le> DayWithinYear t \<and> DayWithinYear t < 365 + InLeapYear t"
  using YearFromDay_spec [of "Day t"] DayFromYear_Suc [of "YearFromTime t"]
  by (simp add: DayWithinYear_def YearFromTime_def InLeapYear_leap DaysInYear_leap)

lemma month_of_day_range:
  "0 \<le> d \<Longrightarrow> d < 365 + l \<Longrightarrow> 0 \<le> month_of_day d l \<and> month_of_day d l \<le> 11"
  by (simp add: month_of_day_def)

lemma date_of_day_range:
  assumes "0 \<le> d" "d < 365 + l" "l = 0 \<or> l = 1"
  shows "1 \<le> date_of_day d l \<and>
         date_of_day d l \<le> (if month_of_day d l = 1 then 28 + l
            else if month_of_day d l = 3 \<or> month_of_day d l = 5 \<or> month_of_day d l = 8 \<or>
                    month_of_day d l = 10 then 30 else 31)"
  using assms by (auto simp: date_of_day_def month_of_day_def Let_def)

lemma MonthFromTime_range: "0 \<le> MonthFromTime t \<and> MonthFromTime t \<le> 11"
  using DayWithinYear_range [of t] by (simp add: MonthFromTime_def month_of_day_range)

lemma DateFromTime_range:
  "1 \<le> DateFromTime t \<and> DateFromTime t \<le> DaysInMonth (YearFromTime t) (MonthFromTime t)"
proof -
  have r: "0 \<le> DayWithinYear t" "DayWithinYear t < 365 + leap (YearFromTime t)"
    using DayWithinYear_range [of t] by (simp_all add: InLeapYear_leap)
  from date_of_day_range [OF r leap_cases] show ?thesis
    unfolding DateFromTime_def MonthFromTime_def DaysInMonth_def InLeapYear_leap by blast
qed

lemma DaysInMonth_le: "DaysInMonth y m \<le> 31"
  using leap_cases [of y] by (auto simp: DaysInMonth_def)


lemma pad_length: "0 < k \<Longrightarrow> 0 \<le> i \<Longrightarrow> i < 10 ^ k \<Longrightarrow> length (pad k i) = k"
proof -
  assume a: "0 < k" "0 \<le> i" "i < 10 ^ k"
  then have "nat i < 10 ^ k"
    by (simp add: nat_less_iff)
  then have "length (dec (nat i)) \<le> k"
    using a(1) by (rule dec_length [rotated])
  then show ?thesis
    by (simp add: pad_def padStart_def)
qed

lemma isDigit_0: "isDigit CHR ''0''"
  by (simp add: isDigit_def)

lemma pad_digits: "list_all isDigit (pad k i)"
  using dec_digits [of "nat i"] by (auto simp: pad_def padStart_def isDigit_0 list_all_iff)

lemma remove_dashes_digits: "list_all isDigit s \<Longrightarrow> remove_dashes s = s"
  by (induction s) (auto simp: remove_dashes_def isDigit_not_dash)

lemma remove_dashes_append: "remove_dashes (a @ b) = remove_dashes a @ remove_dashes b"
  by (simp add: remove_dashes_def)

lemma remove_dashes_Cons:
  "remove_dashes (c # s) = (if c = CHR ''-'' then remove_dashes s else c # remove_dashes s)"
  by (simp add: remove_dashes_def)

lemma ymd_of_toISOString:
  assumes "0 \<le> YearFromTime t" "YearFromTime t \<le> 9999"
  shows "remove_dashes (slice 0 10 (toISOString t)) =
           pad 4 (YearFromTime t) @ pad 2 (MonthFromTime t + 1) @ pad 2 (DateFromTime t)"
proof -
  have y: "length (pad 4 (YearFromTime t)) = 4"
    using assms by (intro pad_length) simp_all
  have m: "length (pad 2 (MonthFromTime t + 1)) = 2"
    using MonthFromTime_range [of t] by (intro pad_length) simp_all
  have d: "length (pad 2 (DateFromTime t)) = 2"
    using DateFromTime_range [of t] DaysInMonth_le [of "YearFromTime t" "MonthFromTime t"]
    by (intro pad_length) simp_all
  have "slice 0 10 (toISOString t) =
      pad 4 (YearFromTime t) @ ''-'' @ pad 2 (MonthFromTime t + 1) @ ''-'' @ pad 2 (DateFromTime t)"
    using assms y m d by (simp add: toISOString_def year_string_def slice_def)
  then show ?thesis
    by (simp add: remove_dashes_append remove_dashes_Cons remove_dashes_digits pad_digits)
qed

lemma ymd_digits:
  assumes "0 \<le> YearFromTime t" "YearFromTime t \<le> 9999"
  shows "length (remove_dashes (slice 0 10 (toISOString t))) = 8 \<and>
         list_all isDigit (remove_dashes (slice 0 10 (toISOString t)))"
proof -
  have y: "length (pad 4 (YearFromTime t)) = 4"
    using assms by (intro pad_length) simp_all
  have m: "length (pad 2 (MonthFromTime t + 1)) = 2"
    using MonthFromTime_range [of t] by (intro pad_length) simp_all
  have d: "length (pad 2 (DateFromTime t)) = 2"
    using DateFromTime_range [of t] DaysInMonth_le [of "YearFromTime t" "MonthFromTime t"]
    by (intro pad_length) simp_all
  show ?thesis
    unfolding ymd_of_toISOString [OF assms] using y m d by (simp add: pad_digits)
qed

lemma DayFromYear_mono: "y \<le> y' \<Longrightarrow> DayFromYear y \<le> DayFromYear y'"
proof (induction y' rule: int_ge_induct)
  case base
  then show ?case by simp
next
  case (step i)
  then show ?case
    using DayFromYear_Suc [of i] DaysInYear_bounds(1) [of i] by simp
qed

lemma YearFromDay_unique:
  assumes "DayFromYear y \<le> d" "d < DayFromYear (y + 1)"
  shows "YearFromDay d = y"
proof (rule ccontr)
  assume n: "YearFromDay d \<noteq> y"
  note s = YearFromDay_spec [of d]
  show False
  proof (cases "YearFromDay d < y")
    case True
    then have "DayFromYear (YearFromDay d + 1) \<le> DayFromYear y"
      by (intro DayFromYear_mono) simp
    then show False using s assms by simp
  next
    case False
    then have "DayFromYear (y + 1) \<le> DayFromYear (YearFromDay d)"
      using n by (intro DayFromYear_mono) simp
    then show False using s assms by simp
  qed
qed

lemma days_before_month_range:
  assumes "0 \<le> m" "m \<le> 11" "1 \<le> d" "d \<le> DaysInMonth y m"
  shows "0 \<le> days_before_month m (leap y) + d - 1 \<and>
         days_before_month m (leap y) + d - 1 < 365 + leap y"
  using assms leap_cases [of y] by (auto simp: days_before_month_def DaysInMonth_def split: if_splits)

lemma month_cases:
  "0 \<le> m \<Longrightarrow> m \<le> 11 \<Longrightarrow> m \<in> {0, 1, 2, 3, 4, 5, 6, 7, 8, 9, 10, 11 :: int}"
  unfolding insert_iff empty_iff by arith

lemma month_of_day_days_before:
  assumes "0 \<le> m" "m \<le> 11" "1 \<le> d" "d \<le> DaysInMonth y m"
  shows "month_of_day (days_before_month m (leap y) + d - 1) (leap y) = m \<and>
         date_of_day (days_before_month m (leap y) + d - 1) (leap y) = d"
  using month_cases [OF assms(1,2)] assms(3,4) leap_cases [of y]
  by (elim insertE emptyE disjE) (simp_all add: days_before_month_def DaysInMonth_def month_of_day_def
      date_of_day_def)

lemma MakeDay_fields:
  assumes "0 \<le> m" "m \<le> 11" "1 \<le> d" "d \<le> DaysInMonth y m"
  shows "YearFromTime (MakeDate (MakeDay y m d) 0) = y \<and>
         MonthFromTime (MakeDate (MakeDay y m d) 0) = m \<and>
         DateFromTime (MakeDate (MakeDay y m d) 0) = d"
proof -
  note r = days_before_month_range [OF assms]
  have y: "YearFromDay (MakeDay y m d) = y"
    using r DayFromYear_Suc [of y]
    by (intro YearFromDay_unique) (simp_all add: MakeDay_def DaysInYear_leap)
  have w: "DayWithinYear (MakeDate (MakeDay y m d) 0) = days_before_month m (leap y) + d - 1"
    by (simp add: DayWithinYear_def YearFromTime_def y) (simp add: MakeDay_def)
  show ?thesis
    using month_of_day_days_before [OF assms]
    by (simp add: MonthFromTime_def DateFromTime_def w InLeapYear_leap YearFromTime_def y)
qed

lemma list2: "length s = 2 \<Longrightarrow> \<exists>a b. s = [a, b]"
  by (auto simp: numeral_eq_Suc length_Suc_conv)

lemma list4: "length s = 4 \<Longrightarrow> \<exists>a b c d. s = [a, b, c, d]"
  by (auto simp: numeral_eq_Suc length_Suc_conv)

lemma number_of_zeros: "foldl (\<lambda>n c. 10 * n + digit_value c) 0 (replicate k CHR ''0'') = 0"
  by (induction k) (simp_all add: digit_value_def)

lemma number_of_pad: "0 \<le> i \<Longrightarrow> number_of (pad k i) = i"
  using number_of_dec [of "nat i"]
  by (simp add: pad_def padStart_def number_of_def number_of_zeros)

lemma DayFromYear_0: "DayFromYear 0 = - 719528"
  by (simp add: DayFromYear_def)

lemma DayFromYear_9999: "DayFromYear 9999 = 2932532"
  by (simp add: DayFromYear_def)

lemma TimeClip_MakeDay:
  assumes "0 \<le> y" "y \<le> 9999" "0 \<le> m" "m \<le> 11" "1 \<le> d" "d \<le> DaysInMonth y m"
  shows "TimeClip (MakeDate (MakeDay y m d) 0) = Some (MakeDate (MakeDay y m d) 0)"
proof -
  have "DayFromYear 0 \<le> DayFromYear y" "DayFromYear y \<le> DayFromYear 9999"
    using assms(1,2) by (intro DayFromYear_mono, simp)+
  moreover note days_before_month_range [OF assms(3-6)] leap_cases [of y]
  ultimately have "- 719528 \<le> MakeDay y m d" "MakeDay y m d \<le> 2932532 + 366"
    by (auto simp: MakeDay_def DayFromYear_0 DayFromYear_9999)
  then show ?thesis
    by (simp add: TimeClip_def MakeDate_def msPerDay_def)
qed

lemma parse_iso_date_ymd:
  assumes "0 \<le> y" "y \<le> 9999" "1 \<le> m" "m \<le> 12" "1 \<le> d" "d \<le> DaysInMonth y (m - 1)"
  shows "parse_iso_date (pad 4 y @ ''-'' @ pad 2 m @ ''-'' @ pad 2 d)
           = Some (MakeDate (MakeDay y (m - 1) d) 0)"
proof -
  have d31: "d \<le> 31" using assms(6) DaysInMonth_le [of y "m - 1"] by simp
  obtain y1 y2 y3 y4 where Y: "pad 4 y = [y1, y2, y3, y4]"
    using list4 [OF pad_length [of 4 y]] assms by auto
  obtain m1 m2 where M: "pad 2 m = [m1, m2]"
    using list2 [OF pad_length [of 2 m]] assms by auto
  obtain d1 d2 where D: "pad 2 d = [d1, d2]"
    using list2 [OF pad_length [of 2 d]] assms d31 by auto
  have dg: "list_all isDigit [y1, y2, y3, y4]" "list_all isDigit [m1, m2]" "list_all isDigit [d1, d2]"
    using pad_digits [of 4 y] pad_digits [of 2 m] pad_digits [of 2 d] by (simp_all add: Y M D)
  have n: "number_of [y1, y2, y3, y4] = y" "number_of [m1, m2] = m" "number_of [d1, d2] = d"
    using number_of_pad [of y 4] number_of_pad [of m 2] number_of_pad [of d 2] assms
    by (simp_all add: Y M D)
  have t: "TimeClip (MakeDate (MakeDay y (m - 1) d) 0) = Some (MakeDate (MakeDay y (m - 1) d) 0)"
    using assms by (intro TimeClip_MakeDay) simp_all
  have "date_only y (''-'' @ [m1, m2] @ ''-'' @ [d1, d2]) = Some (MakeDate (MakeDay y (m - 1) d) 0)"
    using dg n assms t by (simp add: date_only_def slice_def Let_def)
  then show ?thesis
    using dg n by (simp add: parse_iso_date_def Y M D)
qed

section \<open>Properties of the extraction client\<close>

lemma waits_of_append: "waits_of (es @ fs) = waits_of es @ waits_of fs"
  by (induction es rule: waits_of.induct) simp_all

lemma waits_of_rounds:
  "waits_of (concat (map (\<lambda>k. [Called p, Progress (m k), Wait (d k)]) ks)) = map d ks"
  by (induction ks) simp_all

lemma attempts_step:
  "attempt < 3 \<Longrightarrow> attempts P prompt attempt st =
     (case attempt_outcome P (calls st) prompt of
        Inr validated \<Rightarrow> (Inr validated, st\<lparr>calls := calls st + 1, trace := trace st @ [Called prompt]\<rparr>)
      | Inl msg \<Rightarrow>
          if isRateLimitError msg \<and> attempt < 2 then
            attempts P prompt (attempt + 1)
              (st\<lparr>calls := calls st + 1, draws := draws st + 1,
                 trace := trace st @ [Called prompt,
                   Progress (retry_message P (Number_add (2000 * 2 ^ attempt)
                     (Number_multiply (Math_random P (draws st)) 1000)) attempt),
                   Wait (Number_add (2000 * 2 ^ attempt)
                     (Number_multiply (Math_random P (draws st)) 1000))]\<rparr>)
          else (Inl msg, st\<lparr>calls := calls st + 1, trace := trace st @ [Called prompt]\<rparr>))"
  by (subst attempts.simps)
    (simp add: MAX_RETRIES_def Let_def emit_def INITIAL_BACKOFF_MS_def backoff_base
       split: sum.splits)

lemma attempts_char:
  "attempt < 3 \<Longrightarrow> attempts P prompt attempt st = (result, st') \<Longrightarrow>
   \<exists>n. 1 \<le> n \<and> attempt + n \<le> 3 \<and> calls st' = calls st + n \<and>
       trace st' = trace st @
         concat (map (\<lambda>k. [Called prompt,
           Progress (retry_message P (Number_add (2000 * 2 ^ (attempt + k))
             (Number_multiply (Math_random P (draws st + k)) 1000)) (attempt + k)),
           Wait (Number_add (2000 * 2 ^ (attempt + k))
             (Number_multiply (Math_random P (draws st + k)) 1000))]) [0 ..< n - 1]) @
         [Called prompt] \<and>
       result = attempt_outcome P (calls st + (n - 1)) prompt \<and>
       (\<forall>k < n - 1. \<exists>m. attempt_outcome P (calls st + k) prompt = Inl m \<and> isRateLimitError m) \<and>
       (attempt + n < 3 \<longrightarrow> (\<forall>m. result = Inl m \<longrightarrow> \<not> isRateLimitError m))"
proof (induction P prompt attempt st arbitrary: result st' rule: attempts.induct)
  case (1 P prompt attempt st)
  let ?o = "attempt_outcome P (calls st) prompt"
  let ?d = "\<lambda>a k. Number_add (2000 * 2 ^ a) (Number_multiply (Math_random P k) 1000)"
  let ?round = "\<lambda>a k. [Called prompt, Progress (retry_message P (?d a k) a), Wait (?d a k)]"
  let ?st1 = "st\<lparr>calls := calls st + 1, trace := trace st @ [Called prompt]\<rparr>"
  let ?st3 = "st\<lparr>calls := calls st + 1, draws := draws st + 1,
                 trace := trace st @ ?round attempt (draws st)\<rparr>"
  note step = attempts_step [OF "1.prems"(1), of P prompt st]
  show ?case
  proof (cases ?o)
    case (Inr v)
    then have "result = Inr v" "st' = ?st1"
      using step "1.prems"(2) by simp_all
    then show ?thesis
      using Inr "1.prems"(1) by (intro exI [of _ 1]) simp
  next
    case (Inl m)
    show ?thesis
    proof (cases "isRateLimitError m \<and> attempt < 2")
      case False
      then have "result = Inl m" "st' = ?st1"
        using step "1.prems"(2) Inl by auto
      then show ?thesis
        using Inl False "1.prems"(1) by (intro exI [of _ 1]) auto
    next
      case True
      then have rec: "attempts P prompt (attempt + 1) ?st3 = (result, st')"
        using step "1.prems"(2) Inl by simp
      have ih: "\<exists>n. 1 \<le> n \<and> attempt + 1 + n \<le> 3 \<and> calls st' = calls ?st3 + n \<and>
         trace st' = trace ?st3 @
           concat (map (\<lambda>k. ?round (attempt + 1 + k) (draws ?st3 + k)) [0 ..< n - 1]) @
           [Called prompt] \<and>
         result = attempt_outcome P (calls ?st3 + (n - 1)) prompt \<and>
         (\<forall>k < n - 1. \<exists>m. attempt_outcome P (calls ?st3 + k) prompt = Inl m \<and> isRateLimitError m) \<and>
         (attempt + 1 + n < 3 \<longrightarrow> (\<forall>m. result = Inl m \<longrightarrow> \<not> isRateLimitError m))"
        using "1.IH" [OF _ refl Inl _ refl refl refl, of result st'] True rec "1.prems"(1)
        by (simp add: MAX_RETRIES_def emit_def INITIAL_BACKOFF_MS_def backoff_base)
      then obtain n where n: "1 \<le> n" "attempt + 1 + n \<le> 3" "calls st' = calls st + 1 + n"
        "trace st' = trace st @ ?round attempt (draws st) @
           concat (map (\<lambda>k. ?round (attempt + 1 + k) (draws st + 1 + k)) [0 ..< n - 1]) @
           [Called prompt]"
        "result = attempt_outcome P (calls st + 1 + (n - 1)) prompt"
        "\<forall>k < n - 1. \<exists>m. attempt_outcome P (calls st + 1 + k) prompt = Inl m \<and> isRateLimitError m"
        "attempt + 1 + n < 3 \<longrightarrow> (\<forall>m. result = Inl m \<longrightarrow> \<not> isRateLimitError m)"
        by auto
      have a: "\<forall>k < n. \<exists>m. attempt_outcome P (calls st + k) prompt = Inl m \<and> isRateLimitError m"
      proof (intro allI impI)
        fix k assume "k < n"
        show "\<exists>m. attempt_outcome P (calls st + k) prompt = Inl m \<and> isRateLimitError m"
        proof (cases k)
          case 0
          then show ?thesis using Inl True by simp
        next
          case (Suc j)
          then have "j < n - 1" using \<open>k < n\<close> by simp
          then show ?thesis using n(6) Suc by simp
        qed
      qed
      have b: "map (\<lambda>k. ?round (attempt + k) (draws st + k)) [0 ..< Suc (n - 1)]
          = ?round attempt (draws st) #
            map (\<lambda>k. ?round (attempt + 1 + k) (draws st + 1 + k)) [0 ..< n - 1]"
        by (subst map_upt_Suc) simp
      have c: "n + 1 - 1 = Suc (n - 1)"
        using n(1) by simp
      have t: "trace st' = trace st @
          concat (map (\<lambda>k. ?round (attempt + k) (draws st + k)) [0 ..< n + 1 - 1]) @
          [Called prompt]"
        unfolding c b n(4) by simp
      show ?thesis
        using n(1,2,3,5,7) a t by (intro exI [of _ "n + 1"]) simp
    qed
  qed
qed

text \<open>
  Claim C1, as amended. A chunk extraction makes \<open>n\<close> calls of the capability, all with the
  prompt of the chunk, where \<open>n\<close> is 1, 2 or 3. Its result is the outcome of the last of them:
  the validated records, or the message of the last error. Every attempt before the last
  failed with a message classified as a rate limit, and an extraction that stops before the
  third attempt did not end on such a failure. What the run does, in order, is: for every
  attempt \<open>k\<close> before the last, the call, the report of the countdown and one wait; then the
  last call. The wait before retry \<open>k\<close> is the sum, as numbers, of \<open>2000 * 2\<^sup>k\<close> ms and the
  jitter \<^verbatim>\<open>Math.random() * 1000\<close>; the jitter lies in \<open>[0, 1000)\<close> and the wait between
  \<open>2000 * 2\<^sup>k\<close> and \<open>2000 * 2\<^sup>k + 1000\<close>, both included. So two rate-limit failures followed by a
  success give the success and exactly two waits, and a failure that is not a rate limit on
  the first attempt is the result at once, after that one call and with no wait.
\<close>

theorem extractTransactionsFromChunk_retry_policy:
  assumes "\<forall>k. is_double (Math_random P k) \<and> 0 \<le> Math_random P k \<and> Math_random P k < 1"
    and "extractTransactionsFromChunk P statementChunk fileName chunkNumber totalChunks st
           = (result, st')"
  shows "\<exists>n. 1 \<le> n \<and> n \<le> 3 \<and>
    calls st' = calls st + n \<and>
    trace st' = trace st @
      concat (map (\<lambda>k.
        [Called (build_prompt statementChunk fileName chunkNumber totalChunks),
         Progress (retry_message P (Number_add (2000 * 2 ^ k)
           (Number_multiply (Math_random P (draws st + k)) 1000)) k),
         Wait (Number_add (2000 * 2 ^ k)
           (Number_multiply (Math_random P (draws st + k)) 1000))]) [0 ..< n - 1]) @
      [Called (build_prompt statementChunk fileName chunkNumber totalChunks)] \<and>
    result = attempt_outcome P (calls st + (n - 1))
               (build_prompt statementChunk fileName chunkNumber totalChunks) \<and>
    (\<forall>k < n - 1. \<exists>m. attempt_outcome P (calls st + k)
         (build_prompt statementChunk fileName chunkNumber totalChunks) = Inl m \<and>
       isRateLimitError m) \<and>
    (n < 3 \<longrightarrow> (\<forall>m. result = Inl m \<longrightarrow> \<not> isRateLimitError m)) \<and>
    (\<forall>k. 0 \<le> Number_multiply (Math_random P k) 1000 \<and>
         Number_multiply (Math_random P k) 1000 < 1000) \<and>
    (\<forall>k < n - 1.
       2000 * 2 ^ k \<le> Number_add (2000 * 2 ^ k)
         (Number_multiply (Math_random P (draws st + k)) 1000) \<and>
       Number_add (2000 * 2 ^ k)
         (Number_multiply (Math_random P (draws st + k)) 1000) \<le> 2000 * 2 ^ k + 1000) \<and>
    (\<forall>m0 m1 v.
       attempt_outcome P (calls st)
         (build_prompt statementChunk fileName chunkNumber totalChunks) = Inl m0 \<and>
       isRateLimitError m0 \<and>
       attempt_outcome P (calls st + 1)
         (build_prompt statementChunk fileName chunkNumber totalChunks) = Inl m1 \<and>
       isRateLimitError m1 \<and>
       attempt_outcome P (calls st + 2)
         (build_prompt statementChunk fileName chunkNumber totalChunks) = Inr v
       \<longrightarrow> result = Inr v \<and> n = 3 \<and>
           waits_of (trace st') = waits_of (trace st) @
             [Number_add (2000 * 2 ^ 0) (Number_multiply (Math_random P (draws st)) 1000),
              Number_add (2000 * 2 ^ 1) (Number_multiply (Math_random P (draws st + 1)) 1000)]) \<and>
    (\<forall>m. attempt_outcome P (calls st)
         (build_prompt statementChunk fileName chunkNumber totalChunks) = Inl m \<and>
       \<not> isRateLimitError m
       \<longrightarrow> result = Inl m \<and> n = 1 \<and>
           trace st' = trace st @
             [Called (build_prompt statementChunk fileName chunkNumber totalChunks)])"
proof -
  let ?p = "build_prompt statementChunk fileName chunkNumber totalChunks"
  let ?o = "\<lambda>k. attempt_outcome P (calls st + k) ?p"
  let ?j = "\<lambda>k. Number_multiply (Math_random P k) 1000"
  let ?d = "\<lambda>k. Number_add (2000 * 2 ^ k) (?j (draws st + k))"
  let ?rounds = "\<lambda>n. concat (map (\<lambda>k. [Called ?p, Progress (retry_message P (?d k) k),
    Wait (?d k)]) [0 ..< n - 1])"
  from assms(2) have "attempts P ?p 0 st = (result, st')"
    by (simp add: extractTransactionsFromChunk_def)
  from attempts_char [OF _ this]
  obtain n where n: "1 \<le> n" "n \<le> 3" "calls st' = calls st + n"
    "trace st' = trace st @ ?rounds n @ [Called ?p]"
    "result = ?o (n - 1)"
    "\<forall>k < n - 1. \<exists>m. ?o k = Inl m \<and> isRateLimitError m"
    "n < 3 \<longrightarrow> (\<forall>m. result = Inl m \<longrightarrow> \<not> isRateLimitError m)"
    by auto
  have jitter: "\<forall>k. 0 \<le> ?j k \<and> ?j k < 1000"
    using assms(1) jitter_bounds by blast
  have bounds: "\<forall>k < n - 1. 2000 * 2 ^ k \<le> ?d k \<and> ?d k \<le> 2000 * 2 ^ k + 1000"
  proof (intro allI impI)
    fix k assume "k < n - 1"
    then consider "k = 0" | "k = 1" using n(2) by linarith
    then show "2000 * 2 ^ k \<le> ?d k \<and> ?d k \<le> 2000 * 2 ^ k + 1000"
    proof cases
      case 1
      then show ?thesis
        using jitter backoff_bounds(1,2) [of "?j (draws st)"] by (simp add: less_imp_le)
    next
      case 2
      then show ?thesis
        using jitter backoff_bounds(3,4) [of "?j (draws st + 1)"] by (simp add: less_imp_le)
    qed
  qed
  have twice: "\<forall>m0 m1 v.
       attempt_outcome P (calls st) ?p = Inl m0 \<and> isRateLimitError m0 \<and>
       attempt_outcome P (calls st + 1) ?p = Inl m1 \<and> isRateLimitError m1 \<and>
       attempt_outcome P (calls st + 2) ?p = Inr v
       \<longrightarrow> result = Inr v \<and> n = 3 \<and>
           waits_of (trace st') = waits_of (trace st) @
             [Number_add (2000 * 2 ^ 0) (Number_multiply (Math_random P (draws st)) 1000),
              Number_add (2000 * 2 ^ 1) (Number_multiply (Math_random P (draws st + 1)) 1000)]"
  proof (intro allI impI)
    fix m0 m1 v
    assume h: "attempt_outcome P (calls st) ?p = Inl m0 \<and> isRateLimitError m0 \<and>
       attempt_outcome P (calls st + 1) ?p = Inl m1 \<and> isRateLimitError m1 \<and>
       attempt_outcome P (calls st + 2) ?p = Inr v"
    have "n \<noteq> 1" using n(5) n(7) h by auto
    moreover have "n \<noteq> 2" using n(5) n(7) h by auto
    ultimately have 3: "n = 3" using n(1,2) by linarith
    have u: "[0 ..< 3 - 1] = [0, Suc 0]" by (simp add: upt_rec)
    have "waits_of (trace st') = waits_of (trace st) @
        [Number_add (2000 * 2 ^ 0) (?j (draws st)), Number_add (2000 * 2 ^ 1) (?j (draws st + 1))]"
      using n(4) unfolding 3 u by (simp add: waits_of_append)
    moreover have "result = Inr v" using n(5) h unfolding 3 by simp
    ultimately show "result = Inr v \<and> n = 3 \<and>
           waits_of (trace st') = waits_of (trace st) @
             [Number_add (2000 * 2 ^ 0) (Number_multiply (Math_random P (draws st)) 1000),
              Number_add (2000 * 2 ^ 1) (Number_multiply (Math_random P (draws st + 1)) 1000)]"
      using 3 by blast
  qed
  have once: "\<forall>m. attempt_outcome P (calls st) ?p = Inl m \<and> \<not> isRateLimitError m
       \<longrightarrow> result = Inl m \<and> n = 1 \<and> trace st' = trace st @ [Called ?p]"
  proof (intro allI impI)
    fix m
    assume h: "attempt_outcome P (calls st) ?p = Inl m \<and> \<not> isRateLimitError m"
    have 1: "n = 1"
    proof (rule ccontr)
      assume "n \<noteq> 1"
      then have "0 < n - 1" using n(1) by linarith
      with n(6) obtain m' where "?o 0 = Inl m'" "isRateLimitError m'" by blast
      then show False using h by simp
    qed
    then show "result = Inl m \<and> n = 1 \<and> trace st' = trace st @ [Called ?p]"
      using n(4,5) h by simp
  qed
  show ?thesis
    by (intro exI [of _ n] conjI n(1) n(2) n(3) n(4) n(5) n(6) n(7) jitter bounds twice once)
qed

theorem extractTransactionsFromChunk_retry_policy_witness:
  "(\<forall>k. is_double (Math_random (example_platform busy_twice) k) \<and>
        0 \<le> Math_random (example_platform busy_twice) k \<and>
        Math_random (example_platform busy_twice) k < 1) \<and>
   fst (extractTransactionsFromChunk (example_platform busy_twice) ''x'' ''f.txt'' 1 1 initial_run)
     = Inr [JObj [(''date'', JStr ''20240305''), (''description'', JStr ''Coffee''),
                  (''amount'', JNum (- 4.5))]] \<and>
   calls (snd (extractTransactionsFromChunk (example_platform busy_twice) ''x'' ''f.txt'' 1 1
     initial_run)) = 3 \<and>
   trace (snd (extractTransactionsFromChunk (example_platform busy_twice) ''x'' ''f.txt'' 1 1
     initial_run)) =
     [Called (build_prompt ''x'' ''f.txt'' 1 1),
      Progress ''API is busy. Retrying in 2.3s... (Attempt 2/3)'', Wait 2250,
      Called (build_prompt ''x'' ''f.txt'' 1 1),
      Progress ''API is busy. Retrying in 4.3s... (Attempt 3/3)'', Wait 4250,
      Called (build_prompt ''x'' ''f.txt'' 1 1)]"
proof -
  let ?P = "example_platform busy_twice"
  let ?R = "extractTransactionsFromChunk ?P ''x'' ''f.txt'' 1 1 initial_run"
  let ?p = "build_prompt ''x'' ''f.txt'' 1 1"
  have j: "\<forall>k. is_double (Math_random ?P k) \<and> 0 \<le> Math_random ?P k \<and> Math_random ?P k < 1"
    by (simp add: example_platform_def is_double_quarter)
  have o0: "attempt_outcome ?P (calls initial_run) ?p = Inl ''429 Too Many Requests''"
    by code_simp
  have o1: "attempt_outcome ?P (calls initial_run + 1) ?p = Inl ''429 Too Many Requests''"
    by code_simp
  have o2: "attempt_outcome ?P (calls initial_run + 2) ?p =
      Inr [JObj [(''date'', JStr ''20240305''), (''description'', JStr ''Coffee''),
                  (''amount'', JNum (- 4.5))]]"
    by code_simp
  have rl: "isRateLimitError ''429 Too Many Requests''"
    by code_simp
  have w0: "trace initial_run = []" "draws initial_run = 0" "calls initial_run = 0"
    by (simp_all add: initial_run_def)
  have r4: "Math_random ?P k = 1 / 4" for k
    by (simp add: example_platform_def)
  have m0: "retry_message ?P 2250 0 = ''API is busy. Retrying in 2.3s... (Attempt 2/3)''"
    and m1: "retry_message ?P 4250 (Suc 0) = ''API is busy. Retrying in 4.3s... (Attempt 3/3)''"
    by (simp_all add: retry_message_def Number_add_quarter toFixed_def padStart_def dec_small
        dec_large digit_def MAX_RETRIES_def)
  from extractTransactionsFromChunk_retry_policy [OF j prod.collapse [symmetric], of "''x''" "''f.txt''" 1 1 initial_run]
  obtain n where n: "calls (snd ?R) = calls initial_run + n"
    "trace (snd ?R) = trace initial_run @
      concat (map (\<lambda>k. [Called ?p,
         Progress (retry_message ?P (Number_add (2000 * 2 ^ k)
           (Number_multiply (Math_random ?P (draws initial_run + k)) 1000)) k),
         Wait (Number_add (2000 * 2 ^ k)
           (Number_multiply (Math_random ?P (draws initial_run + k)) 1000))]) [0 ..< n - 1]) @
      [Called ?p]"
    "\<forall>m0 m1 v. attempt_outcome ?P (calls initial_run) ?p = Inl m0 \<and> isRateLimitError m0 \<and>
       attempt_outcome ?P (calls initial_run + 1) ?p = Inl m1 \<and> isRateLimitError m1 \<and>
       attempt_outcome ?P (calls initial_run + 2) ?p = Inr v
       \<longrightarrow> fst ?R = Inr v \<and> n = 3 \<and>
           waits_of (trace (snd ?R)) = waits_of (trace initial_run) @
             [Number_add (2000 * 2 ^ 0) (Number_multiply (Math_random ?P (draws initial_run)) 1000),
              Number_add (2000 * 2 ^ 1)
                (Number_multiply (Math_random ?P (draws initial_run + 1)) 1000)]"
    by blast
  from n(3) o0 o1 o2 rl have f: "fst ?R = Inr [JObj [(''date'', JStr ''20240305''),
      (''description'', JStr ''Coffee''), (''amount'', JNum (- 4.5))]]" and 3: "n = 3"
    by blast+
  have u: "[0 ..< 3 - 1] = [0, Suc 0]" by (simp add: upt_rec)
  have t: "trace (snd ?R) = [Called ?p,
      Progress ''API is busy. Retrying in 2.3s... (Attempt 2/3)'', Wait 2250, Called ?p,
      Progress ''API is busy. Retrying in 4.3s... (Attempt 3/3)'', Wait 4250, Called ?p]"
    using n(2) unfolding 3 u w0 r4 by (simp add: Number_add_quarter m0 m1)
  have c: "calls (snd ?R) = 3"
    using n(1) unfolding 3 w0 by simp
  from j f c t show ?thesis
    by blast
qed

text \<open>
  The claim as the specification has it, a wait of \<open>2000 * 2\<^sup>k\<close> ms plus a jitter below 1000,
  fails at the largest value that \<^verbatim>\<open>Math.random()\<close> can return, \<open>1 - 2\<^sup>-\<^sup>5\<^sup>3\<close>: the jitter is
  then \<open>1000 - 2\<^sup>-\<^sup>4\<^sup>3\<close> and the sums round up, so that the two waits are 3000 and 5000 ms,
  the backoff plus a full 1000.
\<close>

theorem extractTransactionsFromChunk_retry_counterexample:
  "is_double (1 - 1 / 2 ^ 53) \<and> (0 :: rat) \<le> 1 - 1 / 2 ^ 53 \<and> (1 :: rat) - 1 / 2 ^ 53 < 1 \<and>
   waits_of (trace (snd (extractTransactionsFromChunk
     ((example_platform busy_twice)\<lparr>Math_random := \<lambda>k. 1 - 1 / 2 ^ 53\<rparr>)
     ''x'' ''f.txt'' 1 1 initial_run))) = [3000, 5000] \<and>
   \<not> (\<exists>jitter :: rat. jitter < 1000 \<and> 3000 = 2000 * 2 ^ 0 + jitter) \<and>
   \<not> (\<exists>jitter :: rat. jitter < 1000 \<and> 5000 = 2000 * 2 ^ 1 + jitter)"
proof -
  define P where "P = (example_platform busy_twice)\<lparr>Math_random := \<lambda>k. 1 - 1 / 2 ^ 53\<rparr>"
  define p where "p = build_prompt ''x'' ''f.txt'' 1 1"
  have o: "attempt_outcome P 0 p = Inl ''429 Too Many Requests''"
    "attempt_outcome P (Suc 0) p = Inl ''429 Too Many Requests''"
    "attempt_outcome P (Suc (Suc 0)) p = Inr [JObj [(''date'', JStr ''20240305''),
       (''description'', JStr ''Coffee''), (''amount'', JNum (- 4.5))]]"
    unfolding P_def p_def by code_simp+
  have rl: "isRateLimitError ''429 Too Many Requests''"
    by code_simp
  have r: "Math_random P k = 1 - 1 / 2 ^ 53" for k
    by (simp add: P_def)
  have d: "Number_add 2000 (Number_multiply (Math_random P k) 1000) = 3000"
    "Number_add 4000 (Number_multiply (Math_random P k) 1000) = 5000" for k
    unfolding r Number_add_largest(1) by (rule Number_add_largest(2) Number_add_largest(3))+
  have "waits_of (trace (snd (attempts P p 0 initial_run))) = [3000, 5000]"
    by (simp add: attempts_step [of 0] attempts_step [of "Suc 0"] attempts_step [of "Suc (Suc 0)"]
        initial_run_def o rl d waits_of_append)
  then show ?thesis
    using Number_add_largest(6) by (simp add: extractTransactionsFromChunk_def P_def p_def)
qed

lemma indexOf_ge: "- 1 \<le> indexOf s c"
  by (induction s) auto

lemma indexOf_Nil_iff: "indexOf s c \<noteq> - 1 \<Longrightarrow> s \<noteq> []"
  by auto

text \<open>
  Claim C8. When the text of the response holds a first \<open>{\<close> and a last \<open>}\<close> after it, the text
  between them parses to an object, and the object has no property \<open>transactions\<close> that is an
  array, the extraction of the chunk returns the empty sequence: after this one call, with no
  retry and no wait.
\<close>

theorem extraction_without_transactions_array:
  assumes "generateContent P (calls st)
             (build_prompt statementChunk fileName chunkNumber totalChunks) = Inr (Some text)"
    and "indexOf text CHR ''{'' \<noteq> - 1"
    and "indexOf text CHR ''{'' \<le> lastIndexOf text CHR ''}''"
    and "JSON_parse P (substring text (indexOf text CHR ''{'') (lastIndexOf text CHR ''}'' + 1))
           = Inr (JObj fs)"
    and "\<forall>txs. map_of fs ''transactions'' \<noteq> Some (JArr txs)"
  shows "fst (extractTransactionsFromChunk P statementChunk fileName chunkNumber totalChunks st)
           = Inr [] \<and>
         calls (snd (extractTransactionsFromChunk P statementChunk fileName chunkNumber
           totalChunks st)) = calls st + 1 \<and>
         waits_of (trace (snd (extractTransactionsFromChunk P statementChunk fileName chunkNumber
           totalChunks st))) = waits_of (trace st)"
proof -
  have ne: "text \<noteq> []"
    using assms(2) by auto
  have le: "\<not> lastIndexOf text CHR ''}'' < indexOf text CHR ''{''" "lastIndexOf text CHR ''}'' \<noteq> - 1"
    using assms(2,3) indexOf_ge [of "text" "CHR ''{''"] by linarith+
  have "read_response P (Some text) = Inr []"
  proof (cases "map_of fs ''transactions''")
    case None
    then show ?thesis
      using ne le assms(2,4) by (simp add: read_response_def Let_def)
  next
    case (Some v)
    then show ?thesis
      using ne le assms(2,4,5) by (cases v) (simp_all add: read_response_def Let_def)
  qed
  then have "attempt_outcome P (calls st)
      (build_prompt statementChunk fileName chunkNumber totalChunks) = Inr []"
    using assms(1) by (simp add: attempt_outcome_def)
  then show ?thesis
    by (simp add: extractTransactionsFromChunk_def attempts_step waits_of_append)
qed

theorem extraction_without_transactions_array_witness:
  "generateContent (example_platform (always (''Here: '' @ json_no_array @ '' (done)''))) 0
     (build_prompt ''x'' ''f.txt'' 1 1) = Inr (Some (''Here: '' @ json_no_array @ '' (done)'')) \<and>
   JSON_parse (example_platform (always (''Here: '' @ json_no_array @ '' (done)'')))
     (substring (''Here: '' @ json_no_array @ '' (done)'') 6 8) = Inr (JObj []) \<and>
   fst (extractTransactionsFromChunk (example_platform (always (''Here: '' @ json_no_array @
     '' (done)''))) ''x'' ''f.txt'' 1 1 initial_run) = Inr [] \<and>
   calls (snd (extractTransactionsFromChunk (example_platform (always (''Here: '' @ json_no_array @
     '' (done)''))) ''x'' ''f.txt'' 1 1 initial_run)) = 1"
proof -
  let ?t = "''Here: '' @ json_no_array @ '' (done)''"
  let ?P = "example_platform (always ?t)"
  have c: "calls initial_run = 0"
    by (simp add: initial_run_def)
  have g: "generateContent ?P (calls initial_run) (build_prompt ''x'' ''f.txt'' 1 1) = Inr (Some ?t)"
    by (simp add: example_platform_def always_def)
  have i: "indexOf ?t CHR ''{'' = 6" "lastIndexOf ?t CHR ''}'' = 7"
    by code_simp+
  have p: "JSON_parse ?P (substring ?t (indexOf ?t CHR ''{'') (lastIndexOf ?t CHR ''}'' + 1))
      = Inr (JObj [])"
    unfolding i by code_simp
  have a: "\<forall>txs. map_of ([] :: (string \<times> json) list) ''transactions'' \<noteq> Some (JArr txs)"
    by simp
  have i1: "indexOf ?t CHR ''{'' \<noteq> - 1"
    unfolding i by simp
  have i2: "indexOf ?t CHR ''{'' \<le> lastIndexOf ?t CHR ''}''"
    unfolding i by simp
  note h = extraction_without_transactions_array [OF g i1 i2 p a]
  have g0: "generateContent ?P 0 (build_prompt ''x'' ''f.txt'' 1 1) = Inr (Some ?t)"
    using g unfolding c .
  have p0: "JSON_parse ?P (substring ?t 6 8) = Inr (JObj [])"
    using p unfolding i by simp
  have "calls (snd (extractTransactionsFromChunk ?P ''x'' ''f.txt'' 1 1 initial_run)) = 1"
    using h unfolding c by simp
  with h g0 p0 show ?thesis
    by blast
qed

section \<open>Properties of the record validator\<close>

lemma map_of_set_property: "map_of (set_property k v tx) = (map_of tx)(k \<mapsto> v)"
  by (induction tx) (auto simp: fun_eq_iff)

lemma new_Date_iso:
  assumes "0 \<le> y" "y \<le> 9999" "1 \<le> m" "m \<le> 12" "1 \<le> d" "d \<le> DaysInMonth y (m - 1)"
  shows "new_Date P (JStr (pad 4 y @ ''-'' @ pad 2 m @ ''-'' @ pad 2 d))
           = Inr (Some (MakeDate (MakeDay y (m - 1) d) 0))"
  using parse_iso_date_ymd [OF assms] by (simp add: new_Date_def Date_parse_def)

lemma ymd_of_MakeDay:
  assumes "0 \<le> y" "y \<le> 9999" "1 \<le> m" "m \<le> 12" "1 \<le> d" "d \<le> DaysInMonth y (m - 1)"
  shows "remove_dashes (slice 0 10 (toISOString (MakeDate (MakeDay y (m - 1) d) 0)))
           = pad 4 y @ pad 2 m @ pad 2 d"
proof -
  have f: "YearFromTime (MakeDate (MakeDay y (m - 1) d) 0) = y"
    "MonthFromTime (MakeDate (MakeDay y (m - 1) d) 0) = m - 1"
    "DateFromTime (MakeDate (MakeDay y (m - 1) d) 0) = d"
    using MakeDay_fields [of "m - 1" d y] assms by simp_all
  show ?thesis
    using ymd_of_toISOString [of "MakeDate (MakeDay y (m - 1) d) 0"] assms(1,2)
    by (simp add: f)
qed

lemma parse_2024_03_05: "parse_iso_date ''2024-03-05'' = Some 1709596800000"
  by code_simp

lemma fields_2024_03_05:
  "YearFromTime 1709596800000 = 2024 \<and> MonthFromTime 1709596800000 = 2 \<and>
   DateFromTime 1709596800000 = 5"
  using MakeDay_fields [of 2 5 2024]
  by (simp add: MakeDate_def MakeDay_def msPerDay_def DayFromYear_def days_before_month_def
      DaysInMonth_def leap_def DaysInYear_def)

lemma ymd_2024_03_05: "remove_dashes (slice 0 10 (toISOString 1709596800000)) = ''20240305''"
  using ymd_of_toISOString [of 1709596800000]
  by (simp add: fields_2024_03_05 pad_def padStart_def dec_small dec_large digit_def)

lemma parse_year_10000: "parse_iso_date ''+010000-01-01'' = Some 253402300800000"
  by code_simp

lemma fields_year_10000:
  "YearFromTime 253402300800000 = 10000 \<and> MonthFromTime 253402300800000 = 0 \<and>
   DateFromTime 253402300800000 = 1"
  using MakeDay_fields [of 0 1 10000]
  by (simp add: MakeDate_def MakeDay_def msPerDay_def DayFromYear_def days_before_month_def
      DaysInMonth_def leap_def DaysInYear_def)

lemma pad_6_10000: "pad 6 10000 = ''010000''"
  by (simp add: pad_def padStart_def dec_small dec_large digit_def)

lemma pad_2_1: "pad 2 1 = ''01''"
  by (simp add: pad_def padStart_def dec_small digit_def)

lemma ymd_year_10000: "remove_dashes (slice 0 10 (toISOString 253402300800000)) = ''+01000001''"
  by (simp add: toISOString_def year_string_def fields_year_10000 pad_6_10000 pad_2_1 slice_def
      remove_dashes_def)

text \<open>
  Claim C3, as amended. For a record that is an object, the validator returns \<^verbatim>\<open>null\<close> exactly
  when \<open>date\<close> or \<open>description\<close> is absent or falsy (\<^verbatim>\<open>null\<close>, \<^verbatim>\<open>false\<close>, 0, the empty string),
  when \<open>amount\<close> is absent, or when the date converts to no instant. When the date converts to
  an instant whose year in UTC is from 0 to 9999, it returns the record with every property
  but \<open>date\<close> unchanged and with \<open>date\<close> the eight digits \<open>YYYYMMDD\<close> of the UTC day of the
  instant, a day that exists. A date given as \<open>YYYY-MM-DD\<close> of a day that exists converts to
  the start of that day in UTC, so it comes back as the same day. The record of the example
  normalizes as the specification says.
\<close>

theorem normalizeRecord_object:
  "(normalizeRecord P (JObj tx) = Inr None \<longleftrightarrow>
      \<not> truthy (map_of tx ''date'') \<or> \<not> truthy (map_of tx ''description'') \<or>
      map_of tx ''amount'' = None \<or> new_Date P (the (map_of tx ''date'')) = Inr None) \<and>
   (\<forall>t. truthy (map_of tx ''date'') \<and> truthy (map_of tx ''description'') \<and>
        map_of tx ''amount'' \<noteq> None \<and> new_Date P (the (map_of tx ''date'')) = Inr (Some t) \<and>
        0 \<le> YearFromTime t \<and> YearFromTime t \<le> 9999 \<longrightarrow>
        (\<exists>tx'. normalizeRecord P (JObj tx) = Inr (Some (JObj tx')) \<and>
           map_of tx' = (map_of tx)(''date'' \<mapsto>
             JStr (pad 4 (YearFromTime t) @ pad 2 (MonthFromTime t + 1) @ pad 2 (DateFromTime t))) \<and>
           length (pad 4 (YearFromTime t) @ pad 2 (MonthFromTime t + 1) @ pad 2 (DateFromTime t))
             = 8 \<and>
           list_all isDigit
             (pad 4 (YearFromTime t) @ pad 2 (MonthFromTime t + 1) @ pad 2 (DateFromTime t)) \<and>
           1 \<le> MonthFromTime t + 1 \<and> MonthFromTime t + 1 \<le> 12 \<and> 1 \<le> DateFromTime t \<and>
           DateFromTime t \<le> DaysInMonth (YearFromTime t) (MonthFromTime t))) \<and>
   (\<forall>y m d. 0 \<le> y \<and> y \<le> 9999 \<and> 1 \<le> m \<and> m \<le> 12 \<and> 1 \<le> d \<and> d \<le> DaysInMonth y (m - 1) \<longrightarrow>
      new_Date P (JStr (pad 4 y @ ''-'' @ pad 2 m @ ''-'' @ pad 2 d))
        = Inr (Some (MakeDate (MakeDay y (m - 1) d) 0)) \<and>
      YearFromTime (MakeDate (MakeDay y (m - 1) d) 0) = y \<and>
      MonthFromTime (MakeDate (MakeDay y (m - 1) d) 0) + 1 = m \<and>
      DateFromTime (MakeDate (MakeDay y (m - 1) d) 0) = d) \<and>
   normalizeRecord P (JObj [(''date'', JStr ''2024-03-05''), (''description'', JStr ''Coffee''),
       (''amount'', JNum (- 4.5))])
     = Inr (Some (JObj [(''date'', JStr ''20240305''), (''description'', JStr ''Coffee''),
         (''amount'', JNum (- 4.5))]))"
proof (intro conjI allI impI)
  show "normalizeRecord P (JObj tx) = Inr None \<longleftrightarrow>
      \<not> truthy (map_of tx ''date'') \<or> \<not> truthy (map_of tx ''description'') \<or>
      map_of tx ''amount'' = None \<or> new_Date P (the (map_of tx ''date'')) = Inr None"
    by (auto split: option.splits sum.splits)
next
  fix t
  assume a: "truthy (map_of tx ''date'') \<and> truthy (map_of tx ''description'') \<and>
        map_of tx ''amount'' \<noteq> None \<and> new_Date P (the (map_of tx ''date'')) = Inr (Some t) \<and>
        0 \<le> YearFromTime t \<and> YearFromTime t \<le> 9999"
  let ?d = "pad 4 (YearFromTime t) @ pad 2 (MonthFromTime t + 1) @ pad 2 (DateFromTime t)"
  have d: "remove_dashes (slice 0 10 (toISOString t)) = ?d"
    using ymd_of_toISOString [of t] a by simp
  have 1: "normalizeRecord P (JObj tx) = Inr (Some (JObj (set_property ''date'' (JStr ?d) tx)))"
    using a by (simp add: d)
  have 2: "length ?d = 8 \<and> list_all isDigit ?d \<and>
      1 \<le> MonthFromTime t + 1 \<and> MonthFromTime t + 1 \<le> 12 \<and> 1 \<le> DateFromTime t \<and>
      DateFromTime t \<le> DaysInMonth (YearFromTime t) (MonthFromTime t)"
    using ymd_digits [of t] MonthFromTime_range [of t] DateFromTime_range [of t] a
    unfolding d by simp
  show "\<exists>tx'. normalizeRecord P (JObj tx) = Inr (Some (JObj tx')) \<and>
           map_of tx' = (map_of tx)(''date'' \<mapsto> JStr ?d) \<and>
           length ?d = 8 \<and> list_all isDigit ?d \<and>
           1 \<le> MonthFromTime t + 1 \<and> MonthFromTime t + 1 \<le> 12 \<and> 1 \<le> DateFromTime t \<and>
           DateFromTime t \<le> DaysInMonth (YearFromTime t) (MonthFromTime t)"
    using 1 2 map_of_set_property [of "''date''" "JStr ?d" tx]
    by (intro exI [of _ "set_property ''date'' (JStr ?d) tx"]) blast
next
  fix y m d :: int
  assume "0 \<le> y \<and> y \<le> 9999 \<and> 1 \<le> m \<and> m \<le> 12 \<and> 1 \<le> d \<and> d \<le> DaysInMonth y (m - 1)"
  then show "new_Date P (JStr (pad 4 y @ ''-'' @ pad 2 m @ ''-'' @ pad 2 d))
        = Inr (Some (MakeDate (MakeDay y (m - 1) d) 0))"
    by (intro new_Date_iso) simp_all
next
  fix y m d :: int
  assume a: "0 \<le> y \<and> y \<le> 9999 \<and> 1 \<le> m \<and> m \<le> 12 \<and> 1 \<le> d \<and> d \<le> DaysInMonth y (m - 1)"
  then show "YearFromTime (MakeDate (MakeDay y (m - 1) d) 0) = y"
    using MakeDay_fields [of "m - 1" d y] by simp
  from a show "MonthFromTime (MakeDate (MakeDay y (m - 1) d) 0) + 1 = m"
    using MakeDay_fields [of "m - 1" d y] by simp
  from a show "DateFromTime (MakeDate (MakeDay y (m - 1) d) 0) = d"
    using MakeDay_fields [of "m - 1" d y] by simp
next
  have "new_Date P (JStr ''2024-03-05'') = Inr (Some 1709596800000)"
    by (simp add: new_Date_def Date_parse_def parse_2024_03_05)
  then show "normalizeRecord P (JObj [(''date'', JStr ''2024-03-05''), (''description'', JStr ''Coffee''),
       (''amount'', JNum (- 4.5))])
     = Inr (Some (JObj [(''date'', JStr ''20240305''), (''description'', JStr ''Coffee''),
         (''amount'', JNum (- 4.5))]))"
    by (simp add: ymd_2024_03_05)
qed

theorem normalizeRecord_object_witness:
  "\<exists>tx'. normalizeRecord (example_platform (always []))
       (JObj [(''date'', JStr ''2024-02-29''), (''description'', JStr ''Rent''),
              (''amount'', JNum 0), (''category'', JStr ''home'')])
       = Inr (Some (JObj tx')) \<and>
     map_of tx' = (map_of [(''date'', JStr ''2024-02-29''), (''description'', JStr ''Rent''),
              (''amount'', JNum 0), (''category'', JStr ''home'')])
         (''date'' \<mapsto> JStr ''20240229'')"
proof -
  let ?P = "example_platform (always [])"
  let ?tx = "[(''date'', JStr ''2024-02-29''), (''description'', JStr ''Rent''),
              (''amount'', JNum 0), (''category'', JStr ''home'')]"
  let ?t = "MakeDate (MakeDay 2024 (2 - 1) 29) 0"
  note main = normalizeRecord_object [of ?P ?tx]
  have v: "(0::int) \<le> 2024 \<and> (2024::int) \<le> 9999 \<and> (1::int) \<le> 2 \<and> (2::int) \<le> 12 \<and>
      (1::int) \<le> 29 \<and> 29 \<le> DaysInMonth 2024 (2 - 1)"
    by (simp add: DaysInMonth_def leap_def DaysInYear_def)
  have iso: "pad 4 2024 @ ''-'' @ pad 2 2 @ ''-'' @ pad 2 29 = ''2024-02-29''"
    and ymd: "pad 4 2024 @ pad 2 2 @ pad 2 29 = ''20240229''"
    by (simp_all add: pad_def padStart_def dec_small dec_large digit_def)
  from main v have "new_Date ?P (JStr (pad 4 2024 @ ''-'' @ pad 2 2 @ ''-'' @ pad 2 29)) = Inr (Some ?t) \<and>
      YearFromTime ?t = 2024 \<and> MonthFromTime ?t + 1 = 2 \<and> DateFromTime ?t = 29"
    by blast
  then have d: "new_Date ?P (JStr ''2024-02-29'') = Inr (Some ?t)"
    and f: "YearFromTime ?t = 2024" "MonthFromTime ?t + 1 = 2" "DateFromTime ?t = 29"
    unfolding iso by blast+
  have pre: "truthy (map_of ?tx ''date'') \<and> truthy (map_of ?tx ''description'') \<and>
        map_of ?tx ''amount'' \<noteq> None \<and> new_Date ?P (the (map_of ?tx ''date'')) = Inr (Some ?t) \<and>
        0 \<le> YearFromTime ?t \<and> YearFromTime ?t \<le> 9999"
    using d unfolding f by simp
  from main pre obtain tx' where
    "normalizeRecord ?P (JObj ?tx) = Inr (Some (JObj tx'))"
    "map_of tx' = (map_of ?tx)(''date'' \<mapsto>
       JStr (pad 4 (YearFromTime ?t) @ pad 2 (MonthFromTime ?t + 1) @ pad 2 (DateFromTime ?t)))"
    by blast
  then show ?thesis
    unfolding f ymd by blast
qed

text \<open>
  The claim as the specification has it fails on three records: one with all three fields and
  a date that parses, whose description is the empty string, is rejected; one whose date is
  the first day of the year 10000, in the expanded-year form of the standard's date format,
  is accepted with a date of nine characters; and for one whose date is an object with a
  property named \<^verbatim>\<open>toString\<close> the validator neither returns \<^verbatim>\<open>null\<close> nor a record, it throws.
\<close>

theorem normalizeRecord_counterexample:
  "map_of [(''date'', JStr ''2024-03-05''), (''description'', JStr []), (''amount'', JNum 1)]
     ''description'' = Some (JStr []) \<and>
   new_Date (example_platform (always [])) (JStr ''2024-03-05'') = Inr (Some 1709596800000) \<and>
   normalizeRecord (example_platform (always []))
     (JObj [(''date'', JStr ''2024-03-05''), (''description'', JStr []), (''amount'', JNum 1)])
     = Inr None \<and>
   new_Date (example_platform (always [])) (JStr ''+010000-01-01'')
     = Inr (Some 253402300800000) \<and>
   normalizeRecord (example_platform (always []))
     (JObj [(''date'', JStr ''+010000-01-01''), (''description'', JStr ''Coffee''),
            (''amount'', JNum 1)])
     = Inr (Some (JObj [(''date'', JStr ''+01000001''), (''description'', JStr ''Coffee''),
            (''amount'', JNum 1)])) \<and>
   length ''+01000001'' = 9 \<and>
   normalizeRecord (example_platform (always []))
     (JObj [(''date'', JObj [(''toString'', JNum 1)]), (''description'', JStr ''Coffee''),
            (''amount'', JNum 1)])
     = Inl ''TypeError: new Date(tx.date)''"
  by (simp add: new_Date_def Date_parse_def parse_2024_03_05 parse_year_10000 ymd_year_10000
      example_platform_def)

text \<open>
  Claim C10 fails on the code at the same date: the record survives validation, and its date
  is not a string of eight digits.
\<close>

theorem validatedTransactions_year_10000:
  "validatedTransactions P
     [JObj [(''date'', JStr ''+010000-01-01''), (''description'', JStr ''Rent''),
            (''amount'', JNum (- 1200))]]
     = Inr [JObj [(''date'', JStr ''+01000001''), (''description'', JStr ''Rent''),
            (''amount'', JNum (- 1200))]] \<and>
   length ''+01000001'' \<noteq> 8 \<and> \<not> list_all isDigit ''+01000001''"
  by (simp add: validatedTransactions_def new_Date_def Date_parse_def parse_year_10000
      ymd_year_10000 isDigit_def)

section \<open>Properties of the conversion run\<close>

text \<open>
  Claim C5. When the text of the file, trimmed, begins with \<open>OFXHEADER:\<close>, the run ends in
  success with the text of the file itself, untrimmed, as the document, and the run has done
  nothing: no call of the capability, no wait.
\<close>

theorem handleFileSelect_ofx_passthrough:
  assumes "readFileContent selectedFile = Inr fileContent"
    and "prefix ''OFXHEADER:'' (trim fileContent)"
  shows "handleFileSelect P now selectedFile =
           (\<lparr>currentFile = Some selectedFile, status = Success,
             statusMessage = ''Success! This file is already in OFX format.'',
             errorMessage = None, ofxContent = Some fileContent\<rparr>,
            \<lparr>calls = 0, draws = 0, trace = []\<rparr>)"
  using assms by (simp add: handleFileSelect_def initial_run_def)

theorem handleFileSelect_ofx_passthrough_witness:
  "prefix ''OFXHEADER:'' (trim ('' OFXHEADER:100'' @ [nl] @ ''DATA:OFXSGML'' @ [nl])) \<and>
   ofxContent (fst (handleFileSelect (example_platform (always json_coffee)) 0
     \<lparr>file_name = ''statement.txt'',
      readFileContent = Inr ('' OFXHEADER:100'' @ [nl] @ ''DATA:OFXSGML'' @ [nl])\<rparr>))
     = Some ('' OFXHEADER:100'' @ [nl] @ ''DATA:OFXSGML'' @ [nl]) \<and>
   calls (snd (handleFileSelect (example_platform (always json_coffee)) 0
     \<lparr>file_name = ''statement.txt'',
      readFileContent = Inr ('' OFXHEADER:100'' @ [nl] @ ''DATA:OFXSGML'' @ [nl])\<rparr>)) = 0"
proof -
  let ?c = "'' OFXHEADER:100'' @ [nl] @ ''DATA:OFXSGML'' @ [nl]"
  let ?f = "\<lparr>file_name = ''statement.txt'', readFileContent = Inr ?c\<rparr>"
  have r: "readFileContent ?f = Inr ?c"
    by simp
  have p: "prefix ''OFXHEADER:'' (trim ?c)"
    by code_simp
  have h: "handleFileSelect (example_platform (always json_coffee)) 0 ?f =
      (\<lparr>currentFile = Some ?f, status = Success,
        statusMessage = ''Success! This file is already in OFX format.'',
        errorMessage = None, ofxContent = Some ?c\<rparr>,
       \<lparr>calls = 0, draws = 0, trace = []\<rparr>)"
    by (rule handleFileSelect_ofx_passthrough [OF r p])
  show ?thesis
    unfolding h using p by simp
qed

text \<open>
  Claim C4. When the text is not already a document, every chunk has been extracted without
  error and the transactions gathered are none, the run ends in the state \<open>Error\<close> with the
  message that no transactions could be found, and there is no document.
\<close>

theorem handleFileSelect_no_transactions:
  assumes "readFileContent selectedFile = Inr fileContent"
    and "\<not> prefix ''OFXHEADER:'' (trim fileContent)"
    and "extractTransactionsFromStatement P fileContent (file_name selectedFile) initial_run
           = (Inr [], st)"
  shows "status (fst (handleFileSelect P now selectedFile)) = Error \<and>
         errorMessage (fst (handleFileSelect P now selectedFile)) = Some no_transactions_message \<and>
         ofxContent (fst (handleFileSelect P now selectedFile)) = None"
  using assms by (simp add: handleFileSelect_def failed_def no_transactions_message_def)

theorem handleFileSelect_no_transactions_witness:
  "\<not> prefix ''OFXHEADER:'' (trim ''2024-03-05 Coffee -4.50'') \<and>
   fst (extractTransactionsFromStatement (example_platform (always json_empty_array))
     ''2024-03-05 Coffee -4.50'' ''statement.txt'' initial_run) = Inr [] \<and>
   status (fst (handleFileSelect (example_platform (always json_empty_array)) 0
     \<lparr>file_name = ''statement.txt'', readFileContent = Inr ''2024-03-05 Coffee -4.50''\<rparr>)) = Error \<and>
   errorMessage (fst (handleFileSelect (example_platform (always json_empty_array)) 0
     \<lparr>file_name = ''statement.txt'', readFileContent = Inr ''2024-03-05 Coffee -4.50''\<rparr>))
     = Some no_transactions_message \<and>
   ofxContent (fst (handleFileSelect (example_platform (always json_empty_array)) 0
     \<lparr>file_name = ''statement.txt'', readFileContent = Inr ''2024-03-05 Coffee -4.50''\<rparr>)) = None"
proof -
  let ?c = "''2024-03-05 Coffee -4.50''"
  let ?P = "example_platform (always json_empty_array)"
  let ?f = "\<lparr>file_name = ''statement.txt'', readFileContent = Inr ?c\<rparr>"
  have r: "readFileContent ?f = Inr ?c"
    by simp
  have p: "\<not> prefix ''OFXHEADER:'' (trim ?c)"
    by code_simp
  have e: "fst (extractTransactionsFromStatement ?P ?c ''statement.txt'' initial_run) = Inr []"
    by code_simp
  then have x: "extractTransactionsFromStatement ?P ?c (file_name ?f) initial_run =
      (Inr [], snd (extractTransactionsFromStatement ?P ?c ''statement.txt'' initial_run))"
    by (simp add: prod_eq_iff)
  note h = handleFileSelect_no_transactions [OF r p x, of 0]
  show ?thesis
    using p e h by blast
qed

section \<open>Properties of the serializer\<close>

lemma insert_by_insort_key:
  assumes "\<forall>a b. ymd8 a \<and> ymd8 b \<longrightarrow> (localeCompare P a b \<le> 0 \<longleftrightarrow> a \<le> b)"
    and "ymd8 (date x)" and "\<forall>t \<in> set ys. ymd8 (date t)"
  shows "insert_by (\<lambda>a b. localeCompare P (date a) (date b)) x ys = insort_key date x ys"
  using assms(3)
proof (induction ys)
  case Nil
  then show ?case by simp
next
  case (Cons y ys)
  then have "localeCompare P (date x) (date y) \<le> 0 \<longleftrightarrow> date x \<le> date y"
    using assms(1,2) by simp
  then show ?case using Cons by simp
qed

lemma sortedTransactions_sort_key:
  assumes "\<forall>a b. ymd8 a \<and> ymd8 b \<longrightarrow> (localeCompare P a b \<le> 0 \<longleftrightarrow> a \<le> b)"
    and "\<forall>t \<in> set transactions. ymd8 (date t)"
  shows "sortedTransactions P transactions = sort_key date transactions"
  using assms(2)
proof (induction transactions)
  case Nil
  then show ?case by (simp add: sortedTransactions_def Array_sort_def)
next
  case (Cons t ts)
  then have ih: "foldr (insert_by (\<lambda>a b. localeCompare P (date a) (date b))) ts [] = sort_key date ts"
    by (simp add: sortedTransactions_def Array_sort_def)
  have "\<forall>u \<in> set (sort_key date ts). ymd8 (date u)"
    using Cons.prems by simp
  then show ?case
    using insert_by_insort_key [OF assms(1), of t "sort_key date ts"] Cons.prems ih
    by (simp add: sortedTransactions_def Array_sort_def sort_key_def)
qed

lemma set_insert_by: "set (insert_by cmp x ys) = insert x (set ys)"
  by (induction ys) auto

lemma length_insert_by: "length (insert_by cmp x ys) = Suc (length ys)"
  by (induction ys) auto

lemma set_Array_sort: "set (Array_sort cmp xs) = set xs"
  by (induction xs) (simp_all add: Array_sort_def set_insert_by)

lemma length_Array_sort: "length (Array_sort cmp xs) = length xs"
  by (induction xs) (simp_all add: Array_sort_def length_insert_by)

lemma sortedTransactions_Nil_iff: "sortedTransactions P transactions = [] \<longleftrightarrow> transactions = []"
  using length_Array_sort [of "\<lambda>a b. localeCompare P (date a) (date b)" transactions]
  by (auto simp: sortedTransactions_def simp del: length_0_conv dest: arg_cong [where f = length])

lemma sortedTransactions_Nil: "sortedTransactions P [] = []"
  by (simp add: sortedTransactions_def Array_sort_def)

lemma trim_ends:
  assumes "\<not> isWhiteSpace c" "\<not> isWhiteSpace e"
  shows "trim (c # m @ [e, nl]) = c # m @ [e]"
  using assms by (simp add: trim_def isWhiteSpace_def nl_def)

lemma document_head_Cons:
  "document_head created = CHR ''O'' # tl (document_head created)"
  by (simp add: document_head_def)

lemma document_tail_snoc:
  "document_tail created = butlast (butlast (document_tail created)) @ [CHR ''>'', nl]"
  by (simp add: document_tail_def butlast_append)

lemma createOfxContent_untrimmed:
  "createOfxContent P now transactions =
     document_head (dateCreated P now) @
     ''<DTSTART>'' @ startDate P now transactions @ ''</DTSTART>'' @ [nl] @
     ''<DTEND>'' @ endDate P now transactions @ ''</DTEND>'' @
     transactionListString P transactions @
     butlast (document_tail (dateCreated P now))"
proof -
  define h where "h = tl (document_head (dateCreated P now))"
  define t where "t = butlast (butlast (document_tail (dateCreated P now)))"
  define m where "m = ''<DTSTART>'' @ startDate P now transactions @ ''</DTSTART>'' @ [nl] @
     ''<DTEND>'' @ endDate P now transactions @ ''</DTEND>'' @ transactionListString P transactions"
  have hd: "document_head (dateCreated P now) = CHR ''O'' # h"
    unfolding h_def by (rule document_head_Cons)
  have tl: "document_tail (dateCreated P now) = t @ [CHR ''>'', nl]"
    unfolding t_def by (rule document_tail_snoc)
  have "createOfxContent P now transactions = trim (CHR ''O'' # (h @ m @ t) @ [CHR ''>'', nl])"
    by (simp add: createOfxContent_def hd tl m_def)
  also have "\<dots> = CHR ''O'' # (h @ m @ t) @ [CHR ''>'']"
    by (rule trim_ends) (simp_all add: isWhiteSpace_def)
  finally show ?thesis
    by (simp add: hd tl m_def butlast_append)
qed

lemma render_transaction_explicit:
  "render_transaction P = (\<lambda>(index, t).
     [nl] @ ''<STMTTRN>'' @ [nl] @
     ''<TRNTYPE>'' @ (if amount t > 0 then ''CREDIT'' else ''DEBIT'') @ ''</TRNTYPE>'' @ [nl] @
     ''<DTPOSTED>'' @ date t @ ''</DTPOSTED>'' @ [nl] @
     ''<TRNAMT>'' @ toFixed (Number_toString P) 2 (amount t) @ ''</TRNAMT>'' @ [nl] @
     ''<FITID>'' @ generateUniqueId (Number_toString P) t index @ ''</FITID>'' @ [nl] @
     ''<MEMO>'' @ escape_memo (description t) @ ''</MEMO>'' @ [nl] @
     ''</STMTTRN>'')"
  by (simp add: render_transaction_def fun_eq_iff)

lemma startDate_hd:
  "startDate P now transactions =
     (if transactions = [] then dateCreated P now else date (hd (sortedTransactions P transactions)))"
  using sortedTransactions_Nil_iff [of P transactions]
  by (auto simp: startDate_def hd_conv_nth)

lemma endDate_last:
  "endDate P now transactions =
     (if transactions = [] then dateCreated P now else date (last (sortedTransactions P transactions)))"
  using sortedTransactions_Nil_iff [of P transactions]
  by (auto simp: endDate_def last_conv_nth)

lemma createOfxContent_explicit:
  "createOfxContent P now transactions =
     document_head (dateCreated P now) @
     ''<DTSTART>'' @
     (if transactions = [] then dateCreated P now else date (hd (sortedTransactions P transactions))) @
     ''</DTSTART>'' @ [nl] @
     ''<DTEND>'' @
     (if transactions = [] then dateCreated P now else date (last (sortedTransactions P transactions))) @
     ''</DTEND>'' @
     concat (map (\<lambda>(index, t).
       [nl] @ ''<STMTTRN>'' @ [nl] @
       ''<TRNTYPE>'' @ (if amount t > 0 then ''CREDIT'' else ''DEBIT'') @ ''</TRNTYPE>'' @ [nl] @
       ''<DTPOSTED>'' @ date t @ ''</DTPOSTED>'' @ [nl] @
       ''<TRNAMT>'' @ toFixed (Number_toString P) 2 (amount t) @ ''</TRNAMT>'' @ [nl] @
       ''<FITID>'' @ generateUniqueId (Number_toString P) t index @ ''</FITID>'' @ [nl] @
       ''<MEMO>'' @ escape_memo (description t) @ ''</MEMO>'' @ [nl] @
       ''</STMTTRN>'') (enumerate 0 (sortedTransactions P transactions))) @
     butlast (document_tail (dateCreated P now))"
  unfolding createOfxContent_untrimmed transactionListString_def render_transaction_explicit
    startDate_hd endDate_last ..

lemma fields_epoch:
  "YearFromTime 0 = 1970 \<and> MonthFromTime 0 = 0 \<and> DateFromTime 0 = 1"
  using MakeDay_fields [of 0 1 1970]
  by (simp add: MakeDate_def MakeDay_def msPerDay_def DayFromYear_def days_before_month_def
      DaysInMonth_def leap_def DaysInYear_def)

lemma fields_next_day:
  "YearFromTime 86400000 = 1970 \<and> MonthFromTime 86400000 = 0 \<and> DateFromTime 86400000 = 2"
  using MakeDay_fields [of 0 2 1970]
  by (simp add: MakeDate_def MakeDay_def msPerDay_def DayFromYear_def days_before_month_def
      DaysInMonth_def leap_def DaysInYear_def)

lemma dateCreated_epoch: "dateCreated (example_platform r) 0 = ''19700101''"
  by (simp add: dateCreated_def LocalTime_def example_platform_def fields_epoch dec_int_def
      padStart_def dec_small dec_large digit_def)

lemma dateCreated_next_day: "dateCreated (example_platform r) 86400000 = ''19700102''"
  by (simp add: dateCreated_def LocalTime_def example_platform_def fields_next_day dec_int_def
      padStart_def dec_small dec_large digit_def)

lemma sorted_march_and_january:
  "sortedTransactions (example_platform (always [])) march_and_january =
     [\<lparr>date = ''20240105'', description = ''Salary'', amount = 3000\<rparr>,
      \<lparr>date = ''20240310'', description = ''Rent'', amount = - 1200\<rparr>]"
  by (simp add: sortedTransactions_def Array_sort_def march_and_january_def example_platform_def)

lemma floor_numeral_divide: "\<lfloor>(numeral a :: rat) / numeral b\<rfloor> = numeral a div numeral b"
  using floor_divide_of_int_eq [of "numeral a" "numeral b", where ?'a = rat] by simp

lemma records_march_and_january:
  "toFixed ns 2 3000 = ''3000.00''" "toFixed ns 2 (- 1200) = ''-1200.00''"
  "generateUniqueId ns \<lparr>date = ''20240105'', description = ''Salary'', amount = 3000\<rparr> 0
     = ''20240105-3000.00-Salary-0''"
  "generateUniqueId ns \<lparr>date = ''20240310'', description = ''Rent'', amount = - 1200\<rparr> (Suc 0)
     = ''20240310--1200.00-Rent-1''"
  "escape_memo ''Salary'' = ''Salary''" "escape_memo ''Rent'' = ''Rent''"
  by (simp_all add: generateUniqueId_def toFixed_def Let_def padStart_def floor_numeral_divide
      dec_small dec_large digit_def slice_def isAlnum_def less_eq_char_def escape_memo_def
      replace_all_def)

text \<open>
  Claim C6. When every date is a string of eight digits, and the collation of the host orders
  such strings as their code units do, the sequence the serializer renders is the input
  sorted by date ascending: sorted in the lexicographic order of the strings, a permutation
  of the input, and stable (the records of any one date keep their input order). The
  document is the head of the template, \<open>DTSTART\<close> with the date of the first and \<open>DTEND\<close> with
  the date of the last record of that sequence, then one block for each of its records in
  that order, holding the date of the record in \<open>DTPOSTED\<close>, then the rest of the template;
  for the empty input both bounds are the current date.
\<close>

theorem createOfxContent_sorted_by_date:
  assumes "\<forall>t \<in> set transactions. ymd8 (date t)"
    and "\<forall>a b. ymd8 a \<and> ymd8 b \<longrightarrow> (localeCompare P a b \<le> 0 \<longleftrightarrow> a \<le> b)"
  shows "sorted (map date (sortedTransactions P transactions)) \<and>
    mset (sortedTransactions P transactions) = mset transactions \<and>
    (\<forall>k. filter (\<lambda>t. date t = k) (sortedTransactions P transactions)
           = filter (\<lambda>t. date t = k) transactions) \<and>
    createOfxContent P now transactions =
     document_head (dateCreated P now) @
     ''<DTSTART>'' @
     (if transactions = [] then dateCreated P now else date (hd (sortedTransactions P transactions))) @
     ''</DTSTART>'' @ [nl] @
     ''<DTEND>'' @
     (if transactions = [] then dateCreated P now else date (last (sortedTransactions P transactions))) @
     ''</DTEND>'' @
     concat (map (\<lambda>(index, t).
       [nl] @ ''<STMTTRN>'' @ [nl] @
       ''<TRNTYPE>'' @ (if amount t > 0 then ''CREDIT'' else ''DEBIT'') @ ''</TRNTYPE>'' @ [nl] @
       ''<DTPOSTED>'' @ date t @ ''</DTPOSTED>'' @ [nl] @
       ''<TRNAMT>'' @ toFixed (Number_toString P) 2 (amount t) @ ''</TRNAMT>'' @ [nl] @
       ''<FITID>'' @ generateUniqueId (Number_toString P) t index @ ''</FITID>'' @ [nl] @
       ''<MEMO>'' @ escape_memo (description t) @ ''</MEMO>'' @ [nl] @
       ''</STMTTRN>'') (enumerate 0 (sortedTransactions P transactions))) @
     butlast (document_tail (dateCreated P now))"
proof -
  have s: "sortedTransactions P transactions = sort_key date transactions"
    using assms by (intro sortedTransactions_sort_key) simp_all
  have 1: "sorted (map date (sortedTransactions P transactions))"
    unfolding s by (rule sorted_sort_key)
  have 2: "mset (sortedTransactions P transactions) = mset transactions"
    unfolding s by simp
  have 3: "\<forall>k. filter (\<lambda>t. date t = k) (sortedTransactions P transactions)
           = filter (\<lambda>t. date t = k) transactions"
    unfolding s by (simp add: sort_key_stable)
  from 1 2 3 createOfxContent_explicit [of P now transactions] show ?thesis
    by blast
qed

theorem createOfxContent_sorted_by_date_witness:
  "sortedTransactions (example_platform (always [])) march_and_january =
     [\<lparr>date = ''20240105'', description = ''Salary'', amount = 3000\<rparr>,
      \<lparr>date = ''20240310'', description = ''Rent'', amount = - 1200\<rparr>] \<and>
   sorted (map date (sortedTransactions (example_platform (always [])) march_and_january)) \<and>
   mset (sortedTransactions (example_platform (always [])) march_and_january)
     = mset march_and_january \<and>
   createOfxContent (example_platform (always [])) 0 march_and_january =
     document_head ''19700101'' @
     ''<DTSTART>20240105</DTSTART>'' @ [nl] @ ''<DTEND>20240310</DTEND>'' @
     [nl] @ ''<STMTTRN>'' @ [nl] @ ''<TRNTYPE>CREDIT</TRNTYPE>'' @ [nl] @
     ''<DTPOSTED>20240105</DTPOSTED>'' @ [nl] @ ''<TRNAMT>3000.00</TRNAMT>'' @ [nl] @
     ''<FITID>20240105-3000.00-Salary-0</FITID>'' @ [nl] @ ''<MEMO>Salary</MEMO>'' @ [nl] @
     ''</STMTTRN>'' @
     [nl] @ ''<STMTTRN>'' @ [nl] @ ''<TRNTYPE>DEBIT</TRNTYPE>'' @ [nl] @
     ''<DTPOSTED>20240310</DTPOSTED>'' @ [nl] @ ''<TRNAMT>-1200.00</TRNAMT>'' @ [nl] @
     ''<FITID>20240310--1200.00-Rent-1</FITID>'' @ [nl] @ ''<MEMO>Rent</MEMO>'' @ [nl] @
     ''</STMTTRN>'' @
     butlast (document_tail ''19700101'')"
proof -
  let ?P = "example_platform (always [])"
  have h1: "\<forall>t \<in> set march_and_january. ymd8 (date t)"
    by (simp add: march_and_january_def ymd8_def isDigit_def)
  have h2: "\<forall>a b. ymd8 a \<and> ymd8 b \<longrightarrow> (localeCompare ?P a b \<le> 0 \<longleftrightarrow> a \<le> b)"
    by (auto simp: example_platform_def)
  note main = createOfxContent_sorted_by_date [OF h1 h2, of 0]
  have ne: "march_and_january \<noteq> []"
    by (simp add: march_and_january_def)
  from main have "createOfxContent ?P 0 march_and_january =
     document_head (dateCreated (example_platform (always [])) 0) @
     ''<DTSTART>'' @
     (if march_and_january = [] then dateCreated (example_platform (always [])) 0 else date (hd (sortedTransactions (example_platform (always [])) march_and_january))) @
     ''</DTSTART>'' @ [nl] @
     ''<DTEND>'' @
     (if march_and_january = [] then dateCreated (example_platform (always [])) 0 else date (last (sortedTransactions (example_platform (always [])) march_and_january))) @
     ''</DTEND>'' @
     concat (map (\<lambda>(index, t).
       [nl] @ ''<STMTTRN>'' @ [nl] @
       ''<TRNTYPE>'' @ (if amount t > 0 then ''CREDIT'' else ''DEBIT'') @ ''</TRNTYPE>'' @ [nl] @
       ''<DTPOSTED>'' @ date t @ ''</DTPOSTED>'' @ [nl] @
       ''<TRNAMT>'' @ toFixed (Number_toString (example_platform (always []))) 2 (amount t) @ ''</TRNAMT>'' @ [nl] @
       ''<FITID>'' @ generateUniqueId (Number_toString (example_platform (always []))) t index @ ''</FITID>'' @ [nl] @
       ''<MEMO>'' @ escape_memo (description t) @ ''</MEMO>'' @ [nl] @
       ''</STMTTRN>'') (enumerate 0 (sortedTransactions (example_platform (always [])) march_and_january))) @
     butlast (document_tail (dateCreated (example_platform (always [])) 0))"
    by blast
  then have d: "createOfxContent ?P 0 march_and_january =
     document_head ''19700101'' @
     ''<DTSTART>20240105</DTSTART>'' @ [nl] @ ''<DTEND>20240310</DTEND>'' @
     [nl] @ ''<STMTTRN>'' @ [nl] @ ''<TRNTYPE>CREDIT</TRNTYPE>'' @ [nl] @
     ''<DTPOSTED>20240105</DTPOSTED>'' @ [nl] @ ''<TRNAMT>3000.00</TRNAMT>'' @ [nl] @
     ''<FITID>20240105-3000.00-Salary-0</FITID>'' @ [nl] @ ''<MEMO>Salary</MEMO>'' @ [nl] @
     ''</STMTTRN>'' @
     [nl] @ ''<STMTTRN>'' @ [nl] @ ''<TRNTYPE>DEBIT</TRNTYPE>'' @ [nl] @
     ''<DTPOSTED>20240310</DTPOSTED>'' @ [nl] @ ''<TRNAMT>-1200.00</TRNAMT>'' @ [nl] @
     ''<FITID>20240310--1200.00-Rent-1</FITID>'' @ [nl] @ ''<MEMO>Rent</MEMO>'' @ [nl] @
     ''</STMTTRN>'' @
     butlast (document_tail ''19700101'')"
    unfolding sorted_march_and_january dateCreated_epoch
    by (simp add: ne enumerate_eq_zip upt_rec records_march_and_january)
  from main have "sorted (map date (sortedTransactions ?P march_and_january))"
    "mset (sortedTransactions ?P march_and_january) = mset march_and_january"
    by blast+
  with sorted_march_and_january d show ?thesis
    by blast
qed

lemma generateUniqueId_take: "generateUniqueId ns t i = take 255 (untruncated_id ns t i)"
  by (simp add: generateUniqueId_def untruncated_id_def slice_def)

lemma not_isDigit_dash: "\<not> isDigit CHR ''-''"
  by (simp add: isDigit_def)

lemma digits_after_last_dash:
  "takeWhile isDigit (rev (a @ ''-'' @ dec i)) = rev (dec i)"
proof -
  have "\<forall>c \<in> set (rev (dec i)). isDigit c"
    using dec_digits [of i] by (simp add: list_all_iff)
  then have "takeWhile isDigit (rev (dec i) @ CHR ''-'' # rev a) = rev (dec i)"
    by (subst takeWhile_append2) (simp_all add: not_isDigit_dash)
  then show ?thesis by simp
qed

lemma dec_inj:
  assumes "dec i = dec j"
  shows "i = j"
proof -
  have "int i = number_of (dec i)" by (simp only: number_of_dec)
  also have "\<dots> = number_of (dec j)" by (simp only: assms)
  also have "\<dots> = int j" by (simp only: number_of_dec)
  finally show ?thesis by (simp only: of_nat_eq_iff)
qed

lemma untruncated_id_inj:
  assumes "untruncated_id ns t i = untruncated_id ns u j"
  shows "i = j"
proof -
  define a where "a = date t @ ''-'' @ toFixed ns 2 (amount t) @ ''-'' @
    take 50 (filter isAlnum (description t))"
  define b where "b = date u @ ''-'' @ toFixed ns 2 (amount u) @ ''-'' @
    take 50 (filter isAlnum (description u))"
  have ta: "untruncated_id ns t i = a @ ''-'' @ dec i"
    by (simp add: untruncated_id_def a_def)
  have ub: "untruncated_id ns u j = b @ ''-'' @ dec j"
    by (simp add: untruncated_id_def b_def)
  have "a @ ''-'' @ dec i = b @ ''-'' @ dec j"
    using assms by (simp only: ta ub)
  then have "takeWhile isDigit (rev (a @ ''-'' @ dec i)) = takeWhile isDigit (rev (b @ ''-'' @ dec j))"
    by (rule arg_cong)
  then have "rev (dec i) = rev (dec j)"
    by (simp only: digits_after_last_dash)
  then have "dec i = dec j"
    by (simp only: rev_is_rev_conv)
  then show ?thesis
    by (rule dec_inj)
qed

lemma distinct_ids:
  assumes "\<forall>i < length s. length (untruncated_id ns (s ! i) i) \<le> 255"
  shows "distinct (map (\<lambda>(i, t). generateUniqueId ns t i) (enumerate 0 s))"
proof -
  have n: "map (\<lambda>(i, t). generateUniqueId ns t i) (enumerate 0 s) ! i = untruncated_id ns (s ! i) i"
    if "i < length s" for i
    using that assms by (simp add: nth_enumerate_eq generateUniqueId_take)
  show ?thesis
    unfolding distinct_conv_nth
  proof (intro allI impI)
    fix i j
    assume "i < length (map (\<lambda>(i, t). generateUniqueId ns t i) (enumerate 0 s))"
      "j < length (map (\<lambda>(i, t). generateUniqueId ns t i) (enumerate 0 s))" "i \<noteq> j"
    then have "i < length s" "j < length s" by simp_all
    then show "map (\<lambda>(i, t). generateUniqueId ns t i) (enumerate 0 s) ! i \<noteq>
        map (\<lambda>(i, t). generateUniqueId ns t i) (enumerate 0 s) ! j"
      using n untruncated_id_inj [of ns "s ! i" i "s ! j" j] \<open>i \<noteq> j\<close> by auto
  qed
qed

lemma padStart_length: "length (padStart n c s) = max n (length s)"
  by (simp add: padStart_def)

lemma padStart_digits: "list_all isDigit s \<Longrightarrow> list_all isDigit (padStart n CHR ''0'' s)"
  by (auto simp: padStart_def isDigit_0 list_all_iff)

lemma toFixed_small:
  assumes "\<bar>x\<bar> < 10 ^ 21" and "m = padStart 3 CHR ''0'' (dec (nat \<lfloor>\<bar>x\<bar> * 100 + 1 / 2\<rfloor>))"
  shows "toFixed ns 2 x = (if x < 0 then ''-'' else []) @
           take (length m - 2) m @ ''.'' @ drop (length m - 2) m"
proof -
  have "\<not> 10 ^ 21 \<le> \<bar>x\<bar>" using assms(1) by (simp only: not_le)
  then show ?thesis
    unfolding toFixed_def Let_def assms(2) by (simp only: if_False) simp
qed

lemma toFixed_two_decimals:
  assumes "\<bar>x\<bar> < 10 ^ 21"
  shows "\<exists>ds d1 d2. toFixed ns 2 x = (if x < 0 then ''-'' else []) @ ds @ ''.'' @ [d1, d2] \<and>
           ds \<noteq> [] \<and> list_all isDigit (ds @ [d1, d2])"
proof -
  define m where "m = padStart 3 CHR ''0'' (dec (nat \<lfloor>\<bar>x\<bar> * 100 + 1 / 2\<rfloor>))"
  have k: "3 \<le> length m" by (simp add: m_def padStart_length)
  have dg: "list_all isDigit m" unfolding m_def by (intro padStart_digits dec_digits)
  have "length (drop (length m - 2) m) = 2" using k by simp
  then obtain d1 d2 where d: "drop (length m - 2) m = [d1, d2]"
    using list2 by blast
  have ne: "take (length m - 2) m \<noteq> []" using k by auto
  have "list_all isDigit (take (length m - 2) m @ drop (length m - 2) m)"
    using dg by simp
  then have "list_all isDigit (take (length m - 2) m @ [d1, d2])"
    unfolding d .
  then show ?thesis
    using toFixed_small [OF assms m_def, of ns] d ne
    by (intro exI [of _ "take (length m - 2) m"] exI [of _ d1] exI [of _ d2]) simp
qed

lemma toFixed_length:
  assumes "\<bar>x\<bar> < 10 ^ 21"
  shows "length (toFixed ns 2 x) \<le> 26"
proof -
  define n where "n = nat \<lfloor>\<bar>x\<bar> * 100 + 1 / 2\<rfloor>"
  define m where "m = padStart 3 CHR ''0'' (dec n)"
  have "\<bar>x\<bar> * 100 + 1 / 2 < 10 ^ 21 * 100 + 1"
    using assms by linarith
  also have "\<dots> \<le> 10 ^ 24" by simp
  finally have "\<lfloor>\<bar>x\<bar> * 100 + 1 / 2\<rfloor> < 10 ^ 24"
    by (simp only: floor_less_iff of_int_power of_int_numeral)
  then have "nat \<lfloor>\<bar>x\<bar> * 100 + 1 / 2\<rfloor> < nat (10 ^ 24)"
    by (subst nat_mono_iff) simp_all
  also have "nat (10 ^ 24) = (10 ^ 24 :: nat)"
    by (simp add: nat_power_eq)
  finally have "n < 10 ^ 24"
    unfolding n_def .
  then have "length (dec n) \<le> 24"
    by (intro dec_length) simp_all
  then have "length m \<le> 24" "2 \<le> length m"
    by (simp_all add: m_def padStart_length)
  then show ?thesis
    unfolding toFixed_small [OF assms m_def [unfolded n_def]] by simp
qed

lemma untruncated_id_length:
  assumes "length (date t) \<le> 10" "length (toFixed ns 2 (amount t)) \<le> 100" "i < 2 ^ 32"
  shows "length (untruncated_id ns t i) \<le> 255"
proof -
  have "i < 10 ^ 10"
    using assms(3) by simp
  then have "length (dec i) \<le> 10"
    by (intro dec_length) simp_all
  then show ?thesis
    using assms(1,2) by (simp add: untruncated_id_def)
qed

lemma toFixed_large:
  "10 ^ 21 \<le> \<bar>x\<bar> \<Longrightarrow> toFixed ns f x = (if x < 0 then ''-'' else []) @ ns \<bar>x\<bar>"
  by (simp add: toFixed_def)

lemma sorted_sextillion:
  "sortedTransactions P sextillion = sextillion"
  by (simp add: sortedTransactions_def Array_sort_def sextillion_def)


text \<open>
  Claim C7, as amended. In the document every record of the sorted sequence has its block,
  and the \<open>FITID\<close> of the record at position \<open>i\<close> is its date, its amount as \<^verbatim>\<open>toFixed(2)\<close>
  prints it, its description reduced to its first 50 letters and digits, and \<open>i\<close> in decimal,
  joined by hyphens, the whole cut to 255 characters; so it has at most 255 characters.
  \<^verbatim>\<open>toFixed(2)\<close> prints an amount below \<open>10\<^sup>2\<^sup>1\<close> in magnitude with exactly two decimals, in at
  most 26 characters, and a larger one as \<^verbatim>\<open>Number.prototype.toString\<close> prints its magnitude.
  The identifiers of one document are pairwise distinct when every date has at most ten
  characters, as the eight digits of a canonical date have, every amount prints in at most
  100 characters, and the records are fewer than \<open>2\<^sup>3\<^sup>2\<close>, the bound of the language on the
  length of an array.
\<close>

theorem generateUniqueId_in_document:
  "createOfxContent P now transactions =
     document_head (dateCreated P now) @
     ''<DTSTART>'' @
     (if transactions = [] then dateCreated P now else date (hd (sortedTransactions P transactions))) @
     ''</DTSTART>'' @ [nl] @
     ''<DTEND>'' @
     (if transactions = [] then dateCreated P now else date (last (sortedTransactions P transactions))) @
     ''</DTEND>'' @
     concat (map (\<lambda>(index, t).
       [nl] @ ''<STMTTRN>'' @ [nl] @
       ''<TRNTYPE>'' @ (if amount t > 0 then ''CREDIT'' else ''DEBIT'') @ ''</TRNTYPE>'' @ [nl] @
       ''<DTPOSTED>'' @ date t @ ''</DTPOSTED>'' @ [nl] @
       ''<TRNAMT>'' @ toFixed (Number_toString P) 2 (amount t) @ ''</TRNAMT>'' @ [nl] @
       ''<FITID>'' @ generateUniqueId (Number_toString P) t index @ ''</FITID>'' @ [nl] @
       ''<MEMO>'' @ escape_memo (description t) @ ''</MEMO>'' @ [nl] @
       ''</STMTTRN>'') (enumerate 0 (sortedTransactions P transactions))) @
     butlast (document_tail (dateCreated P now)) \<and>
   (\<forall>t i. generateUniqueId (Number_toString P) t i =
        take 255 (date t @ ''-'' @ toFixed (Number_toString P) 2 (amount t) @ ''-'' @
          take 50 (filter isAlnum (description t)) @ ''-'' @ dec i) \<and>
      length (generateUniqueId (Number_toString P) t i) \<le> 255) \<and>
   (\<forall>x. \<bar>x\<bar> < 10 ^ 21 \<longrightarrow>
      (\<exists>ds d1 d2. toFixed (Number_toString P) 2 x =
           (if x < 0 then ''-'' else []) @ ds @ ''.'' @ [d1, d2] \<and>
         ds \<noteq> [] \<and> list_all isDigit (ds @ [d1, d2])) \<and>
      length (toFixed (Number_toString P) 2 x) \<le> 26) \<and>
   (\<forall>x. 10 ^ 21 \<le> \<bar>x\<bar> \<longrightarrow>
      toFixed (Number_toString P) 2 x = (if x < 0 then ''-'' else []) @ Number_toString P \<bar>x\<bar>) \<and>
   ((\<forall>t \<in> set transactions. length (date t) \<le> 10 \<and>
        length (toFixed (Number_toString P) 2 (amount t)) \<le> 100) \<and>
    length transactions < 2 ^ 32 \<longrightarrow>
    distinct (map (\<lambda>(index, t). generateUniqueId (Number_toString P) t index)
      (enumerate 0 (sortedTransactions P transactions))))"
proof (intro conjI allI impI)
  show "createOfxContent P now transactions =
     document_head (dateCreated P now) @
     ''<DTSTART>'' @
     (if transactions = [] then dateCreated P now else date (hd (sortedTransactions P transactions))) @
     ''</DTSTART>'' @ [nl] @
     ''<DTEND>'' @
     (if transactions = [] then dateCreated P now else date (last (sortedTransactions P transactions))) @
     ''</DTEND>'' @
     concat (map (\<lambda>(index, t).
       [nl] @ ''<STMTTRN>'' @ [nl] @
       ''<TRNTYPE>'' @ (if amount t > 0 then ''CREDIT'' else ''DEBIT'') @ ''</TRNTYPE>'' @ [nl] @
       ''<DTPOSTED>'' @ date t @ ''</DTPOSTED>'' @ [nl] @
       ''<TRNAMT>'' @ toFixed (Number_toString P) 2 (amount t) @ ''</TRNAMT>'' @ [nl] @
       ''<FITID>'' @ generateUniqueId (Number_toString P) t index @ ''</FITID>'' @ [nl] @
       ''<MEMO>'' @ escape_memo (description t) @ ''</MEMO>'' @ [nl] @
       ''</STMTTRN>'') (enumerate 0 (sortedTransactions P transactions))) @
     butlast (document_tail (dateCreated P now))"
    by (rule createOfxContent_explicit)
next
  fix t i
  show "generateUniqueId (Number_toString P) t i =
        take 255 (date t @ ''-'' @ toFixed (Number_toString P) 2 (amount t) @ ''-'' @
          take 50 (filter isAlnum (description t)) @ ''-'' @ dec i)"
    by (simp add: generateUniqueId_take untruncated_id_def)
  show "length (generateUniqueId (Number_toString P) t i) \<le> 255"
    by (simp add: generateUniqueId_take)
next
  fix x :: rat
  assume "\<bar>x\<bar> < 10 ^ 21"
  then show "\<exists>ds d1 d2. toFixed (Number_toString P) 2 x =
           (if x < 0 then ''-'' else []) @ ds @ ''.'' @ [d1, d2] \<and>
         ds \<noteq> [] \<and> list_all isDigit (ds @ [d1, d2])"
    by (rule toFixed_two_decimals)
next
  fix x :: rat
  assume "\<bar>x\<bar> < 10 ^ 21"
  then show "length (toFixed (Number_toString P) 2 x) \<le> 26"
    by (rule toFixed_length)
next
  fix x :: rat
  assume "10 ^ 21 \<le> \<bar>x\<bar>"
  then show "toFixed (Number_toString P) 2 x =
      (if x < 0 then ''-'' else []) @ Number_toString P \<bar>x\<bar>"
    by (rule toFixed_large)
next
  assume a: "(\<forall>t \<in> set transactions. length (date t) \<le> 10 \<and>
        length (toFixed (Number_toString P) 2 (amount t)) \<le> 100) \<and>
    length transactions < 2 ^ 32"
  have "length (untruncated_id (Number_toString P) (sortedTransactions P transactions ! i) i) \<le> 255"
    if "i < length (sortedTransactions P transactions)" for i
  proof -
    have "sortedTransactions P transactions ! i \<in> set transactions"
      using that set_Array_sort [of "\<lambda>a b. localeCompare P (date a) (date b)" transactions]
        nth_mem [OF that] by (simp add: sortedTransactions_def)
    moreover have "i < 2 ^ 32"
      using that a length_Array_sort [of "\<lambda>a b. localeCompare P (date a) (date b)" transactions]
      by (simp add: sortedTransactions_def)
    ultimately show ?thesis
      using a by (intro untruncated_id_length) auto
  qed
  then show "distinct (map (\<lambda>(index, t). generateUniqueId (Number_toString P) t index)
      (enumerate 0 (sortedTransactions P transactions)))"
    by (intro distinct_ids) simp
qed

theorem generateUniqueId_in_document_witness:
  "createOfxContent (example_platform (always [])) 0 march_and_january =
     document_head ''19700101'' @
     ''<DTSTART>20240105</DTSTART>'' @ [nl] @ ''<DTEND>20240310</DTEND>'' @
     [nl] @ ''<STMTTRN>'' @ [nl] @ ''<TRNTYPE>CREDIT</TRNTYPE>'' @ [nl] @
     ''<DTPOSTED>20240105</DTPOSTED>'' @ [nl] @ ''<TRNAMT>3000.00</TRNAMT>'' @ [nl] @
     ''<FITID>20240105-3000.00-Salary-0</FITID>'' @ [nl] @ ''<MEMO>Salary</MEMO>'' @ [nl] @
     ''</STMTTRN>'' @
     [nl] @ ''<STMTTRN>'' @ [nl] @ ''<TRNTYPE>DEBIT</TRNTYPE>'' @ [nl] @
     ''<DTPOSTED>20240310</DTPOSTED>'' @ [nl] @ ''<TRNAMT>-1200.00</TRNAMT>'' @ [nl] @
     ''<FITID>20240310--1200.00-Rent-1</FITID>'' @ [nl] @ ''<MEMO>Rent</MEMO>'' @ [nl] @
     ''</STMTTRN>'' @
     butlast (document_tail ''19700101'') \<and>
   map (\<lambda>(index, t). generateUniqueId (Number_toString (example_platform (always []))) t index)
     (enumerate 0 (sortedTransactions (example_platform (always [])) march_and_january))
     = [''20240105-3000.00-Salary-0'', ''20240310--1200.00-Rent-1''] \<and>
   distinct (map (\<lambda>(index, t).
       generateUniqueId (Number_toString (example_platform (always []))) t index)
     (enumerate 0 (sortedTransactions (example_platform (always [])) march_and_january)))"
proof -
  let ?P = "example_platform (always [])"
  note main = generateUniqueId_in_document [of ?P 0 march_and_january]
  have ne: "march_and_january \<noteq> []"
    by (simp add: march_and_january_def)
  have h: "(\<forall>t \<in> set march_and_january. length (date t) \<le> 10 \<and>
        length (toFixed (Number_toString ?P) 2 (amount t)) \<le> 100) \<and>
      length march_and_january < 2 ^ 32"
    by (simp add: march_and_january_def records_march_and_january)
  from main have "createOfxContent ?P 0 march_and_january =
     document_head (dateCreated (example_platform (always [])) 0) @
     ''<DTSTART>'' @
     (if march_and_january = [] then dateCreated (example_platform (always [])) 0 else date (hd (sortedTransactions (example_platform (always [])) march_and_january))) @
     ''</DTSTART>'' @ [nl] @
     ''<DTEND>'' @
     (if march_and_january = [] then dateCreated (example_platform (always [])) 0 else date (last (sortedTransactions (example_platform (always [])) march_and_january))) @
     ''</DTEND>'' @
     concat (map (\<lambda>(index, t).
       [nl] @ ''<STMTTRN>'' @ [nl] @
       ''<TRNTYPE>'' @ (if amount t > 0 then ''CREDIT'' else ''DEBIT'') @ ''</TRNTYPE>'' @ [nl] @
       ''<DTPOSTED>'' @ date t @ ''</DTPOSTED>'' @ [nl] @
       ''<TRNAMT>'' @ toFixed (Number_toString (example_platform (always []))) 2 (amount t) @ ''</TRNAMT>'' @ [nl] @
       ''<FITID>'' @ generateUniqueId (Number_toString (example_platform (always []))) t index @ ''</FITID>'' @ [nl] @
       ''<MEMO>'' @ escape_memo (description t) @ ''</MEMO>'' @ [nl] @
       ''</STMTTRN>'') (enumerate 0 (sortedTransactions (example_platform (always [])) march_and_january))) @
     butlast (document_tail (dateCreated (example_platform (always [])) 0))"
    by blast
  then have d: "createOfxContent ?P 0 march_and_january =
     document_head ''19700101'' @
     ''<DTSTART>20240105</DTSTART>'' @ [nl] @ ''<DTEND>20240310</DTEND>'' @
     [nl] @ ''<STMTTRN>'' @ [nl] @ ''<TRNTYPE>CREDIT</TRNTYPE>'' @ [nl] @
     ''<DTPOSTED>20240105</DTPOSTED>'' @ [nl] @ ''<TRNAMT>3000.00</TRNAMT>'' @ [nl] @
     ''<FITID>20240105-3000.00-Salary-0</FITID>'' @ [nl] @ ''<MEMO>Salary</MEMO>'' @ [nl] @
     ''</STMTTRN>'' @
     [nl] @ ''<STMTTRN>'' @ [nl] @ ''<TRNTYPE>DEBIT</TRNTYPE>'' @ [nl] @
     ''<DTPOSTED>20240310</DTPOSTED>'' @ [nl] @ ''<TRNAMT>-1200.00</TRNAMT>'' @ [nl] @
     ''<FITID>20240310--1200.00-Rent-1</FITID>'' @ [nl] @ ''<MEMO>Rent</MEMO>'' @ [nl] @
     ''</STMTTRN>'' @
     butlast (document_tail ''19700101'')"
    unfolding sorted_march_and_january dateCreated_epoch
    by (simp add: ne enumerate_eq_zip upt_rec records_march_and_january)
  have i: "map (\<lambda>(index, t). generateUniqueId (Number_toString ?P) t index)
     (enumerate 0 (sortedTransactions ?P march_and_january))
     = [''20240105-3000.00-Salary-0'', ''20240310--1200.00-Rent-1'']"
    unfolding sorted_march_and_january
    by (simp add: enumerate_eq_zip upt_rec records_march_and_january)
  from main h have "distinct (map (\<lambda>(index, t). generateUniqueId (Number_toString ?P) t index)
     (enumerate 0 (sortedTransactions ?P march_and_january)))"
    by blast
  with d i show ?thesis
    by blast
qed

text \<open>
  The claim as the specification has it fails on a transaction of \<open>10\<^sup>2\<^sup>1\<close>: its amount is
  printed in exponent notation, without decimals, in \<open>TRNAMT\<close> and in the \<open>FITID\<close>, which is
  therefore not the identifier the claim describes, with or without the hyphens.
\<close>

theorem generateUniqueId_counterexample:
  "createOfxContent (example_platform (always [])) 0 sextillion =
     document_head ''19700101'' @
     ''<DTSTART>20240305</DTSTART>'' @ [nl] @ ''<DTEND>20240305</DTEND>'' @
     [nl] @ ''<STMTTRN>'' @ [nl] @ ''<TRNTYPE>CREDIT</TRNTYPE>'' @ [nl] @
     ''<DTPOSTED>20240305</DTPOSTED>'' @ [nl] @ ''<TRNAMT>1e+21</TRNAMT>'' @ [nl] @
     ''<FITID>20240305-1e+21-Rent-0</FITID>'' @ [nl] @ ''<MEMO>Rent</MEMO>'' @ [nl] @
     ''</STMTTRN>'' @
     butlast (document_tail ''19700101'') \<and>
   generateUniqueId (Number_toString (example_platform (always [])))
     \<lparr>date = ''20240305'', description = ''Rent'', amount = 10 ^ 21\<rparr> 0
     = ''20240305-1e+21-Rent-0'' \<and>
   ''20240305-1e+21-Rent-0'' \<noteq> ''20240305'' @ ''1000000000000000000000.00'' @ ''Rent'' @ ''0'' \<and>
   ''20240305-1e+21-Rent-0'' \<noteq>
     ''20240305'' @ ''-'' @ ''1000000000000000000000.00'' @ ''-'' @ ''Rent'' @ ''-'' @ ''0''"
proof -
  let ?P = "example_platform (always [])"
  have t: "toFixed (Number_toString ?P) 2 (10 ^ 21) = ''1e+21''"
    "toFixed (Number_toString ?P) 2 1000000000000000000000 = ''1e+21''"
    by (simp_all add: toFixed_large example_platform_def)
  have g: "generateUniqueId (Number_toString ?P)
     \<lparr>date = ''20240305'', description = ''Rent'', amount = 10 ^ 21\<rparr> 0
     = ''20240305-1e+21-Rent-0''"
    "generateUniqueId (Number_toString ?P)
     \<lparr>date = ''20240305'', description = ''Rent'', amount = 1000000000000000000000\<rparr> 0
     = ''20240305-1e+21-Rent-0''"
    by (simp_all add: generateUniqueId_def t slice_def isAlnum_def less_eq_char_def dec_small
        digit_def)
  have e: "escape_memo ''Rent'' = ''Rent''"
    by (simp add: escape_memo_def replace_all_def)
  have "createOfxContent ?P 0 sextillion =
     document_head ''19700101'' @
     ''<DTSTART>20240305</DTSTART>'' @ [nl] @ ''<DTEND>20240305</DTEND>'' @
     [nl] @ ''<STMTTRN>'' @ [nl] @ ''<TRNTYPE>CREDIT</TRNTYPE>'' @ [nl] @
     ''<DTPOSTED>20240305</DTPOSTED>'' @ [nl] @ ''<TRNAMT>1e+21</TRNAMT>'' @ [nl] @
     ''<FITID>20240305-1e+21-Rent-0</FITID>'' @ [nl] @ ''<MEMO>Rent</MEMO>'' @ [nl] @
     ''</STMTTRN>'' @
     butlast (document_tail ''19700101'')"
    unfolding createOfxContent_explicit sorted_sextillion dateCreated_epoch
    by (simp add: sextillion_def enumerate_eq_zip upt_rec t g e)
  with g(1) show ?thesis
    by simp
qed

lemma dateCreated_Day:
  assumes "Day (LocalTime P now) = Day (LocalTime P now')"
  shows "dateCreated P now = dateCreated P now'"
  using assms
  by (simp add: dateCreated_def YearFromTime_def MonthFromTime_def DateFromTime_def
      DayWithinYear_def InLeapYear_def)

text \<open>
  Claim C9, as amended. The serializer reads the clock: the document holds the current local
  date. Two invocations on the same transactions whose clock readings fall on the same local
  day give the same document, character for character.
\<close>

theorem createOfxContent_same_day:
  assumes "Day (LocalTime P now) = Day (LocalTime P now')"
  shows "createOfxContent P now transactions = createOfxContent P now' transactions"
  using dateCreated_Day [OF assms]
  by (simp add: createOfxContent_def startDate_def endDate_def)

theorem createOfxContent_same_day_witness:
  "Day (LocalTime (example_platform (always [])) 0)
     = Day (LocalTime (example_platform (always [])) 3600000) \<and>
   createOfxContent (example_platform (always [])) 0 march_and_january
     = createOfxContent (example_platform (always [])) 3600000 march_and_january"
proof -
  have d: "Day (LocalTime (example_platform (always [])) 0)
     = Day (LocalTime (example_platform (always [])) 3600000)"
    by (simp add: Day_def LocalTime_def example_platform_def msPerDay_def)
  from d createOfxContent_same_day [OF d] show ?thesis
    by blast
qed

text \<open>
  Invocations on different days do not: on the empty list, at the epoch and one day later.
\<close>

theorem createOfxContent_counterexample:
  "dateCreated (example_platform (always [])) 0 = ''19700101'' \<and>
   dateCreated (example_platform (always [])) 86400000 = ''19700102'' \<and>
   createOfxContent (example_platform (always [])) 0 []
     \<noteq> createOfxContent (example_platform (always [])) 86400000 []"
  by (simp add: createOfxContent_untrimmed startDate_def endDate_def transactionListString_def
      sortedTransactions_Nil dateCreated_epoch dateCreated_next_day document_head_def
      document_tail_def currency_def bankId_def acctId_def acctType_def)


end
